(* ===== verification/Web_Prelude.thy ===== *)
theory Web_Prelude
  imports Main "HOL-Library.Word"
begin

text \<open>
  Shared vocabulary of the models of \<open>apps/web\<close>.

  \<^item> JavaScript strings (\<open>jstr\<close>) are lists of UTF-16 code units, so lengths, slices and
    \<open>trim\<close> count what the browser counts; \<open>lit\<close> turns an ASCII literal of the source
    into one.
  \<^item> A promise settles as a \<open>'a settled\<close> value; a \<open>fetch\<close> settles with a status and a
    decoded body (\<open>'a reply\<close>) or fails.
  \<^item> An \<open>async\<close> function of the source is cut at its \<open>await\<close>s. The part after an await
    is a continuation stored in a \<open>pool\<close> under a number; the event loop resumes it when
    the promise settles. Between two awaits JavaScript runs to completion, so one event
    is one step.
  \<^item> \<open>reachable\<close> and the locale \<open>machine\<close> lift one-step preservation of an invariant to
    every state a component can reach, whatever the order of events.
\<close>

named_theorems lit_simps \<open>facts that decide equations between literals of the source\<close>

section \<open>JavaScript strings\<close>

type_synonym code_unit = "16 word"
type_synonym jstr = "code_unit list"

text \<open>A string literal of the source (ASCII part).\<close>

definition lit :: "string \<Rightarrow> jstr" where
  "lit s = map (of_char :: char \<Rightarrow> code_unit) s"

text \<open>U+2026, which several status lines of the source end with.\<close>

definition ellipsis :: jstr where
  "ellipsis = [0x2026]"

lemma of_char_unit_inject [simp]: "(of_char c :: code_unit) = of_char d \<longleftrightarrow> c = d"
proof
  assume eq: "(of_char c :: code_unit) = of_char d"
  have unat: "unat (of_char x :: code_unit) = of_char x" for x :: char
  proof -
    have "(of_char x :: nat) < 256" by (metis mod_less_divisor of_char_mod_256 zero_less_numeral)
    then have "(of_char x :: nat) < 2 ^ LENGTH(16)" by (simp add: less_trans [of _ 256])
    then have "unat (word_of_nat (of_char x) :: code_unit) = of_char x" by (simp add: unsigned_of_nat take_bit_nat_eq_self)
    then show ?thesis by (simp add: of_nat_of_char)
  qed
  have "(of_char c :: nat) = of_char d" by (simp only: unat [symmetric] eq)
  then show "c = d" by (rule of_char_eqI)
qed simp

lemma lit_inject [simp, lit_simps]: "lit s = lit t \<longleftrightarrow> s = t"
  by (simp add: lit_def inj_map_eq_map inj_def)

lemma lit_Nil [simp]: "lit [] = []"
  by (simp add: lit_def)

lemma lit_eq_Nil [simp, lit_simps]: "lit s = [] \<longleftrightarrow> s = []" "[] = lit s \<longleftrightarrow> s = []"
  by (auto simp: lit_def)

lemma length_lit [simp]: "length (lit s) = length s"
  by (simp add: lit_def)

lemma lit_append: "lit (s @ t) = lit s @ lit t"
  by (simp add: lit_def)

subsection \<open>Whitespace and \<open>trim\<close>\<close>

text \<open>ECMAScript WhiteSpace and LineTerminator code units, which \<open>String.prototype.trim\<close>
  removes at both ends.\<close>

definition js_space :: "code_unit \<Rightarrow> bool" where
  "js_space u \<longleftrightarrow> u \<in> set [0x9, 0xA, 0xB, 0xC, 0xD, 0x20, 0xA0, 0x1680,
     0x2000, 0x2001, 0x2002, 0x2003, 0x2004, 0x2005, 0x2006, 0x2007, 0x2008, 0x2009, 0x200A,
     0x2028, 0x2029, 0x202F, 0x205F, 0x3000, 0xFEFF]"

definition trim :: "jstr \<Rightarrow> jstr" where
  "trim s = rev (dropWhile js_space (rev (dropWhile js_space s)))"

text \<open>JavaScript's truthiness of \<open>s.trim()\<close>.\<close>

definition blank :: "jstr \<Rightarrow> bool" where
  "blank s \<longleftrightarrow> trim s = []"

lemma dropWhile_idem_rev:
  "dropWhile P (rev (dropWhile P (rev (dropWhile P s)))) = rev (dropWhile P (rev (dropWhile P s)))"
proof (cases "dropWhile P s")
  case (Cons x xs)
  then have "\<not> P x" by (metis hd_dropWhile list.distinct(1) list.sel(1))
  then have "rev (dropWhile P (rev (x # xs))) = x # rev (dropWhile P (rev xs))"
    by (simp add: dropWhile_append)
  with \<open>\<not> P x\<close> Cons show ?thesis by simp
next
  case Nil
  then show ?thesis by (simp only: rev.simps dropWhile.simps)
qed

lemma trim_idem [simp]: "trim (trim s) = trim s"
  by (simp add: trim_def dropWhile_idem_rev)

lemma trim_Nil [simp]: "trim [] = []"
  by (simp add: trim_def)

lemma length_trim_le: "length (trim s) \<le> length s"
  unfolding trim_def length_rev by (metis length_dropWhile_le length_rev order_trans)

lemma blank_iff_all_space: "blank s \<longleftrightarrow> (\<forall>u \<in> set s. js_space u)"
  by (auto simp: blank_def trim_def dest: set_dropWhileD)
     (metis dropWhile_eq_Nil_conv hd_dropWhile list.set_sel(1))

section \<open>Promises and \<open>fetch\<close>\<close>

text \<open>How a promise settles.\<close>

datatype 'a settled = Resolved 'a | Rejected

text \<open>
  How a \<open>fetch\<close> settles: a response with its status and its body, or a rejection (no
  network). The body is \<open>None\<close> where \<open>response.json()\<close> would reject.
\<close>

datatype 'a reply = Response nat "'a option" | NetworkError

text \<open>\<open>response.ok\<close>\<close>

definition ok_status :: "nat \<Rightarrow> bool" where
  "ok_status n \<longleftrightarrow> 200 \<le> n \<and> n < 300"

fun reply_ok :: "'a reply \<Rightarrow> bool" where
  "reply_ok (Response n _) = ok_status n"
| "reply_ok NetworkError = False"

text \<open>The decoded body of a successful response; \<open>None\<close> wherever the source throws.\<close>

fun reply_body :: "'a reply \<Rightarrow> 'a option" where
  "reply_body (Response n b) = (if ok_status n then b else None)"
| "reply_body NetworkError = None"

section \<open>\<open>Math.ceil\<close> of a quotient\<close>

text \<open>\<open>Math.ceil(a / k)\<close> for integers is \<open>- (- a div k)\<close>.\<close>

lemma ceil_div:
  fixes a k :: int
  assumes "0 < k"
  shows "k * (- ((- a) div k) - 1) < a" and "a \<le> k * - ((- a) div k)"
proof -
  obtain q r where q: "q = (- a) div k" and r: "- a = k * q + r" "0 \<le> r" "r < k"
    using assms by (metis mult_div_mod_eq pos_mod_bound pos_mod_sign)
  from r show "k * (- ((- a) div k) - 1) < a" "a \<le> k * - ((- a) div k)"
    unfolding q [symmetric] by (simp_all add: algebra_simps)
qed

section \<open>Pools of suspended continuations\<close>

text \<open>
  A pool numbers the suspended \<open>async\<close> calls of a component. A number is never used twice,
  because the counter that hands them out only grows.
\<close>

type_synonym 'k pool = "(nat \<times> 'k) list"

definition take_task :: "nat \<Rightarrow> 'k pool \<Rightarrow> ('k \<times> 'k pool) option" where
  "take_task i p = (case dropWhile (\<lambda>e. fst e \<noteq> i) p of [] \<Rightarrow> None
     | e # q \<Rightarrow> Some (snd e, takeWhile (\<lambda>e. fst e \<noteq> i) p @ q))"

definition conts :: "'k pool \<Rightarrow> 'k set" where
  "conts p = snd ` set p"

lemma conts_Nil [simp]: "conts [] = {}"
  by (simp add: conts_def)

lemma conts_append [simp]: "conts (p @ q) = conts p \<union> conts q"
  by (simp add: conts_def image_Un)

lemma conts_Cons [simp]: "conts ((i, k) # p) = insert k (conts p)"
  by (simp add: conts_def)

lemma take_task_SomeE:
  assumes "take_task i p = Some (k, q)"
  obtains a b where "p = a @ (i, k) # b" and "q = a @ b"
proof -
  obtain e b where drop: "dropWhile (\<lambda>e. fst e \<noteq> i) p = e # b"
    and k: "k = snd e" and q: "q = takeWhile (\<lambda>e. fst e \<noteq> i) p @ b"
    using assms by (auto simp: take_task_def split: list.splits)
  have "fst e = i" using hd_dropWhile [of "\<lambda>e. fst e \<noteq> i" p] drop by simp
  then have e: "e = (i, k)" using k by (cases e) simp
  have "p = takeWhile (\<lambda>e. fst e \<noteq> i) p @ (i, k) # b"
    using takeWhile_dropWhile_id [of "\<lambda>e. fst e \<noteq> i" p] unfolding drop e by (rule sym)
  then show thesis using q by (rule that)
qed

lemma take_task_SomeD:
  "take_task i p = Some (k, q) \<Longrightarrow> k \<in> conts p \<and> conts q \<subseteq> conts p"
  by (erule take_task_SomeE) auto

lemma take_task_cont: "take_task i p = Some (k, q) \<Longrightarrow> k \<in> conts p"
  by (simp add: take_task_SomeD)

lemma take_task_sub: "take_task i p = Some (k, q) \<Longrightarrow> x \<in> conts q \<Longrightarrow> x \<in> conts p"
  by (blast dest: take_task_SomeD)

text \<open>The suspended calls of one sort, for the components that allow only one at a time.\<close>

definition tasks_of :: "('k \<Rightarrow> bool) \<Rightarrow> 'k pool \<Rightarrow> 'k list" where
  "tasks_of P p = filter P (map snd p)"

lemma tasks_of_simps [simp]:
  "tasks_of P [] = []"
  "tasks_of P (p @ q) = tasks_of P p @ tasks_of P q"
  "tasks_of P ((i, k) # p) = (if P k then k # tasks_of P p else tasks_of P p)"
  by (auto simp: tasks_of_def)

lemma set_tasks_of: "set (tasks_of P p) = {k \<in> conts p. P k}"
  by (auto simp: tasks_of_def conts_def)

lemma take_task_single:
  assumes "take_task i p = Some (k, q)" and "length (tasks_of P p) \<le> 1"
  shows "P k \<Longrightarrow> tasks_of P q = [] \<and> tasks_of P p = [k]"
    and "\<not> P k \<Longrightarrow> tasks_of P q = tasks_of P p"
  using assms by (auto elim!: take_task_SomeE)

section \<open>Event-driven components\<close>

text \<open>
  A component is a step function on its state; \<open>ok s e\<close> says which events its environment
  can deliver in \<open>s\<close>. The reachable states are those of all its runs.
\<close>

inductive reachable :: "('s \<Rightarrow> 'e \<Rightarrow> 's) \<Rightarrow> ('s \<Rightarrow> 'e \<Rightarrow> bool) \<Rightarrow> 's \<Rightarrow> 's \<Rightarrow> bool"
  for step ok s\<^sub>0 where
  start: "reachable step ok s\<^sub>0 s\<^sub>0"
| event: "reachable step ok s\<^sub>0 s \<Longrightarrow> ok s e \<Longrightarrow> reachable step ok s\<^sub>0 (step s e)"

text \<open>The run on a list of events, and the check that each is admissible where it comes.\<close>

definition run :: "('s \<Rightarrow> 'e \<Rightarrow> 's) \<Rightarrow> 's \<Rightarrow> 'e list \<Rightarrow> 's" where
  "run step s es = foldl step s es"

fun admissible :: "('s \<Rightarrow> 'e \<Rightarrow> 's) \<Rightarrow> ('s \<Rightarrow> 'e \<Rightarrow> bool) \<Rightarrow> 's \<Rightarrow> 'e list \<Rightarrow> bool" where
  "admissible step ok s [] = True"
| "admissible step ok s (e # es) = (ok s e \<and> admissible step ok (step s e) es)"

lemma run_Nil [simp]: "run step s [] = s"
  by (simp add: run_def)

lemma run_Cons [simp]: "run step s (e # es) = run step (step s e) es"
  by (simp add: run_def)

lemma run_append [simp]: "run step s (es @ fs) = run step (run step s es) fs"
  by (simp add: run_def)

lemma admissible_reachable_from:
  "reachable step ok s\<^sub>0 s \<Longrightarrow> admissible step ok s es \<Longrightarrow> reachable step ok s\<^sub>0 (run step s es)"
  by (induction es arbitrary: s) (auto intro: reachable.event)

lemma admissible_reachable:
  "admissible step ok s es \<Longrightarrow> reachable step ok s (run step s es)"
  by (rule admissible_reachable_from [OF reachable.start])

lemma reachable_mono:
  "reachable step ok s\<^sub>0 s \<Longrightarrow> (\<And>s e. ok s e \<Longrightarrow> ok' s e) \<Longrightarrow> reachable step ok' s\<^sub>0 s"
  by (induction rule: reachable.induct) (auto intro: reachable.intros)

lemma admissible_True: "admissible step (\<lambda>_ _. True) s es"
  by (induction es arbitrary: s) auto

text \<open>The contract of an invariant, and what follows from it for runs.\<close>

locale machine =
  fixes step :: "'s \<Rightarrow> 'e \<Rightarrow> 's"
    and ok :: "'s \<Rightarrow> 'e \<Rightarrow> bool"
    and inv :: "'s \<Rightarrow> bool"
  assumes inv_step: "inv s \<Longrightarrow> ok s e \<Longrightarrow> inv (step s e)"
begin

lemma inv_run: "inv s \<Longrightarrow> admissible step ok s es \<Longrightarrow> inv (run step s es)"
  by (induction es arbitrary: s) (auto intro: inv_step)

lemma inv_reachable: "reachable step ok s\<^sub>0 s \<Longrightarrow> inv s\<^sub>0 \<Longrightarrow> inv s"
  by (induction rule: reachable.induct) (auto intro: inv_step)

end

text \<open>
  A quantity that no admissible event lets decrease in a transitive, reflexive order
  (a flag that is never reset, a log that only grows).
\<close>

locale monotone_machine =
  fixes step :: "'s \<Rightarrow> 'e \<Rightarrow> 's"
    and ok :: "'s \<Rightarrow> 'e \<Rightarrow> bool"
    and le :: "'s \<Rightarrow> 's \<Rightarrow> bool"
  assumes le_step: "ok s e \<Longrightarrow> le s (step s e)"
    and le_refl: "le s s"
    and le_trans: "le s t \<Longrightarrow> le t u \<Longrightarrow> le s u"
begin

lemma le_run: "admissible step ok s es \<Longrightarrow> le s (run step s es)"
  by (induction es arbitrary: s) (auto intro: le_step le_refl le_trans)

lemma le_reachable: "reachable step ok s\<^sub>0 s \<Longrightarrow> le s\<^sub>0 s"
  by (induction rule: reachable.induct) (auto intro: le_step le_refl le_trans)

end

text \<open>
  A component that sends bodies to the server, each of them one the server accepts.
\<close>

locale form = machine step ok inv
  for step :: "'s \<Rightarrow> 'e \<Rightarrow> 's" and ok :: "'s \<Rightarrow> 'e \<Rightarrow> bool" and inv :: "'s \<Rightarrow> bool" +
  fixes bodies :: "'s \<Rightarrow> 'b list" and good :: "'b \<Rightarrow> bool"
  assumes sends_good: "inv s \<Longrightarrow> ok s e \<Longrightarrow> bodies (step s e) = bodies s \<or> (\<exists>b. good b \<and> bodies (step s e) = bodies s @ [b])"
begin

lemma bodies_good:
  assumes "reachable step ok s\<^sub>0 s" and "inv s\<^sub>0" and "bodies s\<^sub>0 = []"
  shows "list_all good (bodies s)"
  using assms(1)
proof (induction rule: reachable.induct)
  case (event s e)
  have "inv s" using event.hyps(1) assms(2) by (rule inv_reachable)
  from sends_good [OF this event.hyps(2)] event.IH show ?case by auto
qed (simp add: assms(3))

end

text \<open>
  A component that is over and settles: every event that resumes a pending call uses up some of
  the work that is left, and no event adds any.
\<close>

fun resumptions :: "('s \<Rightarrow> 'e \<Rightarrow> 's) \<Rightarrow> ('s \<Rightarrow> 'e \<Rightarrow> bool) \<Rightarrow> 's \<Rightarrow> 'e list \<Rightarrow> nat" where
  "resumptions step resumes s [] = 0"
| "resumptions step resumes s (e # es) = (if resumes s e then 1 else 0) + resumptions step resumes (step s e) es"

locale quiescing =
  fixes step :: "'s \<Rightarrow> 'e \<Rightarrow> 's"
    and resumes :: "'s \<Rightarrow> 'e \<Rightarrow> bool"
    and over :: "'s \<Rightarrow> bool"
    and work :: "'s \<Rightarrow> nat"
  assumes over_step: "over s \<Longrightarrow> over (step s e)"
    and work_step: "over s \<Longrightarrow> work (step s e) \<le> work s"
    and work_less: "over s \<Longrightarrow> resumes s e \<Longrightarrow> work (step s e) < work s"
begin

lemma over_run: "over s \<Longrightarrow> over (run step s es)"
  by (induction es arbitrary: s) (auto intro: over_step)

lemma work_bound: "over s \<Longrightarrow> resumptions step resumes s es + work (run step s es) \<le> work s"
proof (induction es arbitrary: s)
  case (Cons e es)
  have "resumptions step resumes (step s e) es + work (run step (step s e) es) \<le> work (step s e)"
    using Cons.prems by (intro Cons.IH over_step)
  moreover have "(if resumes s e then 1 else 0) + work (step s e) \<le> work s"
    using work_step [OF Cons.prems, of e] work_less [OF Cons.prems, of e] by auto
  ultimately show ?case by simp
qed simp

lemma resumptions_le: "over s \<Longrightarrow> resumptions step resumes s es \<le> work s"
  using work_bound [of s es] by simp

end

end
