(* ===== verification/Media_Devices.thy ===== *)
theory Media_Devices
  imports Web_Prelude
begin

text \<open>
  The browser's media tracks, as far as the source uses them. A track is a shared mutable
  object: several streams and closures refer to the same one, and \<open>track.stop()\<close> is seen
  through every reference. So tracks live in a store (\<open>devices\<close>) and are named by their
  index; a \<open>MediaStream\<close> is the list of the tracks it holds. A camera or microphone is on
  exactly while its track is live.

  The locale \<open>capture_source\<close> is the contract between the code that opens devices
  (\<open>lib/webrtc/media.ts\<close>, \<open>call-camera.ts\<close>, \<open>processed-camera.ts\<close>) and the components that
  must release them: what opening adds, and that releasing turns off exactly that.
\<close>

section \<open>Tracks\<close>

datatype track_kind = Audio | Video

record track =
  tk_kind :: track_kind
  tk_live :: bool
  tk_enabled :: bool

type_synonym devices = "track list"
type_synonym stream = "nat list"

definition live_track :: "devices \<Rightarrow> nat \<Rightarrow> bool" where
  "live_track d i \<longleftrightarrow> i < length d \<and> tk_live (d ! i)"

definition live_set :: "devices \<Rightarrow> nat set" where
  "live_set d = {i. live_track d i}"

text \<open>Opening a device appends a fresh live, enabled track.\<close>

definition open_track :: "track_kind \<Rightarrow> devices \<Rightarrow> nat \<times> devices" where
  "open_track k d = (length d, d @ [\<lparr>tk_kind = k, tk_live = True, tk_enabled = True\<rparr>])"

text \<open>\<open>getUserMedia({ video: true, audio: true })\<close>\<close>

definition both_tracks :: "track_kind \<Rightarrow> track_kind \<Rightarrow> devices \<Rightarrow> stream \<times> devices" where
  "both_tracks k l d = (let (i, d1) = open_track k d; (j, d2) = open_track l d1 in ([i, j], d2))"

text \<open>\<open>track.stop()\<close>, and \<open>getTracks().forEach(track => track.stop())\<close>\<close>

definition stop_track :: "nat \<Rightarrow> devices \<Rightarrow> devices" where
  "stop_track i d = (if i < length d then d[i := (d ! i)\<lparr>tk_live := False\<rparr>] else d)"

definition stop_tracks :: "nat list \<Rightarrow> devices \<Rightarrow> devices" where
  "stop_tracks is d = fold stop_track is d"

definition of_kind :: "track_kind \<Rightarrow> devices \<Rightarrow> stream \<Rightarrow> stream" where
  "of_kind k d is = filter (\<lambda>i. i < length d \<and> tk_kind (d ! i) = k) is"

text \<open>\<open>tracks.forEach(track => { track.enabled = b; })\<close>\<close>

definition enable_track :: "bool \<Rightarrow> nat \<Rightarrow> devices \<Rightarrow> devices" where
  "enable_track b i d = (if i < length d then d[i := (d ! i)\<lparr>tk_enabled := b\<rparr>] else d)"

definition enable_tracks :: "bool \<Rightarrow> nat list \<Rightarrow> devices \<Rightarrow> devices" where
  "enable_tracks b is d = fold (enable_track b) is d"

text \<open>\<open>stream.addTrack(track)\<close> ignores a track the stream already holds.\<close>

definition add_track :: "nat \<Rightarrow> stream \<Rightarrow> stream" where
  "add_track i s = (if i \<in> set s then s else s @ [i])"

subsection \<open>Frame facts of the store\<close>

lemma length_stop_track [simp]: "length (stop_track i d) = length d"
  by (simp add: stop_track_def)

lemma length_stop_tracks [simp]: "length (stop_tracks is d) = length d"
  by (induction "is" arbitrary: d) (simp_all add: stop_tracks_def)

lemma length_enable_track [simp]: "length (enable_track b i d) = length d"
  by (simp add: enable_track_def)

lemma length_enable_tracks [simp]: "length (enable_tracks b is d) = length d"
  by (induction "is" arbitrary: d) (simp_all add: enable_tracks_def)

lemma live_stop_track [simp]: "live_track (stop_track i d) j \<longleftrightarrow> live_track d j \<and> j \<noteq> i"
  by (auto simp: live_track_def stop_track_def nth_list_update split: if_splits)

lemma live_stop_tracks [simp]: "live_track (stop_tracks is d) j \<longleftrightarrow> live_track d j \<and> j \<notin> set is"
  by (induction "is" arbitrary: d) (auto simp: stop_tracks_def)

lemma live_enable_track [simp]: "live_track (enable_track b i d) j \<longleftrightarrow> live_track d j"
  by (auto simp: live_track_def enable_track_def nth_list_update split: if_splits)

lemma live_enable_tracks [simp]: "live_track (enable_tracks b is d) j \<longleftrightarrow> live_track d j"
  by (induction "is" arbitrary: d) (auto simp: enable_tracks_def)

lemma live_set_stop_tracks [simp]: "live_set (stop_tracks is d) = live_set d - set is"
  by (auto simp: live_set_def)

lemma live_set_stop_track [simp]: "live_set (stop_track i d) = live_set d - {i}"
  by (auto simp: live_set_def)

lemma live_set_enable_tracks [simp]: "live_set (enable_tracks b is d) = live_set d"
  by (auto simp: live_set_def)

lemma live_set_append:
  "live_set (d @ ts) = live_set d \<union> {i. length d \<le> i \<and> i < length d + length ts \<and> tk_live (ts ! (i - length d))}"
  by (auto simp: live_set_def live_track_def nth_append)

lemma live_set_open [simp]: "live_set (snd (open_track k d)) = insert (length d) (live_set d)"
  by (auto simp: open_track_def live_set_append)

lemma fst_open_track [simp]: "fst (open_track k d) = length d"
  by (simp add: open_track_def)

lemma length_open_track [simp]: "length (snd (open_track k d)) = Suc (length d)"
  by (simp add: open_track_def)

lemma live_set_bound: "i \<in> live_set d \<Longrightarrow> i < length d"
  by (simp add: live_set_def live_track_def)

lemma live_set_Nil [simp]: "live_set [] = {}"
  by (simp add: live_set_def live_track_def)

lemma set_add_track [simp]: "set (add_track i s) = insert i (set s)"
  by (auto simp: add_track_def)

lemma set_of_kind_sub: "set (of_kind k d s) \<subseteq> set s"
  by (auto simp: of_kind_def)

lemma kind_stop_track [simp]: "map tk_kind (stop_track i d) = map tk_kind d"
  by (auto simp: stop_track_def map_update intro: list_update_same_conv [THEN iffD2])

lemma enabled_stop_track [simp]: "map tk_enabled (stop_track i d) = map tk_enabled d"
  by (auto simp: stop_track_def map_update intro: list_update_same_conv [THEN iffD2])

lemma kind_stop_tracks [simp]: "map tk_kind (stop_tracks is d) = map tk_kind d"
  by (induction "is" arbitrary: d) (simp_all add: stop_tracks_def)

lemma enabled_stop_tracks [simp]: "map tk_enabled (stop_tracks is d) = map tk_enabled d"
  by (induction "is" arbitrary: d) (simp_all add: stop_tracks_def)

lemma kind_enable_track [simp]: "map tk_kind (enable_track b i d) = map tk_kind d"
  by (auto simp: enable_track_def map_update intro: list_update_same_conv [THEN iffD2])

lemma kind_enable_tracks [simp]: "map tk_kind (enable_tracks b is d) = map tk_kind d"
  by (induction "is" arbitrary: d) (simp_all add: enable_tracks_def)

lemma enabled_enable_tracks:
  "i < length d \<Longrightarrow> tk_enabled (enable_tracks b is d ! i) = (if i \<in> set is then b else tk_enabled (d ! i))"
proof (induction "is" arbitrary: d)
  case Nil
  then show ?case by (simp add: enable_tracks_def)
next
  case (Cons j js)
  have "enable_tracks b (j # js) d = enable_tracks b js (enable_track b j d)"
    by (simp add: enable_tracks_def)
  with Cons show ?case
    by (auto simp: enable_track_def nth_list_update split: if_splits)
qed

section \<open>The contract of a capture\<close>

locale capture_source =
  fixes acquire :: "devices \<Rightarrow> 'c \<times> devices"
    and release :: "'c \<Rightarrow> devices \<Rightarrow> devices"
    and owns :: "'c \<Rightarrow> nat set"
  assumes acquire_live: "acquire d = (c, d') \<Longrightarrow> live_set d' = live_set d \<union> owns c"
    and acquire_fresh: "acquire d = (c, d') \<Longrightarrow> i \<in> owns c \<Longrightarrow> length d \<le> i"
    and acquire_grows: "acquire d = (c, d') \<Longrightarrow> length d \<le> length d'"
    and release_live: "live_set (release c d) = live_set d - owns c"
    and release_length: "length (release c d) = length d"
begin

text \<open>Opening and then releasing leaves on exactly the devices that were on before.\<close>

lemma release_acquire:
  assumes "acquire d = (c, d')"
  shows "live_set (release c d') = live_set d"
proof -
  have "owns c \<inter> live_set d = {}"
    using acquire_fresh [OF assms] by (fastforce dest: live_set_bound)
  then show ?thesis
    by (auto simp: release_live acquire_live [OF assms])
qed

lemma release_idem: "live_set (release c (release c d)) = live_set (release c d)"
  by (simp add: release_live)

lemma release_owned: "owns c \<inter> live_set (release c d) = {}"
  by (auto simp: release_live)

end

text \<open>\<open>getUserMedia({ audio: true })\<close>: one microphone track, released by stopping the stream.\<close>

definition open_microphone :: "devices \<Rightarrow> stream \<times> devices" where
  "open_microphone d = (let (i, d') = open_track Audio d in ([i], d'))"

interpretation microphone: capture_source open_microphone stop_tracks set
  by unfold_locales (auto simp: open_microphone_def open_track_def live_set_append)

end
