(* ===== verification/Call_Media.thy ===== *)
theory Call_Media
  imports Media_Devices
begin

text \<open>
  \<open>lib/webrtc/call-media.ts\<close>: binding the local microphone and camera to the transceivers of
  a peer connection, as the caller (new transceivers) or the answerer (the transceivers of
  the remote offer), and collecting remote tracks into one stream.
\<close>

section \<open>Attaching local media\<close>

datatype direction = SendRecv | RecvOnly | SendOnly | Inactive

record transceiver =
  tr_kind :: track_kind          \<comment> \<open>\<open>receiver.track.kind\<close>\<close>
  tr_direction :: direction
  tr_sending :: "nat option"     \<comment> \<open>the sender's track\<close>
  tr_streams :: bool             \<comment> \<open>the sender names the local stream\<close>
  tr_balanced :: bool            \<comment> \<open>\<open>degradationPreference = "balanced"\<close> was set\<close>

text \<open>
  The browser's answers during one call of \<open>attachCallMedia\<close>: does \<open>addTransceiver\<close> throw,
  does \<open>replaceTrack\<close> resolve for a kind, does \<open>setParameters\<close> resolve.
\<close>

record attach_env =
  ae_add :: bool
  ae_replace :: "track_kind \<Rightarrow> bool"
  ae_params :: bool

datatype attach_error = NotOffered track_kind | AddThrows | ReplaceRejects track_kind | ParamsReject

definition find_index_kind :: "track_kind \<Rightarrow> transceiver list \<Rightarrow> nat option" where
  "find_index_kind k ts = find (\<lambda>i. tr_kind (ts ! i) = k) [0..<length ts]"

text \<open>\<open>media.getTracks().find(item => item.kind === kind) ?? null\<close>\<close>

definition media_track :: "devices \<Rightarrow> stream \<Rightarrow> track_kind \<Rightarrow> nat option" where
  "media_track d media k = find (\<lambda>i. i < length d \<and> tk_kind (d ! i) = k) media"

text \<open>One round of the loop over \<open>["audio", "video"]\<close>; the transceivers are returned in
  either case, since the source has already changed them when it throws.\<close>

definition attach_kind ::
  "attach_env \<Rightarrow> devices \<Rightarrow> stream \<Rightarrow> bool \<Rightarrow> track_kind \<Rightarrow> transceiver list
    \<Rightarrow> transceiver list \<times> (attach_error + nat)" where
  "attach_kind env d media answering k ts =
     (let trk = media_track d media k in
      if answering then
        (case find_index_kind k ts of
           None \<Rightarrow> (ts, Inl (NotOffered k))
         | Some i \<Rightarrow>
             let ts1 = ts[i := (ts ! i)\<lparr>tr_direction := SendRecv, tr_streams := True\<rparr>] in
             if \<not> ae_replace env k then (ts1, Inl (ReplaceRejects k))
             else let ts2 = ts1[i := (ts1 ! i)\<lparr>tr_sending := trk\<rparr>] in
             if k = Video then
               (if \<not> ae_params env then (ts2, Inl ParamsReject)
                else (ts2[i := (ts2 ! i)\<lparr>tr_balanced := True\<rparr>], Inr i))
             else (ts2, Inr i))
      else if \<not> ae_add env then (ts, Inl AddThrows)
      else let i = length ts;
             t = \<lparr>tr_kind = k, tr_direction = SendRecv, tr_sending = trk, tr_streams = True,
                  tr_balanced = False\<rparr> in
           if k = Video then
             (if \<not> ae_params env then (ts @ [t], Inl ParamsReject)
              else (ts @ [t\<lparr>tr_balanced := True\<rparr>], Inr i))
           else (ts @ [t], Inr i))"

text \<open>\<open>attachCallMedia\<close>: audio first, then video; the result is the video sender.\<close>

definition attach_call_media ::
  "attach_env \<Rightarrow> devices \<Rightarrow> stream \<Rightarrow> bool \<Rightarrow> transceiver list
    \<Rightarrow> transceiver list \<times> (attach_error + nat)" where
  "attach_call_media env d media answering ts =
     (case attach_kind env d media answering Audio ts of
        (ts1, Inl e) \<Rightarrow> (ts1, Inl e)
      | (ts1, Inr _) \<Rightarrow> attach_kind env d media answering Video ts1)"

lemma find_index_kind_SomeD:
  "find_index_kind k ts = Some i \<Longrightarrow> i < length ts \<and> tr_kind (ts ! i) = k"
  by (auto simp: find_index_kind_def find_Some_iff)

lemma find_index_kind_None: "find_index_kind k ts = None \<longleftrightarrow> (\<forall>t \<in> set ts. tr_kind t \<noteq> k)"
  by (auto simp: find_index_kind_def find_None_iff all_set_conv_all_nth)

lemma find_index_kind_cong:
  assumes "map tr_kind ts = map tr_kind us"
  shows "find_index_kind k ts = find_index_kind k us"
proof -
  have "length ts = length us" using assms by (rule map_eq_imp_length_eq)
  moreover have "tr_kind (ts ! i) = tr_kind (us ! i)" if "i < length us" for i
    using assms that calculation by (metis nth_map)
  ultimately show ?thesis unfolding find_index_kind_def
    by (intro find_cong) auto
qed

text \<open>Answering never creates a transceiver and never changes the kind of one.\<close>

lemma attach_kind_answer_kinds:
  "attach_kind env d media True k ts = (ts', r) \<Longrightarrow> map tr_kind ts' = map tr_kind ts"
  by (auto simp: attach_kind_def Let_def map_update split: option.splits if_splits
      dest!: find_index_kind_SomeD intro!: list_update_same_conv [THEN iffD2])

lemma attach_kind_answer_ok:
  assumes "attach_kind env d media True k ts = (ts', Inr i)"
  shows "find_index_kind k ts = Some i \<and> i < length ts \<and> length ts' = length ts
    \<and> tr_sending (ts' ! i) = media_track d media k \<and> tr_direction (ts' ! i) = SendRecv
    \<and> tr_streams (ts' ! i) \<and> (k = Video \<longrightarrow> tr_balanced (ts' ! i))
    \<and> (\<forall>j. j \<noteq> i \<longrightarrow> ts' ! j = ts ! j)"
  using assms
  by (auto simp: attach_kind_def Let_def split: option.splits if_splits dest: find_index_kind_SomeD)

section \<open>Receiving remote tracks\<close>

text \<open>\<open>receiveTrack\<close>: the stream is a list of track ids; the element, if mounted, shows a stream
  (by name).\<close>

definition receive_track ::
  "'s \<Rightarrow> jstr list \<Rightarrow> jstr \<Rightarrow> 's option option \<Rightarrow> jstr list \<times> 's option option" where
  "receive_track name tracks t element =
     (if t \<in> set tracks then tracks else tracks @ [t],
      case element of None \<Rightarrow> None | Some src \<Rightarrow> Some (if src \<noteq> Some name then Some name else src))"

section \<open>Properties\<close>

text \<open>C31: the answerer binds its microphone and camera to the transceivers of the remote offer
  and creates none: on success the first audio and the first video transceiver send the
  local tracks in both directions, the result is the sender of that video transceiver with
  balanced degradation, and every other transceiver is untouched.\<close>

theorem answer_uses_offered_transceivers:
  assumes "attach_call_media env d media True ts = (ts', Inr v)"
  shows "map tr_kind ts' = map tr_kind ts
    \<and> (\<exists>a. find_index_kind Audio ts = Some a \<and> find_index_kind Video ts = Some v
        \<and> tr_sending (ts' ! a) = media_track d media Audio
        \<and> tr_sending (ts' ! v) = media_track d media Video
        \<and> tr_direction (ts' ! a) = SendRecv \<and> tr_direction (ts' ! v) = SendRecv
        \<and> tr_streams (ts' ! a) \<and> tr_streams (ts' ! v)
        \<and> tr_balanced (ts' ! v)
        \<and> (\<forall>j. j \<noteq> a \<longrightarrow> j \<noteq> v \<longrightarrow> ts' ! j = ts ! j))"
proof -
  obtain ts1 a where audio: "attach_kind env d media True Audio ts = (ts1, Inr a)"
    and video: "attach_kind env d media True Video ts1 = (ts', Inr v)"
    using assms by (auto simp: attach_call_media_def split: prod.splits sum.splits)
  note kinds1 = attach_kind_answer_kinds [OF audio] and kinds2 = attach_kind_answer_kinds [OF video]
  note ok1 = attach_kind_answer_ok [OF audio] and ok2 = attach_kind_answer_ok [OF video]
  have v: "find_index_kind Video ts = Some v"
    using ok2 find_index_kind_cong [OF kinds1] by simp
  have "a \<noteq> v" using ok1 v by (auto dest!: find_index_kind_SomeD)
  then show ?thesis using ok1 ok2 kinds1 kinds2 v by auto
qed

text \<open>A two-transceiver offer, as the caller's side produces it.\<close>

definition plain_offer :: "transceiver list" where
  "plain_offer = [\<lparr>tr_kind = Audio, tr_direction = RecvOnly, tr_sending = None, tr_streams = False, tr_balanced = False\<rparr>,
    \<lparr>tr_kind = Video, tr_direction = RecvOnly, tr_sending = None, tr_streams = False, tr_balanced = False\<rparr>]"

theorem answer_uses_offered_transceivers_witness:
  "map tr_kind (fst (attach_call_media \<lparr>ae_add = True, ae_replace = (\<lambda>_. True), ae_params = True\<rparr>
     [\<lparr>tk_kind = Audio, tk_live = True, tk_enabled = True\<rparr>] [0] True plain_offer))
   = map tr_kind plain_offer"
proof -
  let ?r = "attach_call_media \<lparr>ae_add = True, ae_replace = (\<lambda>_. True), ae_params = True\<rparr>
     [\<lparr>tk_kind = Audio, tk_live = True, tk_enabled = True\<rparr>] [0] True plain_offer"
  have "?r = (fst ?r, Inr 1)"
    by (simp add: attach_call_media_def attach_kind_def plain_offer_def find_index_kind_def
        media_track_def Let_def upt_rec)
  then show ?thesis using answer_uses_offered_transceivers by blast
qed

text \<open>C32: an answer to an offer that lacks one of the two kinds fails with that kind, and when
  the browser's own operations succeed that is the only way \<open>attachCallMedia\<close> can fail.\<close>

theorem attach_fails_only_if_not_offered:
  assumes "ae_add env" and "\<And>k. ae_replace env k" and "ae_params env"
  shows "(\<exists>e. snd (attach_call_media env d media answering ts) = Inl e) \<longleftrightarrow>
    answering \<and> (find_index_kind Audio ts = None \<or> find_index_kind Video ts = None)"
proof (cases answering)
  case False
  then show ?thesis using assms by (simp add: attach_call_media_def attach_kind_def Let_def)
next
  case True
  show ?thesis
  proof (cases "find_index_kind Audio ts")
    case None
    with True show ?thesis by (simp add: attach_call_media_def attach_kind_def)
  next
    case (Some a)
    obtain ts1 where audio: "attach_kind env d media True Audio ts = (ts1, Inr a)"
      using Some assms by (simp add: attach_kind_def Let_def)
    have "find_index_kind Video ts1 = find_index_kind Video ts"
      by (rule find_index_kind_cong [OF attach_kind_answer_kinds [OF audio]])
    with Some True audio assms show ?thesis
      by (simp add: attach_call_media_def attach_kind_def [of _ _ _ _ Video] Let_def split: option.splits)
  qed
qed

theorem attach_fails_only_if_not_offered_witness:
  "\<exists>e. snd (attach_call_media \<lparr>ae_add = True, ae_replace = (\<lambda>_. True), ae_params = True\<rparr>
     [] [] True (take 1 plain_offer)) = Inl e"
  by (subst attach_fails_only_if_not_offered)
     (simp_all add: find_index_kind_def plain_offer_def)

text \<open>Collecting a remote track twice is the same as once, and the element always ends up
  showing the stream.\<close>

lemma receive_track_idempotent:
  "(let (ts, el) = receive_track name tracks t element in receive_track name ts t el)
     = receive_track name tracks t element
   \<and> t \<in> set (fst (receive_track name tracks t element))
   \<and> snd (receive_track name tracks t element) = map_option (\<lambda>_. Some name) element"
  by (auto simp: receive_track_def split: option.splits)

end
