(* ===== verification/Processed_Camera.thy ===== *)
theory Processed_Camera
  imports Media_Devices
begin

text \<open>
  \<open>lib/webrtc/processed-camera.ts\<close> and its caller \<open>call-camera.ts\<close>: opening a camera
  through the frame-processing path or the canvas fallback, the pump that mirrors and
  forwards frames, and the \<open>stop\<close> that releases the device. What the browser decides
  (which API exists, which step throws) is the record \<open>camera_env\<close>.
\<close>

section \<open>Opening a processed camera\<close>

text \<open>Where the frame-processing path of \<open>processCamera\<close> ends: it is missing, one of its
  steps throws (in source order), or it returns.\<close>

datatype native_path = NativeMissing | ProcessorThrows | GeneratorThrows | ContextMissing
  | ReaderThrows | WriterThrows | NativeOk

record camera_env =
  ce_native :: native_path
  ce_context :: bool       \<comment> \<open>\<open>canvas.getContext\<close> gives a context\<close>
  ce_play :: bool          \<comment> \<open>\<open>source.play()\<close> resolves\<close>
  ce_request_frame :: bool \<comment> \<open>\<open>track.requestFrame\<close> is a function\<close>

text \<open>A \<open>CameraCapture\<close>: the processed track and, inside its \<open>stop\<close>, the raw camera track.\<close>

record capture =
  cap_track :: nat
  cap_raw :: nat

definition stop_capture :: "capture \<Rightarrow> devices \<Rightarrow> devices" where
  "stop_capture c d = stop_tracks [cap_track c, cap_raw c] d"

text \<open>The compatibility path: \<open>None\<close> is the rethrown error.\<close>

definition compat_camera :: "camera_env \<Rightarrow> nat \<Rightarrow> devices \<Rightarrow> capture option \<times> devices" where
  "compat_camera env input d =
     (if \<not> ce_context env \<or> \<not> ce_play env then (None, stop_track input d)
      else let (t, d1) = open_track Video d in
        if ce_request_frame env then (Some \<lparr>cap_track = t, cap_raw = input\<rparr>, d1)
        else let (r, d2) = open_track Video d1 in
          (Some \<lparr>cap_track = r, cap_raw = input\<rparr>, stop_track t d2))"

definition process_camera :: "camera_env \<Rightarrow> nat \<Rightarrow> devices \<Rightarrow> capture option \<times> devices" where
  "process_camera env input d =
     (case ce_native env of
        NativeMissing \<Rightarrow> compat_camera env input d
      | ProcessorThrows \<Rightarrow> compat_camera env input d
      | GeneratorThrows \<Rightarrow> compat_camera env input d
      | NativeOk \<Rightarrow> (let (out, d1) = open_track Video d in
          (Some \<lparr>cap_track = out, cap_raw = input\<rparr>, d1))
      | _ \<Rightarrow> (let (out, d1) = open_track Video d in
          compat_camera env input (stop_track out d1)))"

text \<open>\<open>callCamera\<close>: \<open>getUserMedia\<close> opens the raw camera, \<open>processCamera\<close> wraps it.\<close>

definition call_camera :: "camera_env \<Rightarrow> devices \<Rightarrow> capture option \<times> devices" where
  "call_camera env d = (let (input, d1) = open_track Video d in process_camera env input d1)"

fun release_camera :: "capture option \<Rightarrow> devices \<Rightarrow> devices" where
  "release_camera None d = d"
| "release_camera (Some c) d = stop_capture c d"

fun camera_tracks :: "capture option \<Rightarrow> nat set" where
  "camera_tracks None = {}"
| "camera_tracks (Some c) = {cap_track c, cap_raw c}"

lemma live_set_stop_capture [simp]:
  "live_set (stop_capture c d) = live_set d - {cap_track c, cap_raw c}"
  by (simp add: stop_capture_def)

lemma length_stop_capture [simp]: "length (stop_capture c d) = length d"
  by (simp add: stop_capture_def)

lemma compat_camera_live:
  assumes "compat_camera env input d = (c, d')" and "input < length d"
  shows "live_set d' = (case c of None \<Rightarrow> live_set d - {input}
      | Some p \<Rightarrow> insert (cap_track p) (live_set d))
    \<and> length d \<le> length d'
    \<and> (\<forall>p. c = Some p \<longrightarrow> length d \<le> cap_track p \<and> cap_raw p = input)"
  using assms live_set_bound [of "length d" d]
  by (auto simp: compat_camera_def Let_def open_track_def live_set_append split: if_splits)

lemma process_camera_live:
  assumes "process_camera env input d = (c, d')" and "input < length d"
  shows "live_set d' = (case c of None \<Rightarrow> live_set d - {input}
      | Some p \<Rightarrow> insert (cap_track p) (live_set d))
    \<and> length d \<le> length d'
    \<and> (\<forall>p. c = Some p \<longrightarrow> length d \<le> cap_track p \<and> cap_raw p = input)"
proof -
  let ?d1 = "stop_track (length d) (snd (open_track Video d))"
  have live1: "live_set ?d1 = live_set d" and len1: "length ?d1 = Suc (length d)"
    by (auto dest: live_set_bound)
  consider (compat) "compat_camera env input d = (c, d')"
    | (native) "c = Some \<lparr>cap_track = length d, cap_raw = input\<rparr>" "d' = snd (open_track Video d)"
    | (fallback) "compat_camera env input ?d1 = (c, d')"
    using assms(1) by (cases "ce_native env") (auto simp: process_camera_def split_beta Let_def)
  then show ?thesis
  proof cases
    case compat
    then show ?thesis using assms(2) by (rule compat_camera_live)
  next
    case native
    then show ?thesis by simp
  next
    case fallback
    note facts = compat_camera_live [OF fallback, unfolded live1 len1]
    show ?thesis using facts assms(2) by auto
  qed
qed

interpretation camera: capture_source "call_camera env" release_camera camera_tracks
proof unfold_locales
  fix d c d' i
  assume acquire: "call_camera env d = (c, d')"
  let ?d1 = "snd (open_track Video d)"
  have p: "process_camera env (length d) ?d1 = (c, d')"
    using acquire by (simp add: call_camera_def split_beta Let_def)
  note facts = process_camera_live [OF p, simplified]
  show "live_set d' = live_set d \<union> camera_tracks c"
    using facts live_set_bound [of "length d" d] by (cases c) auto
  show "i \<in> camera_tracks c \<Longrightarrow> length d \<le> i"
    using facts by (cases c) auto
  show "length d \<le> length d'" using facts by simp
next
  fix c d
  show "live_set (release_camera c d) = live_set d - camera_tracks c" by (cases c) auto
  show "length (release_camera c d) = length d" by (cases c) auto
qed

section \<open>The frame pump\<close>

text \<open>
  The \<open>while (!stopped)\<close> loop of the frame-processing path, cut at its three awaits. A
  frame is its rows of pixels and its capture timestamp. The state logs every frame read
  and every frame written, and counts \<open>close()\<close> calls on both sorts, so the resource
  discipline (\<open>finally { frame.close() }\<close>) is visible.
\<close>

record 'px frame =
  fr_rows :: "'px list list"
  fr_time :: int

text \<open>The canvas transform: \<open>translate(width, 0); scale(-1, 1); drawImage\<close> when mirroring.\<close>

definition draw_rows :: "bool \<Rightarrow> 'px list list \<Rightarrow> 'px list list" where
  "draw_rows mirror rows = (if mirror then map rev rows else rows)"

definition transform_frame :: "bool \<Rightarrow> 'px frame \<Rightarrow> 'px frame" where
  "transform_frame mirror f = \<lparr>fr_rows = draw_rows mirror (fr_rows f), fr_time = fr_time f\<rparr>"

datatype pump_pc = AwaitReady | AwaitRead | AwaitWrite | PumpDone

record 'px pump =
  pu_pc :: pump_pc
  pu_stopped :: bool
  pu_capture :: capture
  pu_devices :: devices
  pu_read :: "'px frame list"      \<comment> \<open>frames \<open>read()\<close> has delivered\<close>
  pu_drawn :: "(bool \<times> 'px frame) list" \<comment> \<open>frames drawn, with the mirror setting used\<close>
  pu_written :: "'px frame list"   \<comment> \<open>frames passed to \<open>write()\<close>\<close>
  pu_closed_in :: nat
  pu_closed_out :: nat

datatype 'px pump_event =
    WriterReady bool                       \<comment> \<open>\<open>frameWriter.ready\<close> resolves or rejects\<close>
  | ReadFrame "'px frame" bool bool        \<comment> \<open>\<open>read()\<close>: a frame; \<open>mirror()\<close>; drawing succeeds\<close>
  | ReadDone bool                          \<comment> \<open>\<open>read()\<close>: \<open>done\<close>, or rejection\<close>
  | WriteSettled bool                      \<comment> \<open>\<open>write()\<close> resolves or rejects\<close>
  | PumpStop                               \<comment> \<open>the capture's \<open>stop()\<close>\<close>

definition pump_stop :: "'px pump \<Rightarrow> 'px pump" where
  "pump_stop p = (if pu_stopped p then p
     else p\<lparr>pu_stopped := True, pu_devices := stop_capture (pu_capture p) (pu_devices p)\<rparr>)"

text \<open>The \<open>finally { stop(); }\<close> that ends the pump.\<close>

definition pump_finish :: "'px pump \<Rightarrow> 'px pump" where
  "pump_finish p = (pump_stop p)\<lparr>pu_pc := PumpDone\<rparr>"

text \<open>The loop head \<open>while (!stopped)\<close>.\<close>

definition pump_loop :: "'px pump \<Rightarrow> 'px pump" where
  "pump_loop p = (if pu_stopped p then pump_finish p else p\<lparr>pu_pc := AwaitReady\<rparr>)"

definition close_in :: "'px pump \<Rightarrow> 'px pump" where
  "close_in p = p\<lparr>pu_closed_in := Suc (pu_closed_in p)\<rparr>"

definition close_out :: "'px pump \<Rightarrow> 'px pump" where
  "close_out p = p\<lparr>pu_closed_out := Suc (pu_closed_out p)\<rparr>"

definition got_frame :: "'px frame \<Rightarrow> bool \<Rightarrow> bool \<Rightarrow> 'px pump \<Rightarrow> 'px pump" where
  "got_frame f mirror drawn p =
     (let p = p\<lparr>pu_read := pu_read p @ [f]\<rparr> in
      if pu_stopped p then pump_finish (close_in p)
      else if \<not> drawn then pump_finish (close_in p)
      else p\<lparr>pu_drawn := pu_drawn p @ [(mirror, f)],
             pu_written := pu_written p @ [transform_frame mirror f],
             pu_pc := AwaitWrite\<rparr>)"

fun pump_step :: "'px pump \<Rightarrow> 'px pump_event \<Rightarrow> 'px pump" where
  "pump_step p PumpStop = pump_stop p"
| "pump_step p (WriterReady ok) = (if pu_pc p = AwaitReady
     then (if ok then p\<lparr>pu_pc := AwaitRead\<rparr> else pump_finish p) else p)"
| "pump_step p (ReadFrame f mirror drawn) =
     (if pu_pc p = AwaitRead then got_frame f mirror drawn p else p)"
| "pump_step p (ReadDone ok) = (if pu_pc p = AwaitRead then pump_finish p else p)"
| "pump_step p (WriteSettled ok) = (if pu_pc p = AwaitWrite
     then (if ok then pump_loop (close_in (close_out p)) else pump_finish (close_in (close_out p)))
     else p)"

definition pump_start :: "capture \<Rightarrow> devices \<Rightarrow> 'px pump" where
  "pump_start c d = \<lparr>pu_pc = AwaitReady, pu_stopped = False, pu_capture = c, pu_devices = d,
     pu_read = [], pu_drawn = [], pu_written = [], pu_closed_in = 0, pu_closed_out = 0\<rparr>"

text \<open>
  The pump's invariant: at most one frame is held, everything else read or produced is
  closed, what is written is exactly what was drawn, and a finished pump has released the
  camera.
\<close>

definition held :: "'px pump \<Rightarrow> nat" where
  "held p = (if pu_pc p = AwaitWrite then 1 else 0)"

definition pump_inv :: "'px pump \<Rightarrow> bool" where
  "pump_inv p \<longleftrightarrow>
     length (pu_read p) = pu_closed_in p + held p
   \<and> length (pu_written p) = pu_closed_out p + held p
   \<and> pu_written p = map (\<lambda>(m, f). transform_frame m f) (pu_drawn p)
   \<and> map snd (pu_drawn p) = take (length (pu_drawn p)) (pu_read p)
   \<and> (pu_pc p \<noteq> PumpDone \<longrightarrow> length (pu_drawn p) = length (pu_read p))
   \<and> (pu_stopped p \<longrightarrow> live_set (pu_devices p) \<inter> {cap_track (pu_capture p), cap_raw (pu_capture p)} = {})
   \<and> (pu_pc p = PumpDone \<longrightarrow> pu_stopped p)"

lemmas pump_defs = pump_stop_def pump_finish_def pump_loop_def close_in_def close_out_def
  got_frame_def held_def

lemma pump_inv_start: "pump_inv (pump_start c d)"
  by (simp add: pump_inv_def pump_start_def held_def)

lemma pump_inv_step: "pump_inv p \<Longrightarrow> pump_inv (pump_step p e)"
  by (cases e; cases "pu_pc p"; cases "pu_stopped p") (auto simp: pump_inv_def pump_defs Let_def)

interpretation pump: machine pump_step "\<lambda>_ _. True" pump_inv
  by unfold_locales (rule pump_inv_step)

lemma pump_inv_run: "pump_inv (run pump_step (pump_start c d) es)"
  by (rule pump.inv_run [OF pump_inv_start admissible_True])

text \<open>Once stopped, the pump writes nothing more.\<close>

lemma pump_stopped_step:
  "pu_stopped p \<Longrightarrow> pu_stopped (pump_step p e) \<and> pu_written (pump_step p e) = pu_written p"
  by (cases e; cases "pu_pc p") (auto simp: pump_defs Let_def)

lemma pump_stopped_run:
  "pu_stopped p \<Longrightarrow> pu_stopped (run pump_step p es) \<and> pu_written (run pump_step p es) = pu_written p"
  by (induction es arbitrary: p) (auto simp: pump_stopped_step)

section \<open>The canvas fallback\<close>

text \<open>
  \<open>draw\<close> of the compatibility path runs on each video or animation frame callback. It
  draws only when the element has dimensions and its time moved. \<open>currentTime\<close> is a number
  in seconds; the source only compares it, so any type with equality models it, with \<open>None\<close> for
  the initial \<open>-1\<close>, which no element reports.
\<close>

record 't compat =
  cp_stopped :: bool
  cp_scheduled :: bool             \<comment> \<open>a callback is requested\<close>
  cp_automatic :: bool             \<comment> \<open>no \<open>requestFrame\<close>: the stream samples by itself\<close>
  cp_last :: "'t option"
  cp_canvas :: "nat \<times> nat"
  cp_drawn :: "('t \<times> bool) list"   \<comment> \<open>times drawn and the mirror setting used\<close>
  cp_requested :: nat              \<comment> \<open>\<open>track.requestFrame()\<close> calls\<close>
  cp_capture :: capture
  cp_devices :: devices

definition compat_draw :: "nat \<Rightarrow> nat \<Rightarrow> 't \<Rightarrow> bool \<Rightarrow> 't compat \<Rightarrow> 't compat" where
  "compat_draw w h t mirror c =
     (if cp_stopped c then c\<lparr>cp_scheduled := False\<rparr>
      else let c = (if w \<noteq> 0 \<and> h \<noteq> 0 \<and> cp_last c \<noteq> Some t
          then c\<lparr>cp_last := Some t, cp_canvas := (w, h), cp_drawn := cp_drawn c @ [(t, mirror)],
                 cp_requested := (if cp_automatic c then cp_requested c else Suc (cp_requested c))\<rparr>
          else c) in c\<lparr>cp_scheduled := True\<rparr>)"

definition compat_stop :: "'t compat \<Rightarrow> 't compat" where
  "compat_stop c = c\<lparr>cp_stopped := True, cp_scheduled := False,
     cp_devices := stop_capture (cp_capture c) (cp_devices c)\<rparr>"

datatype 't compat_event = Tick nat nat 't bool | CompatStop

text \<open>A tick is delivered only while a callback is scheduled.\<close>

fun compat_step :: "'t compat \<Rightarrow> 't compat_event \<Rightarrow> 't compat" where
  "compat_step c (Tick w h t mirror) = (if cp_scheduled c then compat_draw w h t mirror c else c)"
| "compat_step c CompatStop = compat_stop c"

text \<open>\<open>draw()\<close> is called once before the capture is returned.\<close>

definition compat_start :: "bool \<Rightarrow> capture \<Rightarrow> devices \<Rightarrow> nat \<Rightarrow> nat \<Rightarrow> 't \<Rightarrow> bool \<Rightarrow> 't compat" where
  "compat_start automatic cap d w h t mirror = compat_draw w h t mirror
     \<lparr>cp_stopped = False, cp_scheduled = False, cp_automatic = automatic, cp_last = None,
      cp_canvas = (0, 0), cp_drawn = [], cp_requested = 0, cp_capture = cap, cp_devices = d\<rparr>"

definition compat_inv :: "'t compat \<Rightarrow> bool" where
  "compat_inv c \<longleftrightarrow>
     distinct_adj (map fst (cp_drawn c))
   \<and> cp_last c = (if cp_drawn c = [] then None else Some (fst (last (cp_drawn c))))
   \<and> cp_requested c = (if cp_automatic c then 0 else length (cp_drawn c))
   \<and> (cp_stopped c \<longrightarrow> \<not> cp_scheduled c
        \<and> live_set (cp_devices c) \<inter> {cap_track (cp_capture c), cap_raw (cp_capture c)} = {})"

lemma compat_inv_draw: "compat_inv c \<Longrightarrow> compat_inv (compat_draw w h t mirror c)"
  by (auto simp: compat_inv_def compat_draw_def Let_def distinct_adj_append_iff last_map)

lemma compat_inv_start: "compat_inv (compat_start automatic cap d w h t mirror)"
  unfolding compat_start_def by (rule compat_inv_draw) (simp add: compat_inv_def)

interpretation compat: machine compat_step "\<lambda>_ _. True" compat_inv
proof unfold_locales
  fix c :: "'a compat" and e
  assume "compat_inv c"
  then show "compat_inv (compat_step c e)"
  proof (cases e)
    case (Tick w h t mirror)
    with \<open>compat_inv c\<close> show ?thesis by (simp add: compat_inv_draw)
  next
    case CompatStop
    with \<open>compat_inv c\<close> show ?thesis by (simp add: compat_stop_def compat_inv_def)
  qed
qed

section \<open>Properties\<close>



text \<open>C30: the frame pump of the processed camera, after any events: at most one frame is
  held at a time, every other frame read or produced has been closed exactly once, the
  frames written are the frames read, in order, with their own timestamps and mirrored as
  asked, and when the pump has ended the camera is released.\<close>

theorem pump_bounded_and_faithful:
  fixes p :: "'px pump"
  assumes "p = run pump_step (pump_start c d) es"
  shows "length (pu_read p) - pu_closed_in p \<le> 1 \<and> pu_closed_in p \<le> length (pu_read p)
    \<and> length (pu_written p) - pu_closed_out p \<le> 1 \<and> pu_closed_out p \<le> length (pu_written p)
    \<and> map fr_time (pu_written p) = take (length (pu_written p)) (map fr_time (pu_read p))
    \<and> pu_written p = map (\<lambda>(m, f). transform_frame m f) (pu_drawn p)
    \<and> (pu_pc p = PumpDone \<longrightarrow> pu_closed_in p = length (pu_read p)
         \<and> cap_raw (pu_capture p) \<notin> live_set (pu_devices p)
         \<and> cap_track (pu_capture p) \<notin> live_set (pu_devices p))"
proof -
  have inv: "pump_inv p" unfolding assms by (rule pump_inv_run)
  have "map fr_time (pu_written p) = map (fr_time \<circ> snd) (pu_drawn p)"
    using inv by (auto simp: pump_inv_def transform_frame_def)
  also have "\<dots> = map fr_time (take (length (pu_drawn p)) (pu_read p))"
    using inv unfolding pump_inv_def map_map [symmetric] by simp
  also have "length (pu_drawn p) = length (pu_written p)"
    using inv by (simp add: pump_inv_def)
  finally show ?thesis
    using inv by (auto simp: pump_inv_def held_def take_map)
qed

theorem pump_bounded_and_faithful_witness:
  "length (pu_read (run pump_step (pump_start \<lparr>cap_track = 0, cap_raw = 1\<rparr> [])
      [WriterReady True, ReadFrame \<lparr>fr_rows = [[1, 2 :: nat]], fr_time = 7\<rparr> True True])) - 0 \<le> 1"
  using pump_bounded_and_faithful [of "run pump_step (pump_start \<lparr>cap_track = 0, cap_raw = 1\<rparr> [])
      [WriterReady True, ReadFrame \<lparr>fr_rows = [[1, 2 :: nat]], fr_time = 7\<rparr> True True]", OF refl]
  by (simp add: pump_start_def got_frame_def)

text \<open>The canvas fallback requests exactly one output frame for each camera frame it
  draws, and never draws the same capture time twice in a row, so no timer duplicates old
  frames; once stopped it schedules no callback and the camera is off.\<close>

theorem compat_draws_fresh_frames:
  fixes c :: "'t compat"
  assumes "c = run compat_step (compat_start automatic cap d w h t mirror) es"
  shows "distinct_adj (map fst (cp_drawn c))
    \<and> (\<not> cp_automatic c \<longrightarrow> cp_requested c = length (cp_drawn c))
    \<and> (cp_stopped c \<longrightarrow> \<not> cp_scheduled c \<and> cap_raw (cp_capture c) \<notin> live_set (cp_devices c))"
proof -
  have "compat_inv c"
    unfolding assms by (rule compat.inv_run [OF compat_inv_start admissible_True])
  then show ?thesis by (simp add: compat_inv_def)
qed

theorem compat_draws_fresh_frames_witness:
  "distinct_adj (map fst (cp_drawn (run compat_step
     (compat_start False \<lparr>cap_track = 0, cap_raw = 1\<rparr> [] 2 2 (0::nat) True)
     [Tick 2 2 0 True, Tick 2 2 1 True])))"
  using compat_draws_fresh_frames [OF refl,
    of False "\<lparr>cap_track = 0, cap_raw = 1\<rparr>" "[]" 2 2 "0::nat" True "[Tick 2 2 0 True, Tick 2 2 1 True]"]
  by blast

end
