(* ===== verification/Call_Overlay.thy ===== *)
theory Call_Overlay
  imports Complex_Main Processed_Camera
begin

text \<open>
  \<open>components/communication/video-call.tsx\<close>: the call overlay. One \<open>overlay\<close> record holds
  the React state and the refs of \<open>CallOverlay\<close>, the media tracks it can reach, the
  suspended \<open>async\<close> calls and a log of what it asks of the outside world (requests to
  \<open>/v1/calls/{id}\<close>, device prompts, peer connection calls), in order.

  Every \<open>await\<close> of the source is a constructor of \<open>cont\<close>; the values a closure captured
  before it (such as \<open>muted\<close> at the time of the click) are its arguments. The promise chain
  \<open>handling\<close>, which serialises the live events, is \<open>ov_queue\<close> and \<open>ov_handling\<close>.
\<close>

section \<open>State\<close>

record call_session =
  cs_id :: jstr
  cs_connection :: jstr
  cs_caller :: jstr
  cs_callee :: jstr
  cs_name :: jstr
  cs_video :: bool
  cs_outgoing :: bool

datatype call_phase = Ringing | Connecting | Active | Ended

datatype facing = User | Environment

datatype conn_state = PcNew | PcConnecting | PcConnected | PcDisconnected | PcFailed

record peer_conn =
  pc_remote :: bool          \<comment> \<open>\<open>remoteDescription\<close> is set\<close>
  pc_state :: conn_state

text \<open>The bodies posted by \<open>action\<close>.\<close>

datatype call_action = DoAccept | DoEnd | DoDecline | DoHeartbeat
  | DoOffer jstr | DoAnswer jstr | DoIce jstr | DoMedia bool bool

datatype call_fx = Post call_action | CloseOverlay
  | AskMicrophone | AskCamera facing
  | NewPeer | ClosePeer | AttachMedia bool
  | SetLocal jstr | SetRemote jstr | AddIce jstr | ReplaceTrack "nat option"

text \<open>The live events of this call: \<open>call.accept\<close>, \<open>call.end\<close>, ...; \<open>SigMedia None\<close> is a payload
  that is not an object.\<close>

datatype call_signal = SigAccept | SigEnd | SigDecline | SigOffer jstr | SigAnswer jstr
  | SigIce jstr | SigMedia "bool option" | SigOther

text \<open>What runs after \<open>await setup()\<close>, by caller.\<close>

datatype setup_caller = ByAcceptClick | ByAcceptEvent | ByOffer jstr

datatype cont =
    KMicrophone setup_caller | KCamera setup_caller | KAttach setup_caller | KSetupEnd setup_caller
  | KAcceptPost
  | KCreateOffer | KOfferLocal jstr | KOfferPost
  | KRemoteOffer | KAnswerAttach | KAnswerIce "jstr list" | KCreateAnswer | KAnswerLocal jstr | KAnswerPost
  | KRemoteAnswer | KOffererIce "jstr list" | KIce
  | KHeartbeat
  | KVideoOff bool | KVideoCam bool | KVideoReplace capture bool | KVideoPost
  | KFlipCam facing | KFlipReplace capture facing
  | KMutePost

record overlay =
  ov_call :: call_session
  ov_ice_ok :: bool          \<comment> \<open>\<open>new RTCPeerConnection(ice)\<close> accepts the configuration\<close>
  ov_phase :: call_phase
  ov_status :: jstr
  ov_videoOn :: bool
  ov_muted :: bool
  ov_remoteVideoOn :: bool
  ov_position :: "rat \<times> rat"
  ov_facing :: facing
  ov_localRatio :: rat
  ov_peer :: "peer_conn option"
  ov_stream :: "stream option"
  ov_sender :: bool
  ov_pending :: "jstr list"
  ov_dead :: bool
  ov_started :: bool
  ov_callPhase :: call_phase
  ov_camera :: "capture option"
  ov_mounted :: bool
  ov_devices :: devices
  ov_tasks :: "cont pool"
  ov_next :: nat
  ov_queue :: "call_signal list"
  ov_handling :: bool
  ov_received :: "jstr list" \<comment> \<open>history: remote candidates handled so far\<close>
  ov_log :: "call_fx list"

definition overlay_init :: "call_session \<Rightarrow> bool \<Rightarrow> overlay" where
  "overlay_init call ice_ok = \<lparr>ov_call = call, ov_ice_ok = ice_ok, ov_phase = Ringing,
     ov_status = (if cs_outgoing call then lit ''Calling...'' else lit ''Incoming call''),
     ov_videoOn = cs_video call, ov_muted = False, ov_remoteVideoOn = cs_video call,
     ov_position = (72 / 100, 1 / 10), ov_facing = User, ov_localRatio = 3 / 4,
     ov_peer = None, ov_stream = None, ov_sender = False, ov_pending = [],
     ov_dead = False, ov_started = False, ov_callPhase = Ringing, ov_camera = None,
     ov_mounted = True, ov_devices = [], ov_tasks = [], ov_next = 0,
     ov_queue = [], ov_handling = False, ov_received = [], ov_log = []\<rparr>"

definition fx :: "call_fx \<Rightarrow> overlay \<Rightarrow> overlay" where
  "fx f s = s\<lparr>ov_log := ov_log s @ [f]\<rparr>"

definition await :: "cont \<Rightarrow> overlay \<Rightarrow> overlay" where
  "await k s = s\<lparr>ov_tasks := ov_tasks s @ [(ov_next s, k)], ov_next := Suc (ov_next s)\<rparr>"

definition stream_tracks :: "overlay \<Rightarrow> stream" where
  "stream_tracks s = (case ov_stream s of None \<Rightarrow> [] | Some ts \<Rightarrow> ts)"

section \<open>Ending a call\<close>

definition cleanup :: "overlay \<Rightarrow> overlay" where
  "cleanup s =
     (let s = s\<lparr>ov_dead := True,
          ov_devices := stop_tracks (stream_tracks s) (release_camera (ov_camera s) (ov_devices s)),
          ov_camera := None\<rparr>
      in (case ov_peer s of None \<Rightarrow> s | Some _ \<Rightarrow> (fx ClosePeer s)\<lparr>ov_peer := None\<rparr>))"

text \<open>\<open>finish\<close> cleans up, closes the overlay and reports the end; the answer is ignored.\<close>

definition finish :: "call_action \<Rightarrow> overlay \<Rightarrow> overlay" where
  "finish a s = fx (Post a) (fx CloseOverlay (cleanup s))"

text \<open>The pattern \<open>cleanup(); setPhase("ended"); setStatus(...)\<close>.\<close>

definition end_with :: "string \<Rightarrow> overlay \<Rightarrow> overlay" where
  "end_with msg s = (cleanup s)\<lparr>ov_phase := Ended, ov_status := lit msg\<rparr>"

text \<open>The end of a queued event handler, and its \<open>catch\<close>.\<close>

definition handled :: "overlay \<Rightarrow> overlay" where
  "handled s = s\<lparr>ov_handling := False\<rparr>"

definition handler_fail :: "overlay \<Rightarrow> overlay" where
  "handler_fail s = handled (finish DoEnd
     (s\<lparr>ov_status := lit ''Could not connect this call. Please try again.''\<rparr>))"

section \<open>\<open>setup\<close>\<close>

text \<open>The code after \<open>await setup()\<close> in \<open>accept\<close>, in the \<open>call.accept\<close> handler and in the
  \<open>call.offer\<close> handler.\<close>

fun setup_return :: "setup_caller \<Rightarrow> overlay \<Rightarrow> overlay" where
  "setup_return ByAcceptClick s =
     (if ov_dead s then s else await KAcceptPost (fx (Post DoAccept) s))"
| "setup_return ByAcceptEvent s =
     (case ov_peer s of None \<Rightarrow> handled s | Some _ \<Rightarrow> await KCreateOffer s)"
| "setup_return (ByOffer d) s =
     (case ov_peer s of None \<Rightarrow> handled s | Some _ \<Rightarrow> await KRemoteOffer (fx (SetRemote d) s))"

definition setup_finish :: "setup_caller \<Rightarrow> overlay \<Rightarrow> overlay" where
  "setup_finish r s = setup_return r (s\<lparr>ov_callPhase := Connecting, ov_phase := Connecting,
     ov_status := lit ''Connecting...''\<rparr>)"

definition setup_catch :: "setup_caller \<Rightarrow> overlay \<Rightarrow> overlay" where
  "setup_catch r s = await (KSetupEnd r) (fx (Post DoEnd)
     (s\<lparr>ov_status := lit ''Camera or microphone access failed. Check your permissions and try again.''\<rparr>))"

definition setup_connect :: "setup_caller \<Rightarrow> overlay \<Rightarrow> overlay" where
  "setup_connect r s =
     (if \<not> ov_ice_ok s then setup_catch r s
      else let s = fx NewPeer (s\<lparr>ov_peer := Some \<lparr>pc_remote = False, pc_state = PcNew\<rparr>\<rparr>) in
        if cs_outgoing (ov_call s) then await (KAttach r) (fx (AttachMedia False) s)
        else setup_finish r s)"

definition setup_call :: "setup_caller \<Rightarrow> overlay \<Rightarrow> overlay" where
  "setup_call r s = (if ov_started s then setup_return r s
     else await (KMicrophone r) (fx AskMicrophone (s\<lparr>ov_started := True\<rparr>)))"

text \<open>After \<open>getUserMedia\<close> resolved.\<close>

definition got_microphone :: "setup_caller \<Rightarrow> overlay \<Rightarrow> overlay" where
  "got_microphone r s =
     (let (media, d) = open_microphone (ov_devices s) in
      if ov_dead s then setup_return r (s\<lparr>ov_devices := stop_tracks media d\<rparr>)
      else let s = s\<lparr>ov_devices := d, ov_stream := Some media\<rparr> in
        if cs_video (ov_call s) then await (KCamera r) (fx (AskCamera User) s)
        else setup_connect r s)"

text \<open>After \<open>callCamera("user")\<close> settled, in \<open>setup\<close>.\<close>

definition got_camera :: "setup_caller \<Rightarrow> camera_env \<Rightarrow> overlay \<Rightarrow> overlay" where
  "got_camera r env s =
     (case call_camera env (ov_devices s) of
        (None, d) \<Rightarrow> setup_catch r (s\<lparr>ov_devices := d\<rparr>)
      | (Some c, d) \<Rightarrow>
          if ov_dead s then setup_return r (s\<lparr>ov_devices := stop_capture c d\<rparr>)
          else setup_connect r (s\<lparr>ov_devices := d, ov_camera := Some c,
                 ov_stream := Some (add_track (cap_track c) (stream_tracks s))\<rparr>))"

section \<open>Live events\<close>

fun answer_ice :: "jstr list \<Rightarrow> overlay \<Rightarrow> overlay" where
  "answer_ice [] s = await KCreateAnswer s"
| "answer_ice (c # cs) s = await (KAnswerIce cs) (fx (AddIce c) s)"

text \<open>\<open>peer.current\<close> is read again in each round: it throws when the call was cleaned up.\<close>

fun offerer_ice :: "jstr list \<Rightarrow> overlay \<Rightarrow> overlay" where
  "offerer_ice [] s = handled s"
| "offerer_ice (c # cs) s =
     (case ov_peer s of None \<Rightarrow> handler_fail s
      | Some _ \<Rightarrow> await (KOffererIce cs) (fx (AddIce c) s))"

definition handle :: "call_signal \<Rightarrow> overlay \<Rightarrow> overlay" where
  "handle e s =
     (let s = s\<lparr>ov_handling := True\<rparr> in
      if ov_dead s then handled s
      else if e = SigAccept \<and> \<not> cs_outgoing (ov_call s) \<and> ov_callPhase s = Ringing
        then handled (end_with ''Answered on another tab or device.'' s)
      else (case e of
        SigDecline \<Rightarrow> handled (end_with ''Call declined'' s)
      | SigEnd \<Rightarrow> handled (end_with ''Call ended'' s)
      | SigAccept \<Rightarrow> if cs_outgoing (ov_call s) then setup_call ByAcceptEvent s else handled s
      | SigOffer d \<Rightarrow> setup_call (ByOffer d) s
      | SigAnswer d \<Rightarrow> (case ov_peer s of None \<Rightarrow> handled s
          | Some _ \<Rightarrow> await KRemoteAnswer (fx (SetRemote d) s))
      | SigIce c \<Rightarrow> (let s = s\<lparr>ov_received := ov_received s @ [c]\<rparr> in
          case ov_peer s of
            Some p \<Rightarrow> if pc_remote p then await KIce (fx (AddIce c) s)
              else handled (s\<lparr>ov_pending := ov_pending s @ [c]\<rparr>)
          | None \<Rightarrow> handled (s\<lparr>ov_pending := ov_pending s @ [c]\<rparr>))
      | SigMedia v \<Rightarrow> (case v of None \<Rightarrow> handler_fail s
          | Some b \<Rightarrow> handled (s\<lparr>ov_remoteVideoOn := b\<rparr>))
      | SigOther \<Rightarrow> handled s))"

text \<open>The chain runs queued handlers one after the other until one is suspended.\<close>

fun drain :: "call_signal list \<Rightarrow> overlay \<Rightarrow> overlay" where
  "drain [] s = s\<lparr>ov_queue := []\<rparr>"
| "drain (e # es) s = (if ov_handling s then s\<lparr>ov_queue := e # es\<rparr> else drain es (handle e s))"

section \<open>Camera and microphone controls\<close>

text \<open>Stop and remove the video tracks of the local stream.\<close>

definition drop_video :: "overlay \<Rightarrow> overlay" where
  "drop_video s = (let vs = of_kind Video (ov_devices s) (stream_tracks s) in
     s\<lparr>ov_devices := stop_tracks vs (ov_devices s),
       ov_stream := Some (filter (\<lambda>i. i \<notin> set vs) (stream_tracks s))\<rparr>)"

definition stop_camera :: "overlay \<Rightarrow> overlay" where
  "stop_camera s = s\<lparr>ov_devices := release_camera (ov_camera s) (ov_devices s), ov_camera := None\<rparr>"

definition use_camera :: "capture \<Rightarrow> overlay \<Rightarrow> overlay" where
  "use_camera c s = s\<lparr>ov_camera := Some c,
     ov_stream := Some (add_track (cap_track c) (stream_tracks s))\<rparr>"

definition video_catch :: "overlay \<Rightarrow> overlay" where
  "video_catch s = s\<lparr>ov_status := lit ''Could not change the camera. Check device permissions.''\<rparr>"

definition flip_catch :: "overlay \<Rightarrow> overlay" where
  "flip_catch s = s\<lparr>ov_status := lit ''Could not switch cameras.''\<rparr>"

text \<open>\<open>toggleVideo\<close> from the click to its first await; \<open>muted\<close> is captured there.\<close>

definition toggle_video :: "overlay \<Rightarrow> overlay" where
  "toggle_video s =
     (if ov_stream s = None \<or> \<not> ov_sender s then s
      else if ov_videoOn s then await (KVideoOff (ov_muted s)) (fx (ReplaceTrack None) s)
      else await (KVideoCam (ov_muted s)) (fx (AskCamera (ov_facing s)) s))"

text \<open>Its last part: \<open>setVideoOn(!videoOn)\<close> and the report to the peer.\<close>

definition video_done :: "bool \<Rightarrow> bool \<Rightarrow> overlay \<Rightarrow> overlay" where
  "video_done was_on muted s = await KVideoPost
     (fx (Post (DoMedia (\<not> was_on) (\<not> muted))) (s\<lparr>ov_videoOn := \<not> was_on\<rparr>))"

definition other_facing :: "facing \<Rightarrow> facing" where
  "other_facing f = (if f = User then Environment else User)"

definition switch_camera :: "overlay \<Rightarrow> overlay" where
  "switch_camera s =
     (if \<not> ov_videoOn s \<or> \<not> ov_sender s \<or> ov_stream s = None then s
      else await (KFlipCam (other_facing (ov_facing s))) (fx (AskCamera (other_facing (ov_facing s))) s))"

text \<open>The mute button.\<close>

definition toggle_mute :: "overlay \<Rightarrow> overlay" where
  "toggle_mute s = await KMutePost (fx (Post (DoMedia (ov_videoOn s) (ov_muted s)))
     (s\<lparr>ov_devices := enable_tracks (ov_muted s)
            (of_kind Audio (ov_devices s) (stream_tracks s)) (ov_devices s),
        ov_muted := \<not> ov_muted s\<rparr>))"

section \<open>Resuming after an await\<close>

text \<open>How an awaited promise settles: with no value of interest, with a camera, with a created
  session description, or by rejection.\<close>

datatype outcome = Done | Camera camera_env | Sdp jstr | Failed

definition mark_remote :: "overlay \<Rightarrow> overlay" where
  "mark_remote s = s\<lparr>ov_peer := map_option (\<lambda>p. p\<lparr>pc_remote := True\<rparr>) (ov_peer s)\<rparr>"

text \<open>A new camera that arrives for \<open>toggleVideo\<close> or \<open>switchCamera\<close>: it is stopped when the call
  is over, otherwise handed to \<open>replaceTrack\<close>.\<close>

definition got_new_camera :: "(capture \<Rightarrow> cont) \<Rightarrow> (overlay \<Rightarrow> overlay) \<Rightarrow> outcome \<Rightarrow> overlay \<Rightarrow> overlay" where
  "got_new_camera k catch out s = (case out of
     Camera env \<Rightarrow> (case call_camera env (ov_devices s) of
         (None, d) \<Rightarrow> catch (s\<lparr>ov_devices := d\<rparr>)
       | (Some c, d) \<Rightarrow>
           if ov_dead s then s\<lparr>ov_devices := stop_capture c d\<rparr>
           else await (k c) (fx (ReplaceTrack (Some (cap_track c))) (s\<lparr>ov_devices := d\<rparr>)))
   | _ \<Rightarrow> catch s)"

fun resume_setup :: "cont \<Rightarrow> outcome \<Rightarrow> overlay \<Rightarrow> overlay" where
  "resume_setup (KMicrophone r) out s = (if out = Failed then setup_catch r s else got_microphone r s)"
| "resume_setup (KCamera r) out s = (case out of Camera env \<Rightarrow> got_camera r env s | _ \<Rightarrow> setup_catch r s)"
| "resume_setup (KAttach r) out s = (if out = Failed then setup_catch r s
     else setup_finish r (s\<lparr>ov_sender := True\<rparr>))"
| "resume_setup (KSetupEnd r) out s = setup_return r ((cleanup s)\<lparr>ov_phase := Ended\<rparr>)"
| "resume_setup KAcceptPost out s = (if out = Failed then end_with ''This call has ended.'' s else s)"
| "resume_setup _ out s = s"

fun resume_handler :: "cont \<Rightarrow> outcome \<Rightarrow> overlay \<Rightarrow> overlay" where
  "resume_handler KCreateOffer out s = (case out of
     Sdp o' \<Rightarrow> await (KOfferLocal o') (fx (SetLocal o') s) | _ \<Rightarrow> handler_fail s)"
| "resume_handler (KOfferLocal o') out s = (if out = Failed then handler_fail s
     else await KOfferPost (fx (Post (DoOffer o')) s))"
| "resume_handler KOfferPost out s = (if out = Failed then handler_fail s else handled s)"
| "resume_handler KRemoteOffer out s = (if out = Failed then handler_fail s
     else (case ov_stream s of None \<Rightarrow> handled (mark_remote s)
       | Some _ \<Rightarrow> await KAnswerAttach (fx (AttachMedia True) (mark_remote s))))"
| "resume_handler KAnswerAttach out s = (if out = Failed then handler_fail s
     else answer_ice (ov_pending s) (s\<lparr>ov_sender := True, ov_pending := []\<rparr>))"
| "resume_handler (KAnswerIce cs) out s = (if out = Failed then handler_fail s else answer_ice cs s)"
| "resume_handler KCreateAnswer out s = (case out of
     Sdp a \<Rightarrow> await (KAnswerLocal a) (fx (SetLocal a) s) | _ \<Rightarrow> handler_fail s)"
| "resume_handler (KAnswerLocal a) out s = (if out = Failed then handler_fail s
     else await KAnswerPost (fx (Post (DoAnswer a)) s))"
| "resume_handler KAnswerPost out s = (if out = Failed then handler_fail s else handled s)"
| "resume_handler KRemoteAnswer out s = (if out = Failed then handler_fail s
     else offerer_ice (ov_pending s) (mark_remote (s\<lparr>ov_pending := []\<rparr>)))"
| "resume_handler (KOffererIce cs) out s = (if out = Failed then handler_fail s else offerer_ice cs s)"
| "resume_handler KIce out s = (if out = Failed then handler_fail s else handled s)"
| "resume_handler _ out s = s"

fun resume_control :: "cont \<Rightarrow> outcome \<Rightarrow> overlay \<Rightarrow> overlay" where
  "resume_control KHeartbeat out s =
     (if out = Failed then end_with ''Call ended. Please call again.'' s else s)"
| "resume_control (KVideoOff m) out s = (if out = Failed then video_catch s
     else video_done True m (drop_video (stop_camera s)))"
| "resume_control (KVideoCam m) out s = got_new_camera (\<lambda>c. KVideoReplace c m) video_catch out s"
| "resume_control (KVideoReplace c m) out s = (if out = Failed
     then video_catch (s\<lparr>ov_devices := stop_capture c (ov_devices s)\<rparr>)
     else video_done False m (use_camera c s))"
| "resume_control KVideoPost out s = (if out = Failed then video_catch s else s)"
| "resume_control (KFlipCam f) out s = got_new_camera (\<lambda>c. KFlipReplace c f) flip_catch out s"
| "resume_control (KFlipReplace c f) out s = (if out = Failed
     then flip_catch (s\<lparr>ov_devices := stop_capture c (ov_devices s)\<rparr>)
     else (use_camera c (drop_video (stop_camera s)))\<lparr>ov_facing := f\<rparr>)"
| "resume_control KMutePost out s =
     (if out = Failed then s\<lparr>ov_status := lit ''Could not update microphone status.''\<rparr> else s)"
| "resume_control _ out s = s"

fun setup_cont :: "cont \<Rightarrow> bool" where
  "setup_cont (KMicrophone _) = True"
| "setup_cont (KCamera _) = True"
| "setup_cont (KAttach _) = True"
| "setup_cont (KSetupEnd _) = True"
| "setup_cont KAcceptPost = True"
| "setup_cont _ = False"

fun control_cont :: "cont \<Rightarrow> bool" where
  "control_cont KHeartbeat = True"
| "control_cont (KVideoOff _) = True"
| "control_cont (KVideoCam _) = True"
| "control_cont (KVideoReplace _ _) = True"
| "control_cont KVideoPost = True"
| "control_cont (KFlipCam _) = True"
| "control_cont (KFlipReplace _ _) = True"
| "control_cont KMutePost = True"
| "control_cont _ = False"

definition resume :: "cont \<Rightarrow> outcome \<Rightarrow> overlay \<Rightarrow> overlay" where
  "resume k out s = (if setup_cont k then resume_setup k out s
     else if control_cont k then resume_control k out s else resume_handler k out s)"

section \<open>Events\<close>

text \<open>Dragging the local preview, in pixels of the viewport, and the arrow keys. The source
  computes in floating point; the model computes in the rationals.\<close>

record box =
  bx_left :: rat
  bx_top :: rat
  bx_width :: rat
  bx_height :: rat

definition clamp :: "rat \<Rightarrow> rat \<Rightarrow> rat" where
  "clamp hi v = max 0 (min hi v)"

definition drag_position :: "box \<Rightarrow> box \<Rightarrow> rat \<Rightarrow> rat \<Rightarrow> rat \<times> rat" where
  "drag_position bounds dock x y =
     (clamp ((bx_width bounds - bx_width dock) / bx_width bounds)
        ((x - bx_left bounds - bx_width dock / 2) / bx_width bounds),
      clamp ((bx_height bounds - bx_height dock - 110) / bx_height bounds)
        ((y - bx_top bounds - bx_height dock / 2) / bx_height bounds))"

datatype arrow = ArrowLeft | ArrowRight | ArrowUp | ArrowDown

fun arrow_delta :: "arrow \<Rightarrow> rat \<times> rat" where
  "arrow_delta ArrowLeft = (- 5 / 100, 0)"
| "arrow_delta ArrowRight = (5 / 100, 0)"
| "arrow_delta ArrowUp = (0, - 5 / 100)"
| "arrow_delta ArrowDown = (0, 5 / 100)"

definition key_position :: "arrow \<Rightarrow> rat \<times> rat \<Rightarrow> rat \<times> rat" where
  "key_position k p = (clamp (65 / 100) (fst p + fst (arrow_delta k)),
     clamp (60 / 100) (snd p + snd (arrow_delta k)))"

datatype overlay_event =
    Settle nat outcome
  | Live "jstr option" call_signal | TransportClosed
  | RingTimeout | ConnectTimeout | HeartbeatTick
  | PeerState conn_state | LocalCandidate jstr
  | AcceptClick | EndClick | CancelDialog | MuteClick | VideoClick | FlipClick
  | Drag bool box box rat rat | ArrowKey arrow | PreviewResize nat nat
  | PageHide | Unmount

definition peer_connected :: "overlay \<Rightarrow> bool" where
  "peer_connected s = (case ov_peer s of None \<Rightarrow> False | Some p \<Rightarrow> pc_state p = PcConnected)"

text \<open>\<open>onconnectionstatechange\<close>; \<open>setup\<close> installs it in the same turn in which it leaves the
  ringing phase, and a closed connection fires no event.\<close>

definition peer_state :: "conn_state \<Rightarrow> overlay \<Rightarrow> overlay" where
  "peer_state st s = (case ov_peer s of None \<Rightarrow> s
     | Some p \<Rightarrow> (let s = s\<lparr>ov_peer := Some (p\<lparr>pc_state := st\<rparr>)\<rparr> in
         if ov_callPhase s = Ringing then s
         else if st = PcConnected then s\<lparr>ov_phase := Active, ov_status := lit ''Connected''\<rparr>
         else if st = PcFailed then finish DoEnd (s\<lparr>ov_status := lit ''The connection was lost.''\<rparr>)
         else s))"

definition in_call :: "overlay \<Rightarrow> bool" where
  "in_call s \<longleftrightarrow> ov_phase s \<noteq> Ringing \<and> ov_phase s \<noteq> Ended"

text \<open>Events of the mounted overlay: buttons are there only when the markup renders them.\<close>

fun mounted_step :: "overlay \<Rightarrow> overlay_event \<Rightarrow> overlay" where
  "mounted_step s (Live cid e) =
     (if cid = Some (cs_id (ov_call s)) then drain (ov_queue s @ [e]) s else s)"
| "mounted_step s TransportClosed =
     end_with ''Connection lost. Please call again when reconnected.'' s"
| "mounted_step s RingTimeout =
     (if ov_callPhase s = Ringing \<and> \<not> ov_dead s then finish DoEnd s else s)"
| "mounted_step s ConnectTimeout =
     (if \<not> peer_connected s \<and> ov_callPhase s \<noteq> Ringing \<and> \<not> ov_dead s
      then end_with ''The call could not connect. Please try again.'' (fx (Post DoEnd) s) else s)"
| "mounted_step s HeartbeatTick =
     (if ov_callPhase s \<noteq> Ringing \<and> \<not> ov_dead s
      then await KHeartbeat (fx (Post DoHeartbeat) s) else s)"
| "mounted_step s AcceptClick =
     (if ov_phase s = Ringing \<and> \<not> cs_outgoing (ov_call s) then setup_call ByAcceptClick s else s)"
| "mounted_step s EndClick =
     (if ov_phase s = Ended then fx CloseOverlay s
      else finish (if cs_outgoing (ov_call s) \<or> ov_phase s \<noteq> Ringing then DoEnd else DoDecline) s)"
| "mounted_step s CancelDialog = finish DoEnd s"
| "mounted_step s MuteClick = (if in_call s then toggle_mute s else s)"
| "mounted_step s VideoClick = (if in_call s then toggle_video s else s)"
| "mounted_step s FlipClick = (if in_call s \<and> ov_videoOn s then switch_camera s else s)"
| "mounted_step s (Drag captured bounds dock x y) =
     (if captured then s\<lparr>ov_position := drag_position bounds dock x y\<rparr> else s)"
| "mounted_step s (ArrowKey k) = s\<lparr>ov_position := key_position k (ov_position s)\<rparr>"
| "mounted_step s (PreviewResize w h) =
     (if w \<noteq> 0 \<and> h \<noteq> 0 then s\<lparr>ov_localRatio := of_nat w / of_nat h\<rparr> else s)"
| "mounted_step s PageHide = (if \<not> ov_dead s then finish DoEnd s else s)"
| "mounted_step s Unmount =
     cleanup (if \<not> ov_dead s then fx (Post DoEnd) (s\<lparr>ov_mounted := False\<rparr>) else s\<lparr>ov_mounted := False\<rparr>)"
| "mounted_step s _ = s"

text \<open>Promises and the peer connection outlive the mounted component.\<close>

fun overlay_step :: "overlay \<Rightarrow> overlay_event \<Rightarrow> overlay" where
  "overlay_step s (Settle i out) =
     (case take_task i (ov_tasks s) of None \<Rightarrow> s
      | Some (k, rest) \<Rightarrow> (let s' = resume k out (s\<lparr>ov_tasks := rest\<rparr>) in drain (ov_queue s') s'))"
| "overlay_step s (PeerState st) = peer_state st s"
| "overlay_step s (LocalCandidate c) =
     (if ov_peer s \<noteq> None \<and> ov_callPhase s \<noteq> Ringing then fx (Post (DoIce c)) s else s)"
| "overlay_step s e = (if ov_mounted s then mounted_step s e else s)"

end
