(* ===== verification/Comm_Runtime.thy ===== *)
theory Comm_Runtime
  imports Call_Overlay
begin

text \<open>
  \<open>components/communication/runtime.tsx\<close>: the communication runtime shared by all pages. It
  keeps the event socket connected, keeps settings, notices and the open call, and hands
  every live event to the components that subscribed.

  React shows a state change to the refs and to the closures of the children only after a
  commit, so the state has both the latest value (\<open>rt_call\<close>) and the committed one
  (\<open>rt_activeCall\<close>), and \<open>Commit\<close> is an event of its own.
\<close>

section \<open>Data\<close>

datatype theme = SystemTheme | LightTheme | DarkTheme

record settings =
  se_theme :: theme
  se_notifications :: bool
  se_typing :: bool
  se_readReceipts :: bool

definition default_settings :: settings where
  "default_settings = \<lparr>se_theme = SystemTheme, se_notifications = True, se_typing = True,
     se_readReceipts = True\<rparr>"

record notice =
  no_id :: nat
  no_connection :: jstr
  no_kind :: jstr
  no_name :: jstr
  no_read :: bool
  no_createdAt :: jstr

text \<open>\<open>payload\<close> is opaque to the runtime; of a \<open>call.media\<close> payload the overlay reads \<open>video\<close>.\<close>

datatype payload = NoPayload | Opaque jstr | MediaFlag bool

record live_event =
  ev_type :: jstr
  ev_connection :: "jstr option"
  ev_call :: "call_session option"
  ev_payload :: payload
  ev_message :: "(nat \<times> jstr) option"   \<comment> \<open>\<open>id\<close> and \<open>senderId\<close>\<close>
  ev_user :: "jstr option"
  ev_ice :: "jstr option"               \<comment> \<open>\<open>RTCConfiguration\<close>, opaque\<close>
  ev_settings :: "settings option"

definition plain_event :: "jstr \<Rightarrow> live_event" where
  "plain_event t = \<lparr>ev_type = t, ev_connection = None, ev_call = None, ev_payload = NoPayload,
     ev_message = None, ev_user = None, ev_ice = None, ev_settings = None\<rparr>"

definition has_type :: "live_event \<Rightarrow> string \<Rightarrow> bool" where
  "has_type ev t \<longleftrightarrow> ev_type ev = lit t"

text \<open>What the runtime asks of the browser and the server; \<open>Throws\<close> is the error a caller sees. The
  functions in \<open>listeners\<close> are named after the component that subscribed.\<close>

datatype listener = ToOverlay nat | ToPage nat

datatype rt_fx = OpenSocket | CloseSocket | FetchNotices | PutSettings settings
  | PostReceipt jstr nat | PostCall jstr bool | NativeNotice bool "jstr option"
  | Deliver listener live_event | Throws jstr

datatype rt_cont = KRefresh | KRefreshJson | KNotices | KNoticesJson
  | KSave | KSaveJson | KCall jstr | KCallJson jstr

text \<open>How a \<open>fetch\<close> or a \<open>json()\<close> settles.\<close>

datatype rt_outcome = Status nat | NoticesBody "notice list" | SettingsBody settings
  | CallBody call_session | RtFailed

record runtime =
  rt_auth :: bool
  rt_userId :: jstr
  rt_online :: bool
  rt_settings :: settings
  rt_notices :: "notice list"
  rt_call :: "call_session option"
  rt_ice :: jstr
  rt_listeners :: "listener list"        \<comment> \<open>a \<open>Set\<close> in insertion order\<close>
  rt_activeCall :: "call_session option"
  rt_settingsRef :: settings
  rt_shownOnline :: bool                 \<comment> \<open>\<open>online\<close> in the closures handed to the children\<close>
  rt_dark :: bool
  rt_dataTheme :: theme
  rt_identity :: jstr
  rt_disposed :: bool
  rt_socket :: bool                      \<comment> \<open>the current socket is connecting or open\<close>
  rt_retry :: "nat option"
  rt_delay :: nat
  rt_failures :: nat                     \<comment> \<open>history: closes since the last \<open>ready\<close>\<close>
  rt_tasks :: "rt_cont pool"
  rt_next :: nat
  rt_log :: "rt_fx list"

definition rt_do :: "rt_fx \<Rightarrow> runtime \<Rightarrow> runtime" where
  "rt_do f s = s\<lparr>rt_log := rt_log s @ [f]\<rparr>"

definition rt_await :: "rt_cont \<Rightarrow> runtime \<Rightarrow> runtime" where
  "rt_await k s = s\<lparr>rt_tasks := rt_tasks s @ [(rt_next s, k)], rt_next := Suc (rt_next s)\<rparr>"

section \<open>Theme\<close>

definition shown_theme :: "settings \<Rightarrow> bool \<Rightarrow> theme" where
  "shown_theme se dark = (if se_theme se = SystemTheme
     then (if dark then DarkTheme else LightTheme) else se_theme se)"

section \<open>Connection\<close>

definition connect :: "runtime \<Rightarrow> runtime" where
  "connect s = rt_do OpenSocket (s\<lparr>rt_socket := True\<rparr>)"

text \<open>\<open>refresh\<close> of the effect, and \<open>refreshNotices\<close> for the children.\<close>

definition refresh :: "runtime \<Rightarrow> runtime" where
  "refresh s = rt_await KRefresh (rt_do FetchNotices s)"

definition refresh_notices :: "runtime \<Rightarrow> runtime" where
  "refresh_notices s = rt_await KNotices (rt_do FetchNotices s)"

definition deliver :: "live_event \<Rightarrow> runtime \<Rightarrow> runtime" where
  "deliver ev s = s\<lparr>rt_log := rt_log s @ map (\<lambda>l. Deliver l ev) (rt_listeners s)\<rparr>"

definition runtime_init :: "bool \<Rightarrow> bool \<Rightarrow> runtime" where
  "runtime_init auth dark = (let s =
     \<lparr>rt_auth = auth, rt_userId = [], rt_online = False, rt_settings = default_settings, rt_notices = [],
      rt_call = None, rt_ice = [], rt_listeners = [], rt_activeCall = None,
      rt_settingsRef = default_settings, rt_shownOnline = False,
      rt_dark = dark, rt_dataTheme = shown_theme default_settings dark,
      rt_identity = [], rt_disposed = False, rt_socket = False, rt_retry = None, rt_delay = 1000,
      rt_failures = 0, rt_tasks = [], rt_next = 0, rt_log = []\<rparr>
     in if auth then connect s else s)"

section \<open>Live events\<close>

text \<open>\<open>ready\<close>: the server's greeting.\<close>

definition set_identity :: "live_event \<Rightarrow> runtime \<Rightarrow> runtime" where
  "set_identity ev s = (case ev_user ev of None \<Rightarrow> s | Some u \<Rightarrow> s\<lparr>rt_identity := u, rt_userId := u\<rparr>)"

definition take_config :: "live_event \<Rightarrow> runtime \<Rightarrow> runtime" where
  "take_config ev s =
     s\<lparr>rt_settings := (case ev_settings ev of None \<Rightarrow> rt_settings s | Some se \<Rightarrow> se),
       rt_ice := (case ev_ice ev of None \<Rightarrow> rt_ice s | Some c \<Rightarrow> c)\<rparr>"

definition on_ready :: "live_event \<Rightarrow> runtime \<Rightarrow> runtime" where
  "on_ready ev s = refresh (take_config ev (set_identity ev
     (s\<lparr>rt_online := True, rt_delay := 1000, rt_failures := 0\<rparr>)))"

text \<open>\<open>incoming\<close>: an invitation, or a message that somebody else sent.\<close>

definition incoming :: "live_event \<Rightarrow> runtime \<Rightarrow> bool" where
  "incoming ev s \<longleftrightarrow> has_type ev ''call.invited''
     \<or> (case ev_message ev of None \<Rightarrow> False | Some (_, sender) \<Rightarrow> sender \<noteq> rt_identity s)"

text \<open>JavaScript's \<open>connectionId || call?.id\<close>, and \<open>connectionId\<close> as a condition.\<close>

definition notice_tag :: "live_event \<Rightarrow> jstr option" where
  "notice_tag ev = (case ev_connection ev of Some c \<Rightarrow> if c \<noteq> [] then Some c else map_option cs_id (ev_call ev)
     | None \<Rightarrow> map_option cs_id (ev_call ev))"

text \<open>The browser's side of a native notification.\<close>

record page_env =
  pe_hidden :: bool      \<comment> \<open>\<open>document.visibilityState\<close>\<close>
  pe_supported :: bool   \<comment> \<open>\<open>"Notification" in window\<close>\<close>
  pe_granted :: bool
  pe_throws :: bool      \<comment> \<open>the constructor throws\<close>

definition receipt_step :: "live_event \<Rightarrow> runtime \<Rightarrow> runtime" where
  "receipt_step ev s = (case (ev_message ev, ev_connection ev) of
     (Some (i, _), Some c) \<Rightarrow> if has_type ev ''message.created'' \<and> incoming ev s \<and> c \<noteq> []
        then rt_do (PostReceipt c i) s else s
   | _ \<Rightarrow> s)"

definition native_step :: "page_env \<Rightarrow> live_event \<Rightarrow> runtime \<Rightarrow> runtime" where
  "native_step env ev s =
     (if incoming ev s \<and> pe_hidden env \<and> se_notifications (rt_settingsRef s)
         \<and> pe_supported env \<and> pe_granted env \<and> \<not> pe_throws env
      then rt_do (NativeNotice (has_type ev ''call.invited'') (notice_tag ev)) s else s)"

text \<open>The parts of \<open>onmessage\<close>, in order.\<close>

definition ready_step :: "live_event \<Rightarrow> runtime \<Rightarrow> runtime" where
  "ready_step ev s = (if has_type ev ''ready'' then on_ready ev s else s)"

definition settings_step :: "live_event \<Rightarrow> runtime \<Rightarrow> runtime" where
  "settings_step ev s = (case ev_settings ev of None \<Rightarrow> s
     | Some se \<Rightarrow> if has_type ev ''settings.changed'' then s\<lparr>rt_settings := se\<rparr> else s)"

definition invite_step :: "live_event \<Rightarrow> runtime \<Rightarrow> runtime" where
  "invite_step ev s = (case ev_call ev of None \<Rightarrow> s
     | Some c \<Rightarrow> if has_type ev ''call.invited'' \<and> rt_activeCall s = None
         then s\<lparr>rt_call := Some (c\<lparr>cs_outgoing := False\<rparr>)\<rparr> else s)"

definition activity_step :: "page_env \<Rightarrow> live_event \<Rightarrow> runtime \<Rightarrow> runtime" where
  "activity_step env ev s =
     (if has_type ev ''message.created'' \<or> has_type ev ''call.invited''
      then native_step env ev (receipt_step ev (refresh s)) else s)"

definition on_event :: "page_env \<Rightarrow> live_event \<Rightarrow> runtime \<Rightarrow> runtime" where
  "on_event env ev s = deliver ev
     (activity_step env ev (invite_step ev (settings_step ev (ready_step ev s))))"

definition on_close :: "runtime \<Rightarrow> runtime" where
  "on_close s = (if rt_disposed s then s\<lparr>rt_socket := False\<rparr>
     else let s = deliver (plain_event (lit ''transport.closed'')) (s\<lparr>rt_socket := False, rt_online := False\<rparr>)
       in s\<lparr>rt_retry := Some (rt_delay s), rt_delay := min (rt_delay s * 2) 15000,
            rt_failures := Suc (rt_failures s)\<rparr>)"

section \<open>Calls and settings\<close>

definition start_call :: "jstr \<Rightarrow> jstr \<Rightarrow> bool \<Rightarrow> runtime \<Rightarrow> runtime" where
  "start_call conn name video s =
     (if rt_activeCall s \<noteq> None then rt_do (Throws (lit ''You already have a call open.'')) s
      else if \<not> rt_shownOnline s
        then rt_do (Throws (lit ''Reconnecting. Please try again shortly.'')) s
      else rt_await (KCall name) (rt_do (PostCall conn video) s))"

definition save_settings :: "settings \<Rightarrow> runtime \<Rightarrow> runtime" where
  "save_settings se s = rt_await KSave (rt_do (PutSettings se) s)"

text \<open>Resuming after \<open>fetch\<close> and after \<open>response.json()\<close>.\<close>

definition status_ok :: "rt_outcome \<Rightarrow> bool" where
  "status_ok out = (case out of Status n \<Rightarrow> ok_status n | _ \<Rightarrow> False)"

definition network_error :: jstr where
  "network_error = lit ''Failed to fetch''"

fun rt_resume :: "rt_cont \<Rightarrow> rt_outcome \<Rightarrow> runtime \<Rightarrow> runtime" where
  "rt_resume KRefresh out s =
     (if status_ok out \<and> \<not> rt_disposed s then rt_await KRefreshJson s else s)"
| "rt_resume KRefreshJson out s = (case out of NoticesBody ns \<Rightarrow> s\<lparr>rt_notices := ns\<rparr> | _ \<Rightarrow> s)"
| "rt_resume KNotices out s = (if status_ok out then rt_await KNoticesJson s
     else if out = RtFailed then rt_do (Throws network_error) s else s)"
| "rt_resume KNoticesJson out s = (case out of NoticesBody ns \<Rightarrow> s\<lparr>rt_notices := ns\<rparr>
     | _ \<Rightarrow> rt_do (Throws network_error) s)"
| "rt_resume KSave out s = (if status_ok out then rt_await KSaveJson s
     else if out = RtFailed then rt_do (Throws network_error) s
     else rt_do (Throws (lit ''Could not save settings'')) s)"
| "rt_resume KSaveJson out s = (case out of SettingsBody se \<Rightarrow> s\<lparr>rt_settings := se\<rparr>
     | _ \<Rightarrow> rt_do (Throws network_error) s)"
| "rt_resume (KCall name) out s = (if status_ok out then rt_await (KCallJson name) s
     else if out = RtFailed then rt_do (Throws network_error) s
     else rt_do (Throws (lit ''Could not call. They may already be in a call.'')) s)"
| "rt_resume (KCallJson name) out s = (case out of
       CallBody c \<Rightarrow> s\<lparr>rt_call := Some (c\<lparr>cs_name := name, cs_outgoing := True\<rparr>)\<rparr>
     | _ \<Rightarrow> rt_do (Throws network_error) s)"

section \<open>Events\<close>

datatype rt_event =
    SocketMessage page_env "live_event option"   \<comment> \<open>\<open>None\<close>: not JSON\<close>
  | SocketClosed | RetryFires | PollTick | Dispose
  | RtSettle nat rt_outcome | Commit | SchemeChange bool
  | Subscribe listener | Unsubscribe listener
  | StartCall jstr jstr bool | CloseCall | SaveSettings settings | RefreshNotices

fun runtime_step :: "runtime \<Rightarrow> rt_event \<Rightarrow> runtime" where
  "runtime_step s (SocketMessage env ev) = (if \<not> rt_socket s then s
     else (case ev of None \<Rightarrow> s | Some ev \<Rightarrow> on_event env ev s))"
| "runtime_step s SocketClosed = (if rt_socket s then on_close s else s)"
| "runtime_step s RetryFires = (if rt_retry s = None then s else connect (s\<lparr>rt_retry := None\<rparr>))"
| "runtime_step s PollTick = (if rt_auth s \<and> \<not> rt_disposed s then refresh s else s)"
| "runtime_step s Dispose = (if \<not> rt_auth s \<or> rt_disposed s then s
     else (if rt_socket s then rt_do CloseSocket s else s)
       \<lparr>rt_disposed := True, rt_retry := None, rt_socket := False\<rparr>)"
| "runtime_step s (RtSettle i out) = (case take_task i (rt_tasks s) of None \<Rightarrow> s
     | Some (k, rest) \<Rightarrow> rt_resume k out (s\<lparr>rt_tasks := rest\<rparr>))"
| "runtime_step s Commit = s\<lparr>rt_activeCall := rt_call s, rt_shownOnline := rt_online s,
     rt_settingsRef := rt_settings s, rt_dataTheme := shown_theme (rt_settings s) (rt_dark s)\<rparr>"
| "runtime_step s (SchemeChange dark) = s\<lparr>rt_dark := dark,
     rt_dataTheme := shown_theme (rt_settingsRef s) dark\<rparr>"
| "runtime_step s (Subscribe l) =
     (if l \<in> set (rt_listeners s) then s else s\<lparr>rt_listeners := rt_listeners s @ [l]\<rparr>)"
| "runtime_step s (Unsubscribe l) = s\<lparr>rt_listeners := filter (\<lambda>x. x \<noteq> l) (rt_listeners s)\<rparr>"
| "runtime_step s (StartCall conn name video) = start_call conn name video s"
| "runtime_step s CloseCall = s\<lparr>rt_call := None\<rparr>"
| "runtime_step s (SaveSettings se) = save_settings se s"
| "runtime_step s RefreshNotices = refresh_notices s"


section \<open>The connection is kept up\<close>

definition conn_inv :: "runtime \<Rightarrow> bool" where
  "conn_inv s \<longleftrightarrow>
     (if rt_auth s \<and> \<not> rt_disposed s then rt_socket s = (rt_retry s = None)
      else \<not> rt_socket s \<and> rt_retry s = None)
   \<and> rt_delay s = min (1000 * 2 ^ rt_failures s) 15000
   \<and> (\<forall>d. rt_retry s = Some d \<longrightarrow> 0 < rt_failures s \<and> d = min (1000 * 2 ^ (rt_failures s - 1)) 15000)
   \<and> (rt_online s \<and> \<not> rt_disposed s \<longrightarrow> rt_socket s)"

lemma conn_frame [simp]:
  "conn_inv (s\<lparr>rt_userId := u\<rparr>) = conn_inv s"
  "conn_inv (s\<lparr>rt_settings := se\<rparr>) = conn_inv s"
  "conn_inv (s\<lparr>rt_notices := ns\<rparr>) = conn_inv s"
  "conn_inv (s\<lparr>rt_call := c\<rparr>) = conn_inv s"
  "conn_inv (s\<lparr>rt_ice := i\<rparr>) = conn_inv s"
  "conn_inv (s\<lparr>rt_listeners := ls\<rparr>) = conn_inv s"
  "conn_inv (s\<lparr>rt_activeCall := c\<rparr>) = conn_inv s"
  "conn_inv (s\<lparr>rt_settingsRef := se\<rparr>) = conn_inv s"
  "conn_inv (s\<lparr>rt_shownOnline := b\<rparr>) = conn_inv s"
  "conn_inv (s\<lparr>rt_dark := b\<rparr>) = conn_inv s"
  "conn_inv (s\<lparr>rt_dataTheme := t\<rparr>) = conn_inv s"
  "conn_inv (s\<lparr>rt_identity := u\<rparr>) = conn_inv s"
  "conn_inv (s\<lparr>rt_tasks := ts\<rparr>) = conn_inv s"
  "conn_inv (rt_do f s) = conn_inv s" "conn_inv (rt_await k s) = conn_inv s" "conn_inv (deliver ev s) = conn_inv s"
  by (simp_all add: conn_inv_def rt_do_def rt_await_def deliver_def)

lemma conn_resume: "conn_inv s \<Longrightarrow> conn_inv (rt_resume k out s)"
  by (cases k) (auto split: rt_outcome.split)

lemma conn_parts [simp]:
  "conn_inv (set_identity ev s) = conn_inv s" "conn_inv (take_config ev s) = conn_inv s"
  "conn_inv (refresh s) = conn_inv s" "conn_inv (receipt_step ev s) = conn_inv s"
  "conn_inv (native_step env ev s) = conn_inv s" "conn_inv (settings_step ev s) = conn_inv s"
  "conn_inv (invite_step ev s) = conn_inv s"
  by (simp_all add: set_identity_def take_config_def refresh_def receipt_step_def native_step_def
      settings_step_def invite_step_def split: option.split)

lemma conn_activity [simp]: "conn_inv (activity_step env ev s) = conn_inv s"
  by (simp add: activity_step_def)

lemma conn_on_event: "conn_inv s \<Longrightarrow> rt_socket s \<Longrightarrow> conn_inv (on_event env ev s)"
  by (simp add: on_event_def ready_step_def on_ready_def) (auto simp: conn_inv_def split: if_splits)

lemma backoff_step: "min (min (1000 * 2 ^ n) 15000 * 2) (15000 :: nat) = min (1000 * 2 ^ Suc n) 15000"
  by (simp add: min_def)

interpretation conn: machine runtime_step "\<lambda>_ _. True" conn_inv
proof unfold_locales
  fix s e assume inv: "conn_inv s"
  show "conn_inv (runtime_step s e)"
  proof (cases e)
    case SocketClosed
    have "conn_inv s \<Longrightarrow> rt_socket s \<Longrightarrow> conn_inv (on_close s)"
      by (auto simp: on_close_def Let_def deliver_def backoff_step conn_inv_def split: if_splits)
    with inv SocketClosed show ?thesis by simp
  next
    case RetryFires
    have "conn_inv s \<Longrightarrow> rt_retry s \<noteq> None \<Longrightarrow> conn_inv (connect (s\<lparr>rt_retry := None\<rparr>))"
      by (auto simp: connect_def) (auto simp: conn_inv_def split: if_splits)
    with inv RetryFires show ?thesis by simp
  next
    case Dispose
    with inv show ?thesis by (auto simp: conn_inv_def rt_do_def)
  next
    case (RtSettle i out)
    with inv show ?thesis by (auto simp: conn_resume split: option.split)
  next
    case (SocketMessage env ev)
    with inv show ?thesis by (auto simp: conn_on_event split: option.split)
  qed (use inv in \<open>auto simp: refresh_def start_call_def save_settings_def refresh_notices_def\<close>)
qed

lemma conn_init: "conn_inv (runtime_init auth dark)"
  by (auto simp: conn_inv_def runtime_init_def connect_def rt_do_def Let_def)

section \<open>The open call\<close>

text \<open>Only the closing of the overlay and the answer to the user's own call change which call is
  open once the page has committed one.\<close>

definition keeps_call :: "runtime \<Rightarrow> rt_event \<Rightarrow> bool" where
  "keeps_call s e \<longleftrightarrow> (case e of CloseCall \<Rightarrow> False
     | RtSettle i out \<Rightarrow> (case take_task i (rt_tasks s) of Some (KCallJson _, _) \<Rightarrow> False | _ \<Rightarrow> True)
     | _ \<Rightarrow> True)"

lemma rt_call_frame [simp]:
  "rt_call (rt_do f s) = rt_call s" "rt_call (rt_await k s) = rt_call s" "rt_call (deliver ev s) = rt_call s"
  "rt_activeCall (rt_do f s) = rt_activeCall s" "rt_activeCall (rt_await k s) = rt_activeCall s"
  "rt_activeCall (deliver ev s) = rt_activeCall s"
  by (simp_all add: rt_do_def rt_await_def deliver_def)

lemma rt_call_parts [simp]:
  "rt_call (set_identity ev s) = rt_call s" "rt_call (take_config ev s) = rt_call s"
  "rt_call (refresh s) = rt_call s" "rt_call (receipt_step ev s) = rt_call s"
  "rt_call (native_step env ev s) = rt_call s" "rt_call (settings_step ev s) = rt_call s"
  "rt_activeCall (set_identity ev s) = rt_activeCall s" "rt_activeCall (take_config ev s) = rt_activeCall s"
  "rt_activeCall (refresh s) = rt_activeCall s" "rt_activeCall (receipt_step ev s) = rt_activeCall s"
  "rt_activeCall (native_step env ev s) = rt_activeCall s" "rt_activeCall (settings_step ev s) = rt_activeCall s"
  "rt_activeCall (invite_step ev s) = rt_activeCall s"
  "rt_activeCall s \<noteq> None \<Longrightarrow> rt_call (invite_step ev s) = rt_call s"
  by (simp_all add: set_identity_def take_config_def refresh_def receipt_step_def native_step_def
      settings_step_def invite_step_def split: option.split) auto

lemma rt_call_steps [simp]:
  "rt_call (activity_step env ev s) = rt_call s" "rt_call (ready_step ev s) = rt_call s"
  "rt_activeCall (activity_step env ev s) = rt_activeCall s" "rt_activeCall (ready_step ev s) = rt_activeCall s"
  by (simp_all add: activity_step_def ready_step_def on_ready_def)

lemma on_event_call:
  "rt_activeCall s \<noteq> None \<Longrightarrow> rt_call (on_event env ev s) = rt_call s"
  "rt_activeCall (on_event env ev s) = rt_activeCall s"
  by (simp_all add: on_event_def)

lemma resume_call:
  "\<forall>n. k \<noteq> KCallJson n \<Longrightarrow> rt_call (rt_resume k out s) = rt_call s"
  "rt_activeCall (rt_resume k out s) = rt_activeCall s"
  by (cases k; auto split: rt_outcome.split)+

lemma call_step:
  assumes "rt_activeCall s = Some c" and "rt_call s = Some c" and "keeps_call s e"
  shows "rt_activeCall (runtime_step s e) = Some c \<and> rt_call (runtime_step s e) = Some c"
proof (cases e)
  case (RtSettle i out)
  show ?thesis
  proof (cases "take_task i (rt_tasks s)")
    case (Some kr)
    obtain k rest where kr: "kr = (k, rest)" by fastforce
    have "\<forall>n. k \<noteq> KCallJson n" using assms(3) RtSettle Some kr by (auto simp: keeps_call_def)
    then show ?thesis using assms RtSettle Some kr by (simp add: resume_call)
  qed (use assms RtSettle in simp)
next
  case (SocketMessage env ev)
  then show ?thesis using assms by (auto simp: on_event_call split: option.split)
qed (use assms in \<open>simp_all add: keeps_call_def connect_def refresh_def on_close_def Let_def
    start_call_def save_settings_def refresh_notices_def split: option.split\<close>)

section \<open>The theme\<close>

definition theme_inv :: "runtime \<Rightarrow> bool" where
  "theme_inv s \<longleftrightarrow> rt_dataTheme s = shown_theme (rt_settingsRef s) (rt_dark s)"

lemma theme_frame [simp]:
  "theme_inv (s\<lparr>rt_userId := u\<rparr>) = theme_inv s"
  "theme_inv (s\<lparr>rt_online := b\<rparr>) = theme_inv s"
  "theme_inv (s\<lparr>rt_settings := se\<rparr>) = theme_inv s"
  "theme_inv (s\<lparr>rt_notices := ns\<rparr>) = theme_inv s"
  "theme_inv (s\<lparr>rt_call := c\<rparr>) = theme_inv s"
  "theme_inv (s\<lparr>rt_ice := i\<rparr>) = theme_inv s"
  "theme_inv (s\<lparr>rt_listeners := ls\<rparr>) = theme_inv s"
  "theme_inv (s\<lparr>rt_identity := u\<rparr>) = theme_inv s"
  "theme_inv (s\<lparr>rt_disposed := b\<rparr>) = theme_inv s"
  "theme_inv (s\<lparr>rt_socket := b\<rparr>) = theme_inv s"
  "theme_inv (s\<lparr>rt_retry := rt\<rparr>) = theme_inv s"
  "theme_inv (s\<lparr>rt_delay := n\<rparr>) = theme_inv s"
  "theme_inv (s\<lparr>rt_failures := n\<rparr>) = theme_inv s"
  "theme_inv (s\<lparr>rt_tasks := ts\<rparr>) = theme_inv s"
  "theme_inv (rt_do f s) = theme_inv s" "theme_inv (rt_await k s) = theme_inv s" "theme_inv (deliver ev s) = theme_inv s"
  by (simp_all add: theme_inv_def rt_do_def rt_await_def deliver_def)

lemma theme_parts [simp]:
  "theme_inv (set_identity ev s) = theme_inv s" "theme_inv (take_config ev s) = theme_inv s"
  "theme_inv (refresh s) = theme_inv s" "theme_inv (receipt_step ev s) = theme_inv s"
  "theme_inv (native_step env ev s) = theme_inv s" "theme_inv (settings_step ev s) = theme_inv s"
  "theme_inv (invite_step ev s) = theme_inv s"
  by (simp_all add: set_identity_def take_config_def refresh_def receipt_step_def native_step_def
      settings_step_def invite_step_def split: option.split)

lemma theme_steps [simp]:
  "theme_inv (activity_step env ev s) = theme_inv s" "theme_inv (ready_step ev s) = theme_inv s"
  "theme_inv (on_event env ev s) = theme_inv s"
  by (simp_all add: activity_step_def ready_step_def on_ready_def on_event_def)

lemma theme_resume [simp]: "theme_inv (rt_resume k out s) = theme_inv s"
  by (cases k) (auto split: rt_outcome.split)

interpretation theme: machine runtime_step "\<lambda>_ _. True" theme_inv
proof unfold_locales
  fix s e assume inv: "theme_inv s"
  show "theme_inv (runtime_step s e)"
  proof (cases e)
    case Commit
    then show ?thesis by (simp add: theme_inv_def)
  next
    case (SchemeChange dark)
    then show ?thesis by (simp add: theme_inv_def)
  qed (use inv in \<open>auto simp: on_close_def connect_def start_call_def save_settings_def refresh_notices_def Let_def split: option.split\<close>)
qed

section \<open>Properties\<close>

lemma deliveries_of_log:
  "rt_log (deliver ev s) = rt_log s @ map (\<lambda>l. Deliver l ev) (rt_listeners s)"
  by (simp add: deliver_def)

fun delivered :: "rt_fx list \<Rightarrow> (listener \<times> live_event) list" where
  "delivered [] = []"
| "delivered (Deliver l ev # fs) = (l, ev) # delivered fs"
| "delivered (f # fs) = delivered fs"

lemma delivered_append [simp]: "delivered (fs @ gs) = delivered fs @ delivered gs"
  by (induction fs rule: delivered.induct) auto

lemma delivered_map [simp]: "delivered (map (\<lambda>l. Deliver l ev) ls) = map (\<lambda>l. (l, ev)) ls"
  by (induction ls) auto

lemma delivered_do [simp]: "\<forall>l ev. f \<noteq> Deliver l ev \<Longrightarrow> delivered (rt_log (rt_do f s)) = delivered (rt_log s)"
  by (cases f) (auto simp: rt_do_def)

lemma delivered_parts [simp]:
  "delivered (rt_log (set_identity ev s)) = delivered (rt_log s)"
  "delivered (rt_log (take_config ev s)) = delivered (rt_log s)"
  "delivered (rt_log (refresh s)) = delivered (rt_log s)"
  "delivered (rt_log (receipt_step ev s)) = delivered (rt_log s)"
  "delivered (rt_log (native_step env ev s)) = delivered (rt_log s)"
  "delivered (rt_log (settings_step ev s)) = delivered (rt_log s)"
  "delivered (rt_log (invite_step ev s)) = delivered (rt_log s)"
  "rt_listeners (set_identity ev s) = rt_listeners s" "rt_listeners (take_config ev s) = rt_listeners s"
  "rt_listeners (refresh s) = rt_listeners s" "rt_listeners (receipt_step ev s) = rt_listeners s"
  "rt_listeners (native_step env ev s) = rt_listeners s" "rt_listeners (settings_step ev s) = rt_listeners s"
  "rt_listeners (invite_step ev s) = rt_listeners s"
  by (simp_all add: set_identity_def take_config_def refresh_def receipt_step_def native_step_def
      settings_step_def invite_step_def rt_await_def rt_do_def split: option.split)

lemma delivered_on_event:
  "delivered (rt_log (on_event env ev s)) = delivered (rt_log s) @ map (\<lambda>l. (l, ev)) (rt_listeners s)"
  by (simp add: on_event_def deliveries_of_log activity_step_def ready_step_def on_ready_def)

text \<open>C36: The event socket is kept up: while the page is signed in and not disposed there is at every
  moment either a socket or one armed retry timer, never both; the n-th retry in a row waits
  exactly min(1000 * 2^(n-1), 15000) milliseconds, and \<open>ready\<close> resets the count. Disposing leaves
  neither.\<close>

theorem runtime_reconnects:
  assumes "reachable runtime_step (\<lambda>_ _. True) (runtime_init auth dark) s"
  shows "(if rt_auth s \<and> \<not> rt_disposed s then rt_socket s = (rt_retry s = None)
      else \<not> rt_socket s \<and> rt_retry s = None)
    \<and> (\<forall>d. rt_retry s = Some d \<longrightarrow> 0 < rt_failures s \<and> d = min (1000 * 2 ^ (rt_failures s - 1)) 15000)
    \<and> rt_delay s \<le> 15000"
proof -
  have inv: "conn_inv s" by (rule conn.inv_reachable [OF assms conn_init])
  then have "rt_delay s \<le> 15000" unfolding conn_inv_def by (metis min.cobounded2)
  with inv show ?thesis unfolding conn_inv_def by (elim conjE, intro conjI) assumption+
qed

definition sample_retries :: "rt_event list" where
  "sample_retries = [SocketClosed, RetryFires, SocketClosed, RetryFires, SocketClosed]"

theorem runtime_reconnects_witness:
  "rt_retry (run runtime_step (runtime_init True False) sample_retries) = Some 4000
   \<and> \<not> rt_socket (run runtime_step (runtime_init True False) sample_retries)"
proof -
  define t where "t = run runtime_step (runtime_init True False) sample_retries"
  have "rt_auth t \<and> \<not> rt_disposed t \<and> rt_failures t = 3 \<and> rt_retry t \<noteq> None"
    by (simp add: t_def sample_retries_def runtime_init_def connect_def rt_do_def on_close_def deliver_def Let_def)
  moreover have "reachable runtime_step (\<lambda>_ _. True) (runtime_init True False) t"
    unfolding t_def by (rule admissible_reachable [OF admissible_True])
  note runtime_reconnects [OF this]
  ultimately show ?thesis unfolding t_def [symmetric] by auto
qed

text \<open>Every event that arrives on the socket, and every loss of it, is handed to each subscriber once,
  in the order of subscription; what is not JSON reaches nobody and changes nothing.\<close>

theorem runtime_delivers_events:
  assumes "rt_socket s"
  shows "delivered (rt_log (runtime_step s (SocketMessage env (Some ev))))
      = delivered (rt_log s) @ map (\<lambda>l. (l, ev)) (rt_listeners s)
    \<and> runtime_step s (SocketMessage env None) = s
    \<and> delivered (rt_log (runtime_step s SocketClosed)) = delivered (rt_log s)
        @ (if rt_disposed s then [] else map (\<lambda>l. (l, plain_event (lit ''transport.closed''))) (rt_listeners s))"
  using assms by (simp add: delivered_on_event on_close_def deliveries_of_log Let_def)

theorem runtime_delivers_events_witness:
  "delivered (rt_log (run runtime_step (runtime_init True False) [Subscribe (ToPage 7), Subscribe (ToPage 3), Subscribe (ToPage 7), SocketClosed]))
   = [(ToPage 7, plain_event (lit ''transport.closed'')), (ToPage 3, plain_event (lit ''transport.closed''))]"
proof -
  let ?s = "run runtime_step (runtime_init True False) [Subscribe (ToPage 7), Subscribe (ToPage 3), Subscribe (ToPage 7)]"
  have s: "rt_socket ?s \<and> rt_log ?s = [OpenSocket] \<and> rt_listeners ?s = [ToPage 7, ToPage 3] \<and> \<not> rt_disposed ?s"
    by (simp add: runtime_init_def connect_def rt_do_def Let_def)
  then have "delivered (rt_log (runtime_step ?s SocketClosed))
      = [(ToPage 7, plain_event (lit ''transport.closed'')), (ToPage 3, plain_event (lit ''transport.closed''))]"
    using runtime_delivers_events [of ?s] by simp
  then show ?thesis by simp
qed

text \<open>A committed open call is never replaced or closed by a live event, a lost connection, a
  settings change, a timer or a new attempt to call; only the overlay's own close, or the answer
  to a call request that was already on its way, changes it.\<close>

theorem open_call_is_kept:
  assumes "rt_activeCall s = Some c" and "rt_call s = Some c"
    and "admissible runtime_step keeps_call s es"
  shows "rt_call (run runtime_step s es) = Some c \<and> rt_activeCall (run runtime_step s es) = Some c"
  using assms
proof (induction es arbitrary: s)
  case (Cons e es)
  then show ?case using call_step [of s c e] by simp
qed simp

definition sample_invite :: live_event where
  "sample_invite = (plain_event (lit ''call.invited''))\<lparr>ev_call := Some \<lparr>cs_id = lit ''c1'', cs_connection = lit ''n1'',
     cs_caller = lit ''ada'', cs_callee = lit ''bob'', cs_name = lit ''Ada'', cs_video = True, cs_outgoing = True\<rparr>\<rparr>"

definition sample_page :: page_env where
  "sample_page = \<lparr>pe_hidden = True, pe_supported = True, pe_granted = True, pe_throws = False\<rparr>"

definition second_invite :: live_event where
  "second_invite = sample_invite\<lparr>ev_call := map_option (\<lambda>c. c\<lparr>cs_id := lit ''c2''\<rparr>) (ev_call sample_invite)\<rparr>"

theorem open_call_is_kept_witness:
  "map_option cs_id (rt_call (run runtime_step (runtime_init True False)
     ([SocketMessage sample_page (Some sample_invite), Commit]
      @ [SocketMessage sample_page (Some second_invite), SocketClosed, RetryFires]))) = Some (lit ''c1'')"
proof -
  define t where "t = run runtime_step (runtime_init True False) [SocketMessage sample_page (Some sample_invite), Commit]"
  define es where "es = [SocketMessage sample_page (Some second_invite), SocketClosed, RetryFires]"
  have "rt_activeCall t = rt_call t \<and> map_option cs_id (rt_call t) = Some (lit ''c1'')" unfolding t_def by code_simp
  moreover have "admissible runtime_step keeps_call t es" by (simp add: keeps_call_def es_def)
  ultimately have "map_option cs_id (rt_call (run runtime_step t es)) = Some (lit ''c1'')"
    using open_call_is_kept [of t _ es] by auto
  then show ?thesis unfolding t_def es_def by (simp only: run_append)
qed

lemma types_distinct: "has_type ev ''message.created'' \<Longrightarrow> \<not> has_type ev ''call.invited''"
  by (simp add: has_type_def)

text \<open>A native notification appears only for an invitation or for somebody else's message, only
  while the page is hidden, notifications are switched on and permitted, and it carries no message
  text; a delivery receipt is posted only for somebody else's message, for exactly that message.\<close>

theorem notification_policy:
  "(NativeNotice call tag \<in> set (rt_log (activity_step env ev s)) \<longrightarrow> NativeNotice call tag \<notin> set (rt_log s) \<longrightarrow>
      pe_hidden env \<and> pe_granted env \<and> se_notifications (rt_settingsRef s) \<and> tag = notice_tag ev
      \<and> (call \<longleftrightarrow> has_type ev ''call.invited'')
      \<and> (\<not> call \<longrightarrow> (\<exists>i sender. ev_message ev = Some (i, sender) \<and> sender \<noteq> rt_identity s)))
   \<and> (PostReceipt c i \<in> set (rt_log (activity_step env ev s)) \<longrightarrow> PostReceipt c i \<notin> set (rt_log s) \<longrightarrow>
      has_type ev ''message.created'' \<and> ev_connection ev = Some c \<and> c \<noteq> []
      \<and> (\<exists>sender. ev_message ev = Some (i, sender) \<and> sender \<noteq> rt_identity s))"
  by (auto simp: activity_step_def native_step_def receipt_step_def refresh_def rt_await_def rt_do_def
      incoming_def types_distinct split: if_splits option.splits)

theorem notification_policy_witness:
  "NativeNotice True (Some (lit ''c1'')) \<in> set (rt_log (activity_step sample_page sample_invite (runtime_init True False)))
   \<and> notice_tag sample_invite = Some (lit ''c1'') \<and> se_notifications (rt_settingsRef (runtime_init True False))"
proof -
  have "NativeNotice True (Some (lit ''c1'')) \<in> set (rt_log (activity_step sample_page sample_invite (runtime_init True False)))"
    "NativeNotice True (Some (lit ''c1'')) \<notin> set (rt_log (runtime_init True False))"
    by code_simp+
  then show ?thesis
    using notification_policy [of True "Some (lit ''c1'')" sample_page sample_invite "runtime_init True False"] by simp
qed

end
