(* ===== verification/Call_Overlay_Safety.thy ===== *)
theory Call_Overlay_Safety
  imports Call_Overlay
begin

text \<open>
  Invariants of the call overlay. \<open>overlay_invariant\<close> is the contract an invariant has to
  meet for each operation of \<open>Call_Overlay\<close>; what it holds for the promise chain, for every
  event and for every reachable state follows once, inside the locale.
\<close>

section \<open>Lifting operations to events\<close>

lemmas overlay_ops = fx_def await_def finish_def end_with_def handled_def
  handler_fail_def setup_finish_def setup_catch_def setup_connect_def setup_call_def
  got_microphone_def got_camera_def handle_def drop_video_def stop_camera_def use_camera_def
  video_catch_def flip_catch_def toggle_video_def video_done_def switch_camera_def
  toggle_mute_def mark_remote_def got_new_camera_def resume_def peer_state_def stream_tracks_def

lemma cleanup_sel [simp]:
  "ov_dead (cleanup s)" "ov_peer (cleanup s) = None" "ov_camera (cleanup s) = None"
  "ov_devices (cleanup s) = stop_tracks (stream_tracks s) (release_camera (ov_camera s) (ov_devices s))"
  "ov_log (cleanup s) = ov_log s @ (if ov_peer s = None then [] else [ClosePeer])"
  "ov_call (cleanup s) = ov_call s" "ov_ice_ok (cleanup s) = ov_ice_ok s" "ov_phase (cleanup s) = ov_phase s"
  "ov_status (cleanup s) = ov_status s" "ov_videoOn (cleanup s) = ov_videoOn s" "ov_muted (cleanup s) = ov_muted s"
  "ov_remoteVideoOn (cleanup s) = ov_remoteVideoOn s" "ov_position (cleanup s) = ov_position s" "ov_facing (cleanup s) = ov_facing s"
  "ov_localRatio (cleanup s) = ov_localRatio s" "ov_stream (cleanup s) = ov_stream s" "ov_sender (cleanup s) = ov_sender s"
  "ov_pending (cleanup s) = ov_pending s" "ov_started (cleanup s) = ov_started s" "ov_callPhase (cleanup s) = ov_callPhase s"
  "ov_mounted (cleanup s) = ov_mounted s" "ov_tasks (cleanup s) = ov_tasks s" "ov_next (cleanup s) = ov_next s"
  "ov_queue (cleanup s) = ov_queue s" "ov_handling (cleanup s) = ov_handling s" "ov_received (cleanup s) = ov_received s"
  by (simp_all add: cleanup_def fx_def Let_def split: option.split)

locale overlay_invariant =
  fixes inv :: "overlay \<Rightarrow> bool"
    and ok :: "overlay \<Rightarrow> overlay_event \<Rightarrow> bool"
  assumes inv_queue: "inv s \<Longrightarrow> inv (s\<lparr>ov_queue := q\<rparr>)"
    and inv_handle: "inv s \<Longrightarrow> \<not> ov_handling s \<Longrightarrow> inv (handle g s)"
    and inv_resume: "inv s \<Longrightarrow> take_task i (ov_tasks s) = Some (k, rest) \<Longrightarrow>
      inv (resume k out (s\<lparr>ov_tasks := rest\<rparr>))"
    and inv_mounted: "inv s \<Longrightarrow> ok s e \<Longrightarrow> (\<forall>cid sig. e \<noteq> Live cid sig) \<Longrightarrow> inv (mounted_step s e)"
    and inv_peer: "inv s \<Longrightarrow> inv (peer_state st s)"
    and inv_candidate: "inv s \<Longrightarrow> inv (fx (Post (DoIce c)) s)"
begin

lemma inv_drain: "inv s \<Longrightarrow> inv (drain es s)"
  by (induction es arbitrary: s) (auto intro: inv_queue inv_handle)

lemma inv_overlay_step:
  assumes "inv s" and "ok s e"
  shows "inv (overlay_step s e)"
proof (cases e)
  case (Settle i out)
  with assms show ?thesis
    by (auto simp: Let_def intro!: inv_drain inv_resume split: option.splits)
next
  case (Live cid sig)
  with assms show ?thesis by (auto intro: inv_drain)
next
  case (PeerState st)
  with assms show ?thesis by (simp add: inv_peer)
next
  case (LocalCandidate c)
  with assms show ?thesis by (simp add: inv_candidate)
qed (use assms inv_mounted [OF assms] in auto)

sublocale machine overlay_step ok inv
  by unfold_locales (rule inv_overlay_step)

end


section \<open>Definitions unfolded by cases\<close>

lemma setup_return_case: "setup_return r s = (case r of
    ByAcceptClick \<Rightarrow> if ov_dead s then s else await KAcceptPost (fx (Post DoAccept) s)
  | ByAcceptEvent \<Rightarrow> (case ov_peer s of None \<Rightarrow> handled s | Some _ \<Rightarrow> await KCreateOffer s)
  | ByOffer d \<Rightarrow> (case ov_peer s of None \<Rightarrow> handled s
      | Some _ \<Rightarrow> await KRemoteOffer (fx (SetRemote d) s)))"
  by (cases r) auto

lemma answer_ice_case: "answer_ice cs s = (case cs of [] \<Rightarrow> await KCreateAnswer s
  | c # cs' \<Rightarrow> await (KAnswerIce cs') (fx (AddIce c) s))"
  by (cases cs) auto

lemma offerer_ice_case: "offerer_ice cs s = (case cs of [] \<Rightarrow> handled s
  | c # cs' \<Rightarrow> (case ov_peer s of None \<Rightarrow> handler_fail s
      | Some _ \<Rightarrow> await (KOffererIce cs') (fx (AddIce c) s)))"
  by (cases cs) auto

lemmas overlay_unfold = overlay_ops setup_return_case answer_ice_case offerer_ice_case Let_def
lemmas overlay_splits = option.split outcome.split setup_caller.split list.split prod.split call_signal.split

section \<open>A dead call has no connection, an ended one is dead\<close>

definition ended_inv :: "overlay \<Rightarrow> bool" where
  "ended_inv s \<longleftrightarrow> (ov_dead s \<longrightarrow> ov_peer s = None) \<and> (ov_phase s = Ended \<longrightarrow> ov_dead s)"

interpretation ended: overlay_invariant ended_inv "\<lambda>_ _. True"
proof unfold_locales
  fix s q assume "ended_inv s" then show "ended_inv (s\<lparr>ov_queue := q\<rparr>)" by (simp add: ended_inv_def)
next
  fix s e assume "ended_inv s" then show "ended_inv (handle e s)"
    by (auto simp: ended_inv_def overlay_unfold split: overlay_splits)
next
  fix s i k rest out assume "ended_inv s" 
  then show "ended_inv (resume k out (s\<lparr>ov_tasks := rest\<rparr>))"
    by (cases k) (auto simp: ended_inv_def overlay_unfold split: overlay_splits)
next
  fix s e assume "ended_inv s" "\<forall>cid sig. e \<noteq> Live cid sig" 
  then show "ended_inv (mounted_step s e)"
    by (cases e) (auto simp: ended_inv_def overlay_unfold split: overlay_splits)
next
  fix s st assume "ended_inv s" then show "ended_inv (peer_state st s)"
    by (auto simp: ended_inv_def overlay_unfold split: overlay_splits)
next
  fix s c assume "ended_inv s" then show "ended_inv (fx (Post (DoIce c)) s)"
    by (auto simp: ended_inv_def overlay_unfold split: overlay_splits)
qed
section \<open>Setup runs once\<close>

fun setup_flow :: "cont \<Rightarrow> bool" where
  "setup_flow (KMicrophone _) = True"
| "setup_flow (KCamera _) = True"
| "setup_flow (KAttach _) = True"
| "setup_flow (KSetupEnd _) = True"
| "setup_flow _ = False"

fun flow_ok :: "stream option \<Rightarrow> capture option \<Rightarrow> nat \<Rightarrow> cont \<Rightarrow> bool" where
  "flow_ok st cam peers (KMicrophone r) \<longleftrightarrow> st = None \<and> cam = None \<and> peers = 0"
| "flow_ok st cam peers (KCamera r) \<longleftrightarrow> st \<noteq> None \<and> cam = None \<and> peers = 0"
| "flow_ok st cam peers (KAttach r) \<longleftrightarrow> st \<noteq> None"
| "flow_ok st cam peers k \<longleftrightarrow> True"

fun camera_cont :: "cont \<Rightarrow> bool" where
  "camera_cont (KVideoOff _) = True"
| "camera_cont (KVideoCam _) = True"
| "camera_cont (KVideoReplace _ _) = True"
| "camera_cont (KFlipCam _) = True"
| "camera_cont (KFlipReplace _ _) = True"
| "camera_cont _ = False"

definition setup_inv :: "overlay \<Rightarrow> bool" where
  "setup_inv s \<longleftrightarrow>
     length (tasks_of setup_flow (ov_tasks s)) \<le> 1
   \<and> (\<not> ov_started s \<longrightarrow> tasks_of setup_flow (ov_tasks s) = [] \<and> ov_stream s = None \<and> ov_camera s = None
        \<and> ov_callPhase s = Ringing \<and> count_list (ov_log s) NewPeer = 0)
   \<and> (\<forall>k \<in> set (tasks_of setup_flow (ov_tasks s)). flow_ok (ov_stream s) (ov_camera s) (count_list (ov_log s) NewPeer) k)
   \<and> count_list (ov_log s) AskMicrophone = (if ov_started s then 1 else 0)
   \<and> count_list (ov_log s) NewPeer \<le> 1
   \<and> (ov_callPhase s = Ringing \<or> ov_callPhase s = Connecting \<and> tasks_of setup_flow (ov_tasks s) = [] \<and> ov_stream s \<noteq> None)
   \<and> (ov_phase s \<noteq> Ringing \<longrightarrow> ov_phase s \<noteq> Ended \<longrightarrow> ov_callPhase s = Connecting)
   \<and> (\<forall>k \<in> conts (ov_tasks s). camera_cont k \<longrightarrow> ov_callPhase s = Connecting)"

lemma flow_ok_weaken: "flow_ok st cam n k \<Longrightarrow> flow_ok st None n k"
  by (cases k) auto


lemma setup_inv_frame [simp]:
  "setup_inv (s\<lparr>ov_status := m\<rparr>) = setup_inv s"
  "setup_inv (s\<lparr>ov_videoOn := b\<rparr>) = setup_inv s"
  "setup_inv (s\<lparr>ov_muted := b\<rparr>) = setup_inv s"
  "setup_inv (s\<lparr>ov_remoteVideoOn := b\<rparr>) = setup_inv s"
  "setup_inv (s\<lparr>ov_position := pos\<rparr>) = setup_inv s"
  "setup_inv (s\<lparr>ov_facing := fc\<rparr>) = setup_inv s"
  "setup_inv (s\<lparr>ov_localRatio := r\<rparr>) = setup_inv s"
  "setup_inv (s\<lparr>ov_peer := p\<rparr>) = setup_inv s"
  "setup_inv (s\<lparr>ov_sender := b\<rparr>) = setup_inv s"
  "setup_inv (s\<lparr>ov_pending := cs\<rparr>) = setup_inv s"
  "setup_inv (s\<lparr>ov_dead := b\<rparr>) = setup_inv s"
  "setup_inv (s\<lparr>ov_mounted := b\<rparr>) = setup_inv s"
  "setup_inv (s\<lparr>ov_devices := d\<rparr>) = setup_inv s"
  "setup_inv (s\<lparr>ov_queue := q\<rparr>) = setup_inv s"
  "setup_inv (s\<lparr>ov_handling := b\<rparr>) = setup_inv s"
  "setup_inv (s\<lparr>ov_received := cs\<rparr>) = setup_inv s"
  "f \<noteq> NewPeer \<Longrightarrow> f \<noteq> AskMicrophone \<Longrightarrow> setup_inv (fx f s) = setup_inv s"
  "\<not> setup_flow k \<Longrightarrow> \<not> camera_cont k \<Longrightarrow> setup_inv (await k s) = setup_inv s"
  by (auto simp: setup_inv_def fx_def await_def)

lemma setup_inv_cleanup: "setup_inv s \<Longrightarrow> setup_inv (cleanup s)"
  by (auto simp: setup_inv_def flow_ok_weaken)

lemma setup_inv_end: "setup_inv s \<Longrightarrow> setup_inv (s\<lparr>ov_phase := Ended\<rparr>)"
  by (auto simp: setup_inv_def)

lemmas setup_inv_intros = setup_inv_cleanup setup_inv_end

lemmas overlay_control_defs = drop_video_def stop_camera_def use_camera_def
  video_catch_def flip_catch_def toggle_video_def video_done_def switch_camera_def
  toggle_mute_def got_new_camera_def mark_remote_def peer_state_def
lemmas overlay_end_defs = finish_def end_with_def handled_def handler_fail_def

lemma setup_once_return: "setup_inv s \<Longrightarrow> setup_inv (setup_return r s)"
  by (cases r) (simp_all add: handled_def split: option.split)

lemma setup_once_catch:
  "setup_inv s \<Longrightarrow> tasks_of setup_flow (ov_tasks s) = [] \<Longrightarrow> ov_started s \<Longrightarrow> ov_callPhase s = Ringing \<Longrightarrow>
    setup_inv (setup_catch r s)"
  by (auto simp: setup_inv_def setup_catch_def await_def fx_def)

lemma setup_once_finish:
  "setup_inv s \<Longrightarrow> tasks_of setup_flow (ov_tasks s) = [] \<Longrightarrow> ov_started s \<Longrightarrow> ov_stream s \<noteq> None \<Longrightarrow>
    setup_inv (setup_finish r s)"
  unfolding setup_finish_def by (rule setup_once_return) (auto simp: setup_inv_def)

lemma setup_once_connect:
  assumes "setup_inv s" and "tasks_of setup_flow (ov_tasks s) = []" and "ov_started s" and "ov_stream s \<noteq> None"
    and "count_list (ov_log s) NewPeer = 0" and "ov_callPhase s = Ringing"
  shows "setup_inv (setup_connect r s)"
proof -
  have "setup_inv (fx NewPeer (s\<lparr>ov_peer := p\<rparr>))" for p
    using assms by (auto simp: setup_inv_def fx_def)
  then show ?thesis
    using assms by (auto simp: setup_connect_def Let_def setup_once_catch setup_once_finish fx_def)
      (auto simp: setup_inv_def await_def)
qed

lemma setup_once_microphone:
  assumes "setup_inv s" and "tasks_of setup_flow (ov_tasks s) = []" and "ov_started s"
    and "ov_stream s = None" "ov_camera s = None"
    and "count_list (ov_log s) NewPeer = 0" and "ov_callPhase s = Ringing"
  shows "setup_inv (got_microphone r s)"
proof -
  have "setup_inv (s\<lparr>ov_devices := d, ov_stream := Some m\<rparr>)" for d m
    using assms by (auto simp: setup_inv_def)
  then show ?thesis
    using assms by (auto simp: got_microphone_def Let_def setup_once_return setup_once_connect split: prod.split)
      (auto simp: setup_inv_def await_def fx_def)
qed

lemma setup_once_camera:
  assumes "setup_inv s" and "tasks_of setup_flow (ov_tasks s) = []" and "ov_started s"
    and "ov_stream s \<noteq> None"
    and "count_list (ov_log s) NewPeer = 0" and "ov_callPhase s = Ringing"
  shows "setup_inv (got_camera r env s)"
proof -
  have "setup_inv (s\<lparr>ov_devices := d, ov_camera := Some c, ov_stream := Some m\<rparr>)" for d c m
    using assms by (auto simp: setup_inv_def)
  then show ?thesis
    using assms by (auto simp: got_camera_def setup_once_return setup_once_connect setup_once_catch
        split: prod.split option.split)
qed

lemma setup_once_call: "setup_inv s \<Longrightarrow> setup_inv (setup_call r s)"
  by (auto simp: setup_call_def setup_once_return) (auto simp: setup_inv_def await_def fx_def)

lemma setup_once_stop: "setup_inv s \<Longrightarrow> setup_inv (stop_camera s)"
  by (auto simp: setup_inv_def stop_camera_def flow_ok_weaken)

lemma setup_once_handle: "setup_inv s \<Longrightarrow> setup_inv (handle g s)"
  by (cases g) (auto simp: handle_def overlay_end_defs Let_def setup_once_call setup_inv_intros split: option.split)

lemma setup_once_ice: "setup_inv s \<Longrightarrow> setup_inv (answer_ice cs s)" "setup_inv s \<Longrightarrow> setup_inv (offerer_ice cs s)"
  by (cases cs; auto simp: overlay_end_defs setup_inv_intros split: option.split)+

lemma setup_once_handler: "setup_inv s \<Longrightarrow> setup_inv (resume_handler k out s)"
  by (cases k) (auto simp: overlay_end_defs mark_remote_def setup_inv_intros setup_once_ice
      split: outcome.split option.split)

lemma setup_once_media: "setup_inv s \<Longrightarrow> ov_callPhase s = Connecting \<Longrightarrow> setup_inv (s\<lparr>ov_camera := c\<rparr>)"
 "setup_inv s \<Longrightarrow> ov_callPhase s = Connecting \<Longrightarrow> setup_inv (s\<lparr>ov_stream := Some m\<rparr>)"
  by (auto simp: setup_inv_def)

lemma setup_once_camera_cont:
  "setup_inv s \<Longrightarrow> ov_callPhase s = Connecting \<Longrightarrow> \<not> setup_flow k \<Longrightarrow> setup_inv (await k s)"
  by (auto simp: setup_inv_def await_def)

lemma setup_once_new_camera:
  assumes "setup_inv s" and "ov_callPhase s = Connecting" and "\<And>c. \<not> setup_flow (k c)"
    and "\<And>s. setup_inv s \<Longrightarrow> setup_inv (catch s)"
  shows "setup_inv (got_new_camera k catch out s)"
  using assms by (auto simp: got_new_camera_def fx_def intro!: setup_once_camera_cont
      split: outcome.split prod.split option.split) (auto simp: setup_inv_def)

lemma setup_once_control:
  "setup_inv s \<Longrightarrow> camera_cont k \<longrightarrow> ov_callPhase s = Connecting \<Longrightarrow> setup_inv (resume_control k out s)"
  by (cases k) (auto simp: overlay_end_defs video_catch_def flip_catch_def video_done_def drop_video_def
      stop_camera_def use_camera_def Let_def setup_inv_intros
      intro!: setup_once_new_camera setup_once_media)

lemma setup_once_setup:
  assumes "setup_inv s" and "tasks_of setup_flow (ov_tasks s) = []" and "ov_started s" and "ov_callPhase s = Ringing"
    and "flow_ok (ov_stream s) (ov_camera s) (count_list (ov_log s) NewPeer) k" "setup_flow k"
  shows "setup_inv (resume_setup k out s)"
  using assms by (cases k) (auto split: outcome.split
     intro!: setup_once_microphone setup_once_camera setup_once_catch setup_once_finish setup_once_return
       setup_inv_intros)

lemma setup_once_resume:
  assumes inv: "setup_inv s" and taken: "take_task i (ov_tasks s) = Some (k, rest)"
  shows "setup_inv (resume k out (s\<lparr>ov_tasks := rest\<rparr>))"
proof -
  have len: "length (tasks_of setup_flow (ov_tasks s)) \<le> 1" using inv by (simp add: setup_inv_def)
  note f = take_task_single [OF taken len]
  have inv': "setup_inv (s\<lparr>ov_tasks := rest\<rparr>)"
    using inv f take_task_sub [OF taken] by (cases "setup_flow k") (auto simp: setup_inv_def)
  show ?thesis
  proof (cases "setup_flow k")
    case True
    with f have "tasks_of setup_flow rest = []" "tasks_of setup_flow (ov_tasks s) = [k]" by auto
    with inv inv' True have "setup_inv (resume_setup k out (s\<lparr>ov_tasks := rest\<rparr>))"
      by (intro setup_once_setup) (auto simp: setup_inv_def)
    moreover have "setup_cont k" using True by (cases k) auto
    ultimately show ?thesis by (simp add: resume_def)
  next
    case False
    have "camera_cont k \<longrightarrow> ov_callPhase s = Connecting"
      using inv take_task_cont [OF taken] by (auto simp: setup_inv_def)
    with False inv' show ?thesis
      by (auto simp: resume_def setup_once_control setup_once_handler end_with_def setup_inv_intros elim!: setup_cont.elims)
  qed
qed

lemma setup_once_mounted: "setup_inv s \<Longrightarrow> (\<forall>cid sig. e \<noteq> Live cid sig) \<Longrightarrow> setup_inv (mounted_step s e)"
  by (cases e) (auto simp: overlay_end_defs toggle_mute_def toggle_video_def switch_camera_def in_call_def
     intro!: setup_inv_intros setup_once_call setup_once_camera_cont, auto simp: setup_inv_def fx_def)

interpretation setup_once: overlay_invariant setup_inv "\<lambda>_ _. True"
proof unfold_locales
  show "setup_inv s \<Longrightarrow> setup_inv (peer_state st s)" for s st
    by (auto simp: peer_state_def overlay_end_defs Let_def intro!: setup_inv_intros split: option.split)
      (auto simp: setup_inv_def)
qed (auto simp: setup_once_handle setup_once_resume setup_once_mounted)
section \<open>Releasing the devices\<close>

text \<open>
  Runs in which the user leaves the camera buttons alone. Then the tracks that are on are
  those of the stream and the camera while the call lives, and none once it is dead.
\<close>

definition no_camera_click :: "overlay \<Rightarrow> overlay_event \<Rightarrow> bool" where
  "no_camera_click s e \<longleftrightarrow> e \<noteq> VideoClick \<and> e \<noteq> FlipClick"

definition released :: "overlay \<Rightarrow> bool" where
  "released s \<longleftrightarrow> (\<forall>k \<in> conts (ov_tasks s). \<not> camera_cont k)
   \<and> (if ov_dead s then live_set (ov_devices s) = {}
      else live_set (ov_devices s) \<subseteq> set (stream_tracks s) \<union> camera_tracks (ov_camera s))"

lemma released_frame [simp]:
  "released (s\<lparr>ov_phase := ph\<rparr>) = released s"
  "released (s\<lparr>ov_status := m\<rparr>) = released s"
  "released (s\<lparr>ov_muted := b\<rparr>) = released s"
  "released (s\<lparr>ov_remoteVideoOn := b\<rparr>) = released s"
  "released (s\<lparr>ov_position := pos\<rparr>) = released s"
  "released (s\<lparr>ov_localRatio := r\<rparr>) = released s"
  "released (s\<lparr>ov_peer := p\<rparr>) = released s"
  "released (s\<lparr>ov_sender := b\<rparr>) = released s"
  "released (s\<lparr>ov_pending := cs\<rparr>) = released s"
  "released (s\<lparr>ov_started := b\<rparr>) = released s"
  "released (s\<lparr>ov_callPhase := ph\<rparr>) = released s"
  "released (s\<lparr>ov_mounted := b\<rparr>) = released s"
  "released (s\<lparr>ov_queue := q\<rparr>) = released s"
  "released (s\<lparr>ov_handling := b\<rparr>) = released s"
  "released (s\<lparr>ov_received := cs\<rparr>) = released s"
  "released (fx f s) = released s"
  "\<not> camera_cont k \<Longrightarrow> released (await k s) = released s"
  by (auto simp: released_def fx_def await_def stream_tracks_def)

lemma live_release_camera [simp]: "live_set (release_camera c d) = live_set d - camera_tracks c"
  by (rule camera.release_live)

lemma released_cleanup: "released s \<Longrightarrow> released (cleanup s)"
  by (auto simp: released_def split: if_splits)

lemma released_return: "released s \<Longrightarrow> released (setup_return r s)"
  by (cases r) (simp_all add: handled_def split: option.split)

lemma released_connect: "released s \<Longrightarrow> released (setup_connect r s)"
  by (simp add: setup_connect_def setup_catch_def setup_finish_def Let_def released_return)

lemma released_call: "released s \<Longrightarrow> released (setup_call r s)"
  by (simp add: setup_call_def released_return)

lemma released_microphone:
  assumes "released s" and "ov_stream s = None"
  shows "released (got_microphone r s)"
proof -
  obtain m d where got: "open_microphone (ov_devices s) = (m, d)" by fastforce
  have "released (s\<lparr>ov_devices := stop_tracks m d\<rparr>)" if "ov_dead s"
    using assms that microphone.release_acquire [OF got] by (auto simp: released_def)
  moreover have "released (s\<lparr>ov_devices := d, ov_stream := Some m\<rparr>)" if "\<not> ov_dead s"
    using assms that microphone.acquire_live [OF got] by (auto simp: released_def stream_tracks_def)
  ultimately show ?thesis
    by (auto simp: got_microphone_def got Let_def intro: released_return released_connect)
qed

lemma released_camera:
  assumes "released s" and "ov_camera s = None"
  shows "released (got_camera r env s)"
proof -
  obtain c d where got: "call_camera env (ov_devices s) = (c, d)" by fastforce
  show ?thesis
  proof (cases c)
    case None
    have "released (s\<lparr>ov_devices := d\<rparr>)"
      using assms camera.acquire_live [OF got] None by (auto simp: released_def stream_tracks_def)
    then show ?thesis by (simp add: got_camera_def got None setup_catch_def)
  next
    case (Some p)
    have "released (s\<lparr>ov_devices := stop_capture p d\<rparr>)" if "ov_dead s"
      using assms that camera.release_acquire [OF got] Some by (auto simp: released_def)
    moreover have "released (s\<lparr>ov_devices := d, ov_camera := Some p,
        ov_stream := Some (add_track (cap_track p) (stream_tracks s))\<rparr>)" if "\<not> ov_dead s"
      using assms that camera.acquire_live [OF got] Some by (auto simp: released_def stream_tracks_def)
    ultimately show ?thesis
      by (auto simp: got_camera_def got Some intro: released_return released_connect)
  qed
qed

lemma released_handle: "released s \<Longrightarrow> released (handle g s)"
  by (cases g) (auto simp: handle_def overlay_end_defs Let_def released_call released_cleanup split: option.split)

lemma released_ice: "released s \<Longrightarrow> released (answer_ice cs s)" "released s \<Longrightarrow> released (offerer_ice cs s)"
  by (cases cs; auto simp: overlay_end_defs released_cleanup split: option.split)+

lemma released_handler: "released s \<Longrightarrow> released (resume_handler k out s)"
  by (cases k) (auto simp: overlay_end_defs mark_remote_def released_cleanup released_ice
      split: outcome.split option.split)

lemma released_control: "released s \<Longrightarrow> \<not> camera_cont k \<Longrightarrow> released (resume_control k out s)"
  by (cases k) (auto simp: overlay_end_defs video_catch_def released_cleanup)

lemma released_resume:
  assumes "setup_inv s" and "released s" and taken: "take_task i (ov_tasks s) = Some (k, rest)"
  shows "released (resume k out (s\<lparr>ov_tasks := rest\<rparr>))"
proof -
  have len: "length (tasks_of setup_flow (ov_tasks s)) \<le> 1" using assms by (simp add: setup_inv_def)
  have flow: "setup_flow k \<Longrightarrow> flow_ok (ov_stream s) (ov_camera s) (count_list (ov_log s) NewPeer) k"
    using take_task_single(1) [OF taken len] assms(1) by (auto simp: setup_inv_def)
  have rel: "released (s\<lparr>ov_tasks := rest\<rparr>)" and "\<not> camera_cont k"
    using assms(2) take_task_SomeD [OF taken] by (auto simp: released_def stream_tracks_def)
  show ?thesis
  proof (cases "setup_cont k")
    case True
    with rel flow show ?thesis
      by (cases k) (auto simp: resume_def setup_catch_def setup_finish_def end_with_def
         split: outcome.split intro!: released_microphone released_camera released_return released_cleanup)
  next
    case False
    with rel \<open>\<not> camera_cont k\<close> show ?thesis
      by (simp add: resume_def released_handler released_control)
  qed
qed

lemma live_set_mute [simp]: "released (s\<lparr>ov_devices := enable_tracks b is (ov_devices s)\<rparr>) = released s"
  by (auto simp: released_def stream_tracks_def)

lemma released_mounted:
  "released s \<Longrightarrow> no_camera_click s e \<Longrightarrow> (\<forall>cid sig. e \<noteq> Live cid sig) \<Longrightarrow> released (mounted_step s e)"
  by (cases e) (auto simp: no_camera_click_def overlay_end_defs toggle_mute_def
     intro!: released_cleanup released_call)

interpretation released: overlay_invariant "\<lambda>s. setup_inv s \<and> released s" no_camera_click
proof unfold_locales
  show "setup_inv s \<and> released s \<Longrightarrow> setup_inv (peer_state st s) \<and> released (peer_state st s)" for s st
    by (auto intro: setup_once.inv_peer)
      (auto simp: peer_state_def overlay_end_defs Let_def intro!: released_cleanup split: option.split)
qed (auto simp: setup_once_handle setup_once_resume setup_once_mounted released_handle released_resume released_mounted)

section \<open>Mute\<close>

text \<open>\<open>same_tracks d d'\<close>: \<open>d'\<close> extends \<open>d\<close> without touching the kind or the enabled flag of its
  tracks (it may have stopped some).\<close>

definition same_tracks :: "devices \<Rightarrow> devices \<Rightarrow> bool" where
  "same_tracks d d' \<longleftrightarrow> length d \<le> length d' \<and>
     (\<forall>i < length d. tk_kind (d' ! i) = tk_kind (d ! i) \<and> tk_enabled (d' ! i) = tk_enabled (d ! i))"

lemma same_tracks_refl [simp]: "same_tracks d d"
  by (simp add: same_tracks_def)

lemma same_tracks_trans: "same_tracks d e \<Longrightarrow> same_tracks e f \<Longrightarrow> same_tracks d f"
  by (auto simp: same_tracks_def)

lemma same_tracks_open: "same_tracks d (snd (open_track k d))"
  by (auto simp: same_tracks_def open_track_def nth_append)

lemma same_tracks_stop_track: "same_tracks d (stop_track i d)"
  by (auto simp: same_tracks_def stop_track_def nth_list_update)

lemma same_tracks_stop: "same_tracks d (stop_tracks is d)"
proof (induction "is" arbitrary: d)
  case (Cons i js)
  have "stop_tracks (i # js) d = stop_tracks js (stop_track i d)" by (simp add: stop_tracks_def)
  then show ?case using same_tracks_trans [OF same_tracks_stop_track Cons] by simp
qed (simp add: stop_tracks_def)

lemma same_tracks_release: "same_tracks d (release_camera c d)"
  by (cases c) (simp_all add: stop_capture_def same_tracks_stop)

lemma compat_camera_tracks:
  "compat_camera env input d = (c, d') \<Longrightarrow> same_tracks d d'
    \<and> (\<forall>p. c = Some p \<longrightarrow> cap_track p < length d' \<and> tk_kind (d' ! cap_track p) = Video)"
  by (auto simp: compat_camera_def Let_def open_track_def same_tracks_def stop_track_def nth_append
      nth_list_update split: if_splits)

lemma process_camera_tracks:
  assumes "process_camera env input d = (c, d')"
  shows "same_tracks d d'
    \<and> (\<forall>p. c = Some p \<longrightarrow> cap_track p < length d' \<and> tk_kind (d' ! cap_track p) = Video)"
proof -
  let ?d1 = "stop_track (length d) (snd (open_track Video d))"
  have ext: "same_tracks d ?d1"
    by (rule same_tracks_trans [OF same_tracks_open same_tracks_stop_track])
  consider (compat) "compat_camera env input d = (c, d')"
    | (native) "c = Some \<lparr>cap_track = length d, cap_raw = input\<rparr>" "d' = snd (open_track Video d)"
    | (fallback) "compat_camera env input ?d1 = (c, d')"
    using assms by (cases "ce_native env") (auto simp: process_camera_def split_beta Let_def)
  then show ?thesis
  proof cases
    case native
    then show ?thesis by (auto simp: open_track_def same_tracks_def nth_append)
  next
    case fallback
    then show ?thesis using compat_camera_tracks [OF fallback] same_tracks_trans [OF ext] by blast
  qed (rule compat_camera_tracks)
qed

lemma call_camera_tracks:
  assumes "call_camera env d = (c, d')"
  shows "same_tracks d d'
    \<and> (\<forall>p. c = Some p \<longrightarrow> cap_track p < length d' \<and> tk_kind (d' ! cap_track p) = Video)"
  using assms process_camera_tracks [of env "length d" "snd (open_track Video d)" c d']
    same_tracks_trans [OF same_tracks_open]
  by (auto simp: call_camera_def split_beta Let_def)

fun new_track_ok :: "devices \<Rightarrow> cont \<Rightarrow> bool" where
  "new_track_ok d (KVideoReplace c _) \<longleftrightarrow> cap_track c < length d \<and> tk_kind (d ! cap_track c) = Video"
| "new_track_ok d (KFlipReplace c _) \<longleftrightarrow> cap_track c < length d \<and> tk_kind (d ! cap_track c) = Video"
| "new_track_ok d k \<longleftrightarrow> True"

lemma new_track_ok_other [simp]: "\<not> camera_cont k \<Longrightarrow> new_track_ok d k"
  by (cases k) auto

lemma stream_tracks_frame [simp]:
  "stream_tracks (s\<lparr>ov_camera := c\<rparr>) = stream_tracks s"
  "stream_tracks (s\<lparr>ov_devices := d\<rparr>) = stream_tracks s"
  "stream_tracks (s\<lparr>ov_tasks := p\<rparr>) = stream_tracks s"
  by (simp_all add: stream_tracks_def)

definition track_ok :: "devices \<Rightarrow> bool \<Rightarrow> nat \<Rightarrow> bool" where
  "track_ok d muted i \<longleftrightarrow> i < length d \<and> (tk_kind (d ! i) = Audio \<longrightarrow> tk_enabled (d ! i) = (\<not> muted))"

definition mute_inv :: "overlay \<Rightarrow> bool" where
  "mute_inv s \<longleftrightarrow> (ov_stream s = None \<longrightarrow> \<not> ov_muted s)
   \<and> (\<forall>i \<in> set (stream_tracks s). track_ok (ov_devices s) (ov_muted s) i)
   \<and> (\<forall>k \<in> conts (ov_tasks s). new_track_ok (ov_devices s) k)"

lemma track_ok_mono: "same_tracks d d' \<Longrightarrow> track_ok d m i \<Longrightarrow> track_ok d' m i"
  by (auto simp: track_ok_def same_tracks_def)

lemma new_track_ok_mono: "same_tracks d d' \<Longrightarrow> new_track_ok d k \<Longrightarrow> new_track_ok d' k"
  by (cases k) (auto simp: same_tracks_def)

lemma mute_frame [simp]:
  "mute_inv (s\<lparr>ov_phase := ph\<rparr>) = mute_inv s"
  "mute_inv (s\<lparr>ov_status := m\<rparr>) = mute_inv s"
  "mute_inv (s\<lparr>ov_videoOn := b\<rparr>) = mute_inv s"
  "mute_inv (s\<lparr>ov_remoteVideoOn := b\<rparr>) = mute_inv s"
  "mute_inv (s\<lparr>ov_position := pos\<rparr>) = mute_inv s"
  "mute_inv (s\<lparr>ov_facing := fc\<rparr>) = mute_inv s"
  "mute_inv (s\<lparr>ov_localRatio := r\<rparr>) = mute_inv s"
  "mute_inv (s\<lparr>ov_peer := p\<rparr>) = mute_inv s"
  "mute_inv (s\<lparr>ov_sender := b\<rparr>) = mute_inv s"
  "mute_inv (s\<lparr>ov_pending := cs\<rparr>) = mute_inv s"
  "mute_inv (s\<lparr>ov_dead := b\<rparr>) = mute_inv s"
  "mute_inv (s\<lparr>ov_started := b\<rparr>) = mute_inv s"
  "mute_inv (s\<lparr>ov_callPhase := ph\<rparr>) = mute_inv s"
  "mute_inv (s\<lparr>ov_camera := cam\<rparr>) = mute_inv s"
  "mute_inv (s\<lparr>ov_mounted := b\<rparr>) = mute_inv s"
  "mute_inv (s\<lparr>ov_queue := q\<rparr>) = mute_inv s"
  "mute_inv (s\<lparr>ov_handling := b\<rparr>) = mute_inv s"
  "mute_inv (s\<lparr>ov_received := cs\<rparr>) = mute_inv s"
  "mute_inv (fx f s) = mute_inv s"
  "\<not> camera_cont k \<Longrightarrow> mute_inv (await k s) = mute_inv s"
  by (auto simp: mute_inv_def fx_def await_def stream_tracks_def)

lemma mute_devices: "mute_inv s \<Longrightarrow> same_tracks (ov_devices s) d \<Longrightarrow> mute_inv (s\<lparr>ov_devices := d\<rparr>)"
  by (auto simp: mute_inv_def stream_tracks_def intro: track_ok_mono new_track_ok_mono)

lemma mute_stream:
  "mute_inv s \<Longrightarrow> \<forall>i \<in> set is. track_ok (ov_devices s) (ov_muted s) i \<Longrightarrow> mute_inv (s\<lparr>ov_stream := Some is\<rparr>)"
  by (auto simp: mute_inv_def stream_tracks_def)

lemma mute_await: "mute_inv s \<Longrightarrow> new_track_ok (ov_devices s) k \<Longrightarrow> mute_inv (await k s)"
  by (auto simp: mute_inv_def await_def stream_tracks_def)

lemma mute_cleanup: "mute_inv s \<Longrightarrow> mute_inv (cleanup s)"
proof -
  assume "mute_inv s"
  moreover have "same_tracks (ov_devices s) (ov_devices (cleanup s))"
    by (simp add: same_tracks_trans [OF same_tracks_release same_tracks_stop])
  ultimately show ?thesis
    by (auto simp: mute_inv_def stream_tracks_def simp del: cleanup_sel(4)
       intro: track_ok_mono new_track_ok_mono)
qed

lemma mute_return: "mute_inv s \<Longrightarrow> mute_inv (setup_return r s)"
  by (cases r) (simp_all add: handled_def split: option.split)

lemma mute_connect: "mute_inv s \<Longrightarrow> mute_inv (setup_connect r s)"
  by (simp add: setup_connect_def setup_catch_def setup_finish_def Let_def mute_return)

lemma mute_call: "mute_inv s \<Longrightarrow> mute_inv (setup_call r s)"
  by (simp add: setup_call_def mute_return)

lemma mute_microphone:
  assumes "mute_inv s" and "ov_stream s = None"
  shows "mute_inv (got_microphone r s)"
proof -
  obtain m d where got: "open_microphone (ov_devices s) = (m, d)" by fastforce
  have same: "same_tracks (ov_devices s) d"
    using got same_tracks_open [of "ov_devices s" Audio] by (auto simp: open_microphone_def split_beta Let_def)
  have "mute_inv (s\<lparr>ov_devices := stop_tracks m d\<rparr>)"
    by (rule mute_devices [OF assms(1) same_tracks_trans [OF same same_tracks_stop]])
  moreover have "mute_inv (s\<lparr>ov_devices := d, ov_stream := Some m\<rparr>)"
    using mute_devices [OF assms(1) same] assms got
    by (intro mute_stream) (auto simp: mute_inv_def track_ok_def open_microphone_def open_track_def)
  ultimately show ?thesis
    by (auto simp: got_microphone_def got Let_def intro: mute_return mute_connect)
qed

lemma mute_add_track:
  "mute_inv s \<Longrightarrow> cap_track c < length (ov_devices s) \<Longrightarrow> tk_kind (ov_devices s ! cap_track c) = Video \<Longrightarrow>
    mute_inv (s\<lparr>ov_camera := Some c, ov_stream := Some (add_track (cap_track c) (stream_tracks s))\<rparr>)"
  by (intro mute_stream) (auto simp: mute_inv_def track_ok_def)

lemma mute_use_camera:
  "mute_inv s \<Longrightarrow> cap_track c < length (ov_devices s) \<Longrightarrow> tk_kind (ov_devices s ! cap_track c) = Video \<Longrightarrow>
    mute_inv (use_camera c s)"
  by (simp add: use_camera_def mute_add_track)

lemma mute_camera:
  assumes "mute_inv s"
  shows "mute_inv (got_camera r env s)"
proof -
  obtain c d where got: "call_camera env (ov_devices s) = (c, d)" by fastforce
  note tracks = call_camera_tracks [OF got]
  have dev: "mute_inv (s\<lparr>ov_devices := d\<rparr>)" using assms tracks by (blast intro: mute_devices)
  moreover have "mute_inv (s\<lparr>ov_devices := stop_capture p d\<rparr>)" for p
    using tracks by (auto simp: stop_capture_def
        intro: mute_devices [OF assms] same_tracks_trans [OF _ same_tracks_stop])
  moreover have "mute_inv (s\<lparr>ov_devices := d, ov_camera := Some p,
      ov_stream := Some (add_track (cap_track p) (stream_tracks s))\<rparr>)" if "c = Some p" for p
    using mute_add_track [OF dev, of p] tracks that by (simp add: stream_tracks_def)
  ultimately show ?thesis
    by (auto simp: got_camera_def got setup_catch_def intro: mute_return mute_connect split: option.split)
qed

lemma mute_new_camera:
  assumes "mute_inv s" and "\<And>c d. new_track_ok d (k c) \<longleftrightarrow> cap_track c < length d \<and> tk_kind (d ! cap_track c) = Video"
    and "\<And>s. mute_inv s \<Longrightarrow> mute_inv (catch s)"
  shows "mute_inv (got_new_camera k catch out s)"
proof (cases out)
  case (Camera env)
  obtain c d where got: "call_camera env (ov_devices s) = (c, d)" by fastforce
  note tracks = call_camera_tracks [OF got]
  have dev: "mute_inv (s\<lparr>ov_devices := d\<rparr>)" using assms(1) tracks by (blast intro: mute_devices)
  moreover have "mute_inv (s\<lparr>ov_devices := stop_capture p d\<rparr>)" for p
    using tracks by (auto simp: stop_capture_def
        intro: mute_devices [OF assms(1)] same_tracks_trans [OF _ same_tracks_stop])
  ultimately show ?thesis
    using tracks assms(2,3) Camera
    by (auto simp: got_new_camera_def got fx_def intro!: mute_await split: option.split)
      (auto simp: mute_inv_def stream_tracks_def)
qed (use assms in \<open>auto simp: got_new_camera_def\<close>)

lemma mute_stop_camera: "mute_inv s \<Longrightarrow> mute_inv (stop_camera s)"
  by (simp add: stop_camera_def mute_devices same_tracks_release)

lemma mute_drop_video:
  assumes "mute_inv s"
  shows "mute_inv (drop_video s)"
proof -
  have "mute_inv (s\<lparr>ov_devices := stop_tracks is (ov_devices s)\<rparr>)" for "is"
    by (rule mute_devices [OF assms same_tracks_stop])
  then show ?thesis
    unfolding drop_video_def Let_def
    by (intro mute_stream) (auto simp: mute_inv_def stream_tracks_def)
qed

lemma mute_toggle:
  assumes "mute_inv s" and "ov_stream s \<noteq> None"
  shows "mute_inv (toggle_mute s)"
proof -
  let ?as = "of_kind Audio (ov_devices s) (stream_tracks s)"
  let ?d = "enable_tracks (ov_muted s) ?as (ov_devices s)"
  have kind: "i < length (ov_devices s) \<Longrightarrow> tk_kind (?d ! i) = tk_kind (ov_devices s ! i)" for i
    by (metis kind_enable_tracks length_enable_tracks nth_map)
  have "track_ok ?d (\<not> ov_muted s) i" if "i \<in> set (stream_tracks s)" for i
    using assms(1) that kind by (auto simp: mute_inv_def track_ok_def enabled_enable_tracks of_kind_def)
  moreover have "new_track_ok ?d k" if "k \<in> conts (ov_tasks s)" for k
    using assms(1) that kind by (cases k) (auto simp: mute_inv_def dest!: bspec [of _ _ k])
  ultimately have "mute_inv (s\<lparr>ov_devices := ?d, ov_muted := \<not> ov_muted s\<rparr>)"
    using assms by (auto simp: mute_inv_def stream_tracks_def)
  then show ?thesis by (simp add: toggle_mute_def)
qed

lemma mute_handle: "mute_inv s \<Longrightarrow> mute_inv (handle g s)"
  by (cases g) (auto simp: handle_def overlay_end_defs Let_def mute_call mute_cleanup split: option.split)

lemma mute_ice: "mute_inv s \<Longrightarrow> mute_inv (answer_ice cs s)" "mute_inv s \<Longrightarrow> mute_inv (offerer_ice cs s)"
  by (cases cs; auto simp: overlay_end_defs mute_cleanup split: option.split)+

lemma mute_handler: "mute_inv s \<Longrightarrow> mute_inv (resume_handler k out s)"
  by (cases k) (auto simp: overlay_end_defs mark_remote_def mute_cleanup mute_ice
      split: outcome.split option.split)

lemma mute_control:
  assumes "mute_inv s" and "new_track_ok (ov_devices s) k"
  shows "mute_inv (resume_control k out s)"
proof -
  have *: "length (ov_devices (drop_video (stop_camera s))) = length (ov_devices s)"
    "map tk_kind (ov_devices (drop_video (stop_camera s))) = map tk_kind (ov_devices s)"
    by (cases "ov_camera s"; simp add: drop_video_def stop_camera_def Let_def stop_capture_def)+
  have "i < length (ov_devices s) \<Longrightarrow>
      tk_kind (ov_devices (drop_video (stop_camera s)) ! i) = tk_kind (ov_devices s ! i)" for i
    using * by (metis nth_map)
  then show ?thesis
    using assms *(1)
    by (cases k) (auto simp: overlay_end_defs video_catch_def flip_catch_def video_done_def stop_capture_def
      intro!: mute_cleanup mute_drop_video mute_stop_camera mute_use_camera mute_new_camera
         mute_devices same_tracks_stop)
qed

lemma mute_resume:
  assumes "setup_inv s" and "mute_inv s" and taken: "take_task i (ov_tasks s) = Some (k, rest)"
  shows "mute_inv (resume k out (s\<lparr>ov_tasks := rest\<rparr>))"
proof -
  have len: "length (tasks_of setup_flow (ov_tasks s)) \<le> 1" using assms by (simp add: setup_inv_def)
  have flow: "setup_flow k \<Longrightarrow> flow_ok (ov_stream s) (ov_camera s) (count_list (ov_log s) NewPeer) k"
    using take_task_single(1) [OF taken len] assms(1) by (auto simp: setup_inv_def)
  have rel: "mute_inv (s\<lparr>ov_tasks := rest\<rparr>)" and "new_track_ok (ov_devices s) k"
    using assms(2) take_task_SomeD [OF taken] by (auto simp: mute_inv_def stream_tracks_def)
  show ?thesis
  proof (cases "setup_cont k")
    case True
    with rel flow show ?thesis
      by (cases k) (auto simp: resume_def setup_catch_def setup_finish_def end_with_def
         split: outcome.split intro!: mute_microphone mute_camera mute_return mute_cleanup)
  next
    case False
    with rel \<open>new_track_ok (ov_devices s) k\<close> show ?thesis
      by (simp add: resume_def mute_handler mute_control)
  qed
qed

lemma mute_mounted:
  "setup_inv s \<Longrightarrow> mute_inv s \<Longrightarrow> (\<forall>cid sig. e \<noteq> Live cid sig) \<Longrightarrow> mute_inv (mounted_step s e)"
  by (cases e) (auto simp: overlay_end_defs in_call_def setup_inv_def toggle_video_def switch_camera_def
     intro!: mute_cleanup mute_call mute_toggle mute_await split: if_splits)

interpretation mute: overlay_invariant "\<lambda>s. setup_inv s \<and> mute_inv s" "\<lambda>_ _. True"
proof unfold_locales
  show "setup_inv s \<and> mute_inv s \<Longrightarrow> setup_inv (peer_state st s) \<and> mute_inv (peer_state st s)" for s st
    by (auto intro: setup_once.inv_peer)
      (auto simp: peer_state_def overlay_end_defs Let_def intro!: mute_cleanup split: option.split)
qed (auto simp: setup_once_handle setup_once_resume setup_once_mounted mute_handle mute_resume mute_mounted)

section \<open>Roles\<close>

text \<open>Only the caller makes offers, only the callee accepts.\<close>

fun fx_role :: "bool \<Rightarrow> call_fx \<Rightarrow> bool" where
  "fx_role outgoing (Post (DoOffer _)) = outgoing"
| "fx_role outgoing (Post DoAccept) = (\<not> outgoing)"
| "fx_role outgoing _ = True"

fun caller_role :: "bool \<Rightarrow> setup_caller \<Rightarrow> bool" where
  "caller_role outgoing ByAcceptClick = (\<not> outgoing)"
| "caller_role outgoing ByAcceptEvent = outgoing"
| "caller_role outgoing (ByOffer _) = True"

fun cont_role :: "bool \<Rightarrow> cont \<Rightarrow> bool" where
  "cont_role outgoing (KMicrophone r) = caller_role outgoing r"
| "cont_role outgoing (KCamera r) = caller_role outgoing r"
| "cont_role outgoing (KAttach r) = (caller_role outgoing r \<and> outgoing)"
| "cont_role outgoing (KSetupEnd r) = caller_role outgoing r"
| "cont_role outgoing KCreateOffer = outgoing"
| "cont_role outgoing (KOfferLocal _) = outgoing"
| "cont_role outgoing _ = True"

definition role_inv :: "overlay \<Rightarrow> bool" where
  "role_inv s \<longleftrightarrow> (\<forall>f \<in> set (ov_log s). fx_role (cs_outgoing (ov_call s)) f)
     \<and> (\<forall>k \<in> conts (ov_tasks s). cont_role (cs_outgoing (ov_call s)) k)"

lemma role_frame [simp]:
  "role_inv (s\<lparr>ov_phase := ph\<rparr>) = role_inv s"
  "role_inv (s\<lparr>ov_status := m\<rparr>) = role_inv s"
  "role_inv (s\<lparr>ov_videoOn := b\<rparr>) = role_inv s"
  "role_inv (s\<lparr>ov_muted := b\<rparr>) = role_inv s"
  "role_inv (s\<lparr>ov_remoteVideoOn := b\<rparr>) = role_inv s"
  "role_inv (s\<lparr>ov_position := pos\<rparr>) = role_inv s"
  "role_inv (s\<lparr>ov_facing := fc\<rparr>) = role_inv s"
  "role_inv (s\<lparr>ov_localRatio := r\<rparr>) = role_inv s"
  "role_inv (s\<lparr>ov_peer := p\<rparr>) = role_inv s"
  "role_inv (s\<lparr>ov_stream := st\<rparr>) = role_inv s"
  "role_inv (s\<lparr>ov_sender := b\<rparr>) = role_inv s"
  "role_inv (s\<lparr>ov_pending := cs\<rparr>) = role_inv s"
  "role_inv (s\<lparr>ov_dead := b\<rparr>) = role_inv s"
  "role_inv (s\<lparr>ov_started := b\<rparr>) = role_inv s"
  "role_inv (s\<lparr>ov_callPhase := ph\<rparr>) = role_inv s"
  "role_inv (s\<lparr>ov_camera := cam\<rparr>) = role_inv s"
  "role_inv (s\<lparr>ov_mounted := b\<rparr>) = role_inv s"
  "role_inv (s\<lparr>ov_devices := d\<rparr>) = role_inv s"
  "role_inv (s\<lparr>ov_queue := q\<rparr>) = role_inv s"
  "role_inv (s\<lparr>ov_handling := b\<rparr>) = role_inv s"
  "role_inv (s\<lparr>ov_received := cs\<rparr>) = role_inv s"
  "fx_role (cs_outgoing (ov_call s)) f \<Longrightarrow> role_inv (fx f s) = role_inv s"
  "cont_role (cs_outgoing (ov_call s)) k \<Longrightarrow> role_inv (await k s) = role_inv s"
  by (auto simp: role_inv_def fx_def await_def)

lemma call_frame [simp]:
  "ov_call (fx f s) = ov_call s" "ov_call (await k s) = ov_call s" "ov_call (handled s) = ov_call s"
  by (simp_all add: fx_def await_def handled_def)

lemma role_cleanup [simp]: "role_inv (cleanup s) = role_inv s"
  by (auto simp: role_inv_def)

lemma role_return:
  "role_inv s \<Longrightarrow> caller_role (cs_outgoing (ov_call s)) r \<Longrightarrow> role_inv (setup_return r s)"
  by (cases r) (simp_all add: handled_def split: option.split)

lemma role_connect:
  "role_inv s \<Longrightarrow> caller_role (cs_outgoing (ov_call s)) r \<Longrightarrow> role_inv (setup_connect r s)"
  by (auto simp: setup_connect_def setup_catch_def setup_finish_def Let_def intro!: role_return)

lemma role_call:
  "role_inv s \<Longrightarrow> caller_role (cs_outgoing (ov_call s)) r \<Longrightarrow> role_inv (setup_call r s)"
  by (simp add: setup_call_def role_return)

lemma role_handle: "role_inv s \<Longrightarrow> role_inv (handle g s)"
  by (cases g) (simp_all add: handle_def overlay_end_defs Let_def role_call split: option.split)

lemma role_ice: "role_inv s \<Longrightarrow> role_inv (answer_ice cs s)" "role_inv s \<Longrightarrow> role_inv (offerer_ice cs s)"
  by (cases cs; simp add: overlay_end_defs split: option.split)+

lemma role_control_ops [simp]:
  "role_inv (stop_camera s) = role_inv s" "role_inv (drop_video s) = role_inv s"
  "role_inv (use_camera c s) = role_inv s" "role_inv (mark_remote s) = role_inv s"
  "role_inv (video_catch s) = role_inv s" "role_inv (flip_catch s) = role_inv s"
  "ov_call (mark_remote s) = ov_call s" "ov_call (stop_camera s) = ov_call s" "ov_call (drop_video s) = ov_call s"
  by (simp_all add: overlay_control_defs Let_def)

lemma role_new_camera:
  "role_inv s \<Longrightarrow> (\<And>c. cont_role (cs_outgoing (ov_call s)) (k c)) \<Longrightarrow>
    (\<And>s. role_inv (catch s) = role_inv s) \<Longrightarrow> role_inv (got_new_camera k catch out s)"
  by (auto simp: got_new_camera_def split: outcome.split prod.split option.split)

lemma role_resume:
  assumes "role_inv s" and taken: "take_task i (ov_tasks s) = Some (k, rest)"
  shows "role_inv (resume k out (s\<lparr>ov_tasks := rest\<rparr>))"
proof -
  have k: "cont_role (cs_outgoing (ov_call s)) k" and r: "role_inv (s\<lparr>ov_tasks := rest\<rparr>)"
    using assms(1) take_task_SomeD [OF taken] by (auto simp: role_inv_def)
  consider "setup_cont k" | "control_cont k" "\<not> setup_cont k" | "\<not> setup_cont k" "\<not> control_cont k" by blast
  then show ?thesis
  proof cases
    case 1
    with k r show ?thesis
      by (cases k) (auto simp: resume_def setup_catch_def setup_finish_def end_with_def Let_def
          got_microphone_def got_camera_def
          intro!: role_return role_connect split: outcome.split prod.split option.split)
  next
    case 2
    with r show ?thesis
      by (cases k) (auto simp: resume_def overlay_end_defs video_done_def intro!: role_new_camera)
  next
    case 3
    with k r show ?thesis
      by (cases k) (auto simp: resume_def overlay_end_defs intro!: role_ice split: outcome.split option.split)
  qed
qed

lemma role_mounted: "role_inv s \<Longrightarrow> (\<forall>cid sig. e \<noteq> Live cid sig) \<Longrightarrow> role_inv (mounted_step s e)"
  by (cases e) (simp_all add: overlay_end_defs toggle_mute_def toggle_video_def switch_camera_def role_call)

interpretation role: overlay_invariant role_inv "\<lambda>_ _. True"
proof unfold_locales
  show "role_inv s \<Longrightarrow> role_inv (peer_state st s)" for s st
    by (auto simp: peer_state_def overlay_end_defs Let_def split: option.split)
qed (auto simp: role_handle role_resume role_mounted)

end
