(* ===== verification/Call_Overlay_Ice.thy ===== *)
theory Call_Overlay_Ice
  imports Call_Overlay_Safety
begin

text \<open>
  Remote ICE candidates of the call overlay: \<open>pending.current\<close> buffers what arrives before the
  remote description, and the queued handlers hand everything on in the order of arrival.
\<close>

section \<open>Order of the remote candidates\<close>

text \<open>
  While the call lives, the candidates given to the peer connection, those a suspended
  handler still has to give and those buffered are, in this order, exactly the candidates
  received. A handler is suspended at most once (the chain), and candidates stay buffered
  only as long as the remote description is missing.
\<close>

fun chain_caller :: "setup_caller \<Rightarrow> bool" where
  "chain_caller ByAcceptClick = False"
| "chain_caller ByAcceptEvent = True"
| "chain_caller (ByOffer _) = True"

fun chain_cont :: "cont \<Rightarrow> bool" where
  "chain_cont (KMicrophone r) = chain_caller r"
| "chain_cont (KCamera r) = chain_caller r"
| "chain_cont (KAttach r) = chain_caller r"
| "chain_cont (KSetupEnd r) = chain_caller r"
| "chain_cont k = (\<not> setup_cont k \<and> \<not> control_cont k)"

fun rest_ice :: "cont \<Rightarrow> jstr list" where
  "rest_ice (KAnswerIce cs) = cs"
| "rest_ice (KOffererIce cs) = cs"
| "rest_ice _ = []"

fun added_ice :: "call_fx list \<Rightarrow> jstr list" where
  "added_ice [] = []"
| "added_ice (AddIce c # fs) = c # added_ice fs"
| "added_ice (f # fs) = added_ice fs"

lemma added_ice_append [simp]: "added_ice (fs @ gs) = added_ice fs @ added_ice gs"
  by (induction fs rule: added_ice.induct) auto

definition waiting_ice :: "overlay \<Rightarrow> jstr list" where
  "waiting_ice s = concat (map rest_ice (tasks_of chain_cont (ov_tasks s)))"

definition remote_set :: "overlay \<Rightarrow> bool" where
  "remote_set s = (case ov_peer s of None \<Rightarrow> False | Some p \<Rightarrow> pc_remote p)"

definition ice_inv :: "overlay \<Rightarrow> bool" where
  "ice_inv s \<longleftrightarrow>
     length (tasks_of chain_cont (ov_tasks s)) \<le> (if ov_handling s then 1 else 0)
   \<and> (ov_peer s \<noteq> None \<longrightarrow> ov_stream s \<noteq> None)
   \<and> (KRemoteOffer \<in> set (tasks_of chain_cont (ov_tasks s)) \<longrightarrow> ov_stream s \<noteq> None)
   \<and> (\<not> ov_dead s \<longrightarrow> added_ice (ov_log s) @ waiting_ice s @ ov_pending s = ov_received s)
   \<and> (\<not> ov_dead s \<and> remote_set s \<longrightarrow>
        ov_pending s = [] \<or> KAnswerAttach \<in> set (tasks_of chain_cont (ov_tasks s)))"

lemma ice_frame [simp]:
  "ice_inv (s\<lparr>ov_phase := ph\<rparr>) = ice_inv s"
  "ice_inv (s\<lparr>ov_status := m\<rparr>) = ice_inv s"
  "ice_inv (s\<lparr>ov_videoOn := b\<rparr>) = ice_inv s"
  "ice_inv (s\<lparr>ov_muted := b\<rparr>) = ice_inv s"
  "ice_inv (s\<lparr>ov_remoteVideoOn := b\<rparr>) = ice_inv s"
  "ice_inv (s\<lparr>ov_position := pos\<rparr>) = ice_inv s"
  "ice_inv (s\<lparr>ov_facing := fc\<rparr>) = ice_inv s"
  "ice_inv (s\<lparr>ov_localRatio := r\<rparr>) = ice_inv s"
  "ice_inv (s\<lparr>ov_sender := b\<rparr>) = ice_inv s"
  "ice_inv (s\<lparr>ov_started := b\<rparr>) = ice_inv s"
  "ice_inv (s\<lparr>ov_callPhase := ph\<rparr>) = ice_inv s"
  "ice_inv (s\<lparr>ov_camera := cam\<rparr>) = ice_inv s"
  "ice_inv (s\<lparr>ov_mounted := b\<rparr>) = ice_inv s"
  "ice_inv (s\<lparr>ov_devices := d\<rparr>) = ice_inv s"
  "ice_inv (s\<lparr>ov_queue := q\<rparr>) = ice_inv s"
  "added_ice [f] = [] \<Longrightarrow> ice_inv (fx f s) = ice_inv s"
  "\<not> chain_cont k \<Longrightarrow> ice_inv (await k s) = ice_inv s"
  by (auto simp: ice_inv_def fx_def await_def waiting_ice_def remote_set_def)

lemma ice_dead: "ice_inv s \<Longrightarrow> ice_inv (cleanup s)"
  by (auto simp: ice_inv_def remote_set_def)

lemma ice_stream: "ice_inv s \<Longrightarrow> ice_inv (s\<lparr>ov_stream := Some st\<rparr>)"
  by (auto simp: ice_inv_def waiting_ice_def remote_set_def)

lemma ice_new_peer: "ice_inv s \<Longrightarrow> ov_stream s \<noteq> None \<Longrightarrow>
    ice_inv (s\<lparr>ov_peer := Some \<lparr>pc_remote = False, pc_state = st\<rparr>\<rparr>)"
  by (auto simp: ice_inv_def waiting_ice_def remote_set_def)

lemma effect_sel [simp]:
  "ov_handling (fx f s) = ov_handling s" "ov_stream (fx f s) = ov_stream s" "ov_peer (fx f s) = ov_peer s"
  "ov_dead (fx f s) = ov_dead s" "ov_pending (fx f s) = ov_pending s" "ov_tasks (fx f s) = ov_tasks s"
  "ov_handling (await k s) = ov_handling s" "ov_stream (await k s) = ov_stream s"
  "ov_peer (await k s) = ov_peer s" "ov_dead (await k s) = ov_dead s"
  by (simp_all add: fx_def await_def)

text \<open>\<open>free s\<close>: no handler is suspended (it has just been resumed, or none was).\<close>

definition free :: "overlay \<Rightarrow> bool" where
  "free s \<longleftrightarrow> tasks_of chain_cont (ov_tasks s) = []"

lemma free_frame [simp]:
  "free (s\<lparr>ov_phase := ph\<rparr>) = free s"
  "free (s\<lparr>ov_status := m\<rparr>) = free s"
  "free (s\<lparr>ov_videoOn := b\<rparr>) = free s"
  "free (s\<lparr>ov_muted := b\<rparr>) = free s"
  "free (s\<lparr>ov_remoteVideoOn := b\<rparr>) = free s"
  "free (s\<lparr>ov_position := pos\<rparr>) = free s"
  "free (s\<lparr>ov_facing := fc\<rparr>) = free s"
  "free (s\<lparr>ov_localRatio := r\<rparr>) = free s"
  "free (s\<lparr>ov_peer := p\<rparr>) = free s"
  "free (s\<lparr>ov_stream := st\<rparr>) = free s"
  "free (s\<lparr>ov_sender := b\<rparr>) = free s"
  "free (s\<lparr>ov_pending := cs\<rparr>) = free s"
  "free (s\<lparr>ov_dead := b\<rparr>) = free s"
  "free (s\<lparr>ov_started := b\<rparr>) = free s"
  "free (s\<lparr>ov_callPhase := ph\<rparr>) = free s"
  "free (s\<lparr>ov_camera := cam\<rparr>) = free s"
  "free (s\<lparr>ov_mounted := b\<rparr>) = free s"
  "free (s\<lparr>ov_devices := d\<rparr>) = free s"
  "free (s\<lparr>ov_queue := q\<rparr>) = free s"
  "free (s\<lparr>ov_handling := b\<rparr>) = free s"
  "free (s\<lparr>ov_received := cs\<rparr>) = free s"
  "free (fx f s) = free s" "free (cleanup s) = free s"
  "\<not> chain_cont k \<Longrightarrow> free (await k s) = free s"
  by (auto simp: free_def fx_def await_def)

lemma ice_handled: "ice_inv s \<Longrightarrow> free s \<Longrightarrow> ice_inv (handled s)"
  by (auto simp: ice_inv_def handled_def free_def waiting_ice_def remote_set_def)

lemma ice_await:
  "ice_inv s \<Longrightarrow> free s \<Longrightarrow> ov_handling s \<Longrightarrow> rest_ice k = [] \<Longrightarrow> k \<noteq> KRemoteOffer \<Longrightarrow> ice_inv (await k s)"
  by (auto simp: ice_inv_def await_def free_def waiting_ice_def remote_set_def)

lemma ice_await_offer:
  "ice_inv s \<Longrightarrow> free s \<Longrightarrow> ov_handling s \<Longrightarrow> ov_stream s \<noteq> None \<Longrightarrow> ice_inv (await KRemoteOffer s)"
  by (auto simp: ice_inv_def await_def free_def waiting_ice_def remote_set_def)

text \<open>Setup run for a handler keeps the chain's slot; for a click it does not touch it.\<close>

definition slot :: "setup_caller \<Rightarrow> overlay \<Rightarrow> bool" where
  "slot r s \<longleftrightarrow> (chain_caller r \<longrightarrow> free s \<and> ov_handling s)"

lemma slot_frame [simp]:
  "slot r (s\<lparr>ov_phase := ph\<rparr>) = slot r s"
  "slot r (s\<lparr>ov_status := m\<rparr>) = slot r s"
  "slot r (s\<lparr>ov_videoOn := b\<rparr>) = slot r s"
  "slot r (s\<lparr>ov_muted := b\<rparr>) = slot r s"
  "slot r (s\<lparr>ov_remoteVideoOn := b\<rparr>) = slot r s"
  "slot r (s\<lparr>ov_position := pos\<rparr>) = slot r s"
  "slot r (s\<lparr>ov_facing := fc\<rparr>) = slot r s"
  "slot r (s\<lparr>ov_localRatio := lr\<rparr>) = slot r s"
  "slot r (s\<lparr>ov_peer := p\<rparr>) = slot r s"
  "slot r (s\<lparr>ov_stream := st\<rparr>) = slot r s"
  "slot r (s\<lparr>ov_sender := b\<rparr>) = slot r s"
  "slot r (s\<lparr>ov_pending := cs\<rparr>) = slot r s"
  "slot r (s\<lparr>ov_dead := b\<rparr>) = slot r s"
  "slot r (s\<lparr>ov_started := b\<rparr>) = slot r s"
  "slot r (s\<lparr>ov_callPhase := ph\<rparr>) = slot r s"
  "slot r (s\<lparr>ov_camera := cam\<rparr>) = slot r s"
  "slot r (s\<lparr>ov_mounted := b\<rparr>) = slot r s"
  "slot r (s\<lparr>ov_devices := d\<rparr>) = slot r s"
  "slot r (s\<lparr>ov_queue := q\<rparr>) = slot r s"
  "slot r (s\<lparr>ov_received := cs\<rparr>) = slot r s"
  "slot r (fx f s) = slot r s" "slot r (cleanup s) = slot r s"
  by (auto simp: slot_def)

lemma ice_await_setup:
  "ice_inv s \<Longrightarrow> slot r s \<Longrightarrow> chain_cont k = chain_caller r \<Longrightarrow> rest_ice k = [] \<Longrightarrow> k \<noteq> KRemoteOffer
    \<Longrightarrow> ice_inv (await k s)"
  by (cases "chain_caller r") (auto simp: slot_def intro: ice_await)

lemma ice_peer_stream: "ice_inv s \<Longrightarrow> ov_peer s = Some p \<Longrightarrow> ov_stream s \<noteq> None"
  by (simp add: ice_inv_def)

lemma ice_return: "ice_inv s \<Longrightarrow> slot r s \<Longrightarrow> ice_inv (setup_return r s)"
  by (cases r) (auto simp: slot_def dest: ice_peer_stream
      intro!: ice_handled ice_await ice_await_offer split: option.split)

lemma ice_catch: "ice_inv s \<Longrightarrow> slot r s \<Longrightarrow> ice_inv (setup_catch r s)"
  by (auto simp: setup_catch_def intro: ice_await_setup)

lemma ice_finish: "ice_inv s \<Longrightarrow> slot r s \<Longrightarrow> ice_inv (setup_finish r s)"
  by (simp add: setup_finish_def ice_return)

lemma ice_connect: "ice_inv s \<Longrightarrow> slot r s \<Longrightarrow> ov_stream s \<noteq> None \<Longrightarrow> ice_inv (setup_connect r s)"
  by (auto simp: setup_connect_def Let_def intro!: ice_catch ice_finish ice_await_setup ice_new_peer)

lemma ice_call: "ice_inv s \<Longrightarrow> slot r s \<Longrightarrow> ice_inv (setup_call r s)"
  by (auto simp: setup_call_def intro!: ice_return ice_await_setup)

lemma ice_microphone: "ice_inv s \<Longrightarrow> slot r s \<Longrightarrow> ice_inv (got_microphone r s)"
  by (auto simp: got_microphone_def Let_def intro!: ice_return ice_connect ice_await_setup ice_stream split: prod.split)

lemma ice_camera: "ice_inv s \<Longrightarrow> slot r s \<Longrightarrow> ice_inv (got_camera r env s)"
  by (auto simp: got_camera_def intro!: ice_return ice_connect ice_catch ice_stream split: prod.split option.split)

lemma ice_fail: "ice_inv s \<Longrightarrow> free s \<Longrightarrow> ice_inv (handler_fail s)"
  by (simp add: handler_fail_def finish_def ice_handled ice_dead)

subsection \<open>In the middle of a handler\<close>

text \<open>The resumed handler still has to hand on \<open>xs\<close>; \<open>att\<close> says that it is about to take the
  buffer over.\<close>

definition ice_mid :: "jstr list \<Rightarrow> bool \<Rightarrow> overlay \<Rightarrow> bool" where
  "ice_mid xs att s \<longleftrightarrow> free s \<and> ov_handling s \<and> (ov_peer s \<noteq> None \<longrightarrow> ov_stream s \<noteq> None)
   \<and> (\<not> ov_dead s \<longrightarrow> added_ice (ov_log s) @ xs @ ov_pending s = ov_received s)
   \<and> (\<not> ov_dead s \<and> remote_set s \<longrightarrow> ov_pending s = [] \<or> att)"

lemma ice_midD: "ice_mid xs att s \<Longrightarrow> free s" "ice_mid xs att s \<Longrightarrow> ov_handling s"
  by (auto simp: ice_mid_def)

lemma ice_mid_inv: "ice_mid [] False s \<Longrightarrow> ice_inv s"
  by (auto simp: ice_mid_def ice_inv_def free_def waiting_ice_def)

lemma ice_mid_fail: "ice_mid xs att s \<Longrightarrow> ice_inv (handler_fail s)"
  by (auto simp: ice_mid_def ice_inv_def free_def handler_fail_def finish_def handled_def fx_def
      waiting_ice_def remote_set_def)

lemma ice_mid_handled: "ice_mid [] False s \<Longrightarrow> ice_inv (handled s)"
  by (blast intro: ice_handled ice_mid_inv dest: ice_midD)

lemma ice_mid_await: "ice_mid [] False s \<Longrightarrow> rest_ice k = [] \<Longrightarrow> k \<noteq> KRemoteOffer \<Longrightarrow> ice_inv (await k s)"
  by (blast intro: ice_await ice_mid_inv dest: ice_midD)

lemma ice_mid_fx [simp]: "added_ice [f] = [] \<Longrightarrow> ice_mid xs att (fx f s) = ice_mid xs att s"
  by (auto simp: ice_mid_def remote_set_def) (auto simp: fx_def)

lemma ice_mid_next:
  "ice_mid (c # cs) False s \<Longrightarrow> rest_ice k = cs \<Longrightarrow> chain_cont k \<Longrightarrow> k \<noteq> KRemoteOffer \<Longrightarrow>
    ice_inv (await k (fx (AddIce c) s))"
  by (auto simp: ice_mid_def ice_inv_def free_def fx_def await_def waiting_ice_def remote_set_def)

lemma ice_mid_answer: "ice_mid cs False s \<Longrightarrow> ice_inv (answer_ice cs s)"
  by (cases cs) (auto intro: ice_mid_await ice_mid_next)

lemma ice_mid_offerer: "ice_mid cs False s \<Longrightarrow> ice_inv (offerer_ice cs s)"
  by (cases cs) (auto intro: ice_mid_handled ice_mid_next ice_mid_fail split: option.split)

lemma ice_mid_splice:
  "ice_mid [] att s \<Longrightarrow> ice_mid (ov_pending s) False (s\<lparr>ov_sender := b, ov_pending := []\<rparr>)"
  "ice_mid [] att s \<Longrightarrow> ice_mid (ov_pending s) False (mark_remote (s\<lparr>ov_pending := []\<rparr>))"
  by (auto simp: ice_mid_def free_def remote_set_def mark_remote_def)

lemma ice_mid_attach:
  "ice_mid [] False s \<Longrightarrow> ov_stream s \<noteq> None \<Longrightarrow> ice_inv (await KAnswerAttach (fx f (mark_remote s)))
    \<or> added_ice [f] \<noteq> []"
  by (auto simp: ice_mid_def ice_inv_def free_def fx_def await_def waiting_ice_def remote_set_def mark_remote_def)

lemma ice_mid_taken:
  assumes "ice_inv s" and taken: "take_task i (ov_tasks s) = Some (k, rest)" and "chain_cont k"
  shows "ice_mid (rest_ice k) (k = KAnswerAttach) (s\<lparr>ov_tasks := rest\<rparr>)"
    and "k = KRemoteOffer \<Longrightarrow> ov_stream s \<noteq> None"
proof -
  have len: "length (tasks_of chain_cont (ov_tasks s)) \<le> 1"
    using assms(1) by (auto simp: ice_inv_def split: if_splits)
  note single = take_task_single(1) [OF taken len assms(3)]
  have "ov_handling s" using assms(1) single by (auto simp: ice_inv_def split: if_splits)
  then show "ice_mid (rest_ice k) (k = KAnswerAttach) (s\<lparr>ov_tasks := rest\<rparr>)"
    using assms(1) single by (auto simp: ice_mid_def ice_inv_def free_def waiting_ice_def remote_set_def)
  show "k = KRemoteOffer \<Longrightarrow> ov_stream s \<noteq> None" using assms(1) single by (auto simp: ice_inv_def)
qed

lemma ice_untouched:
  assumes "ice_inv s" and taken: "take_task i (ov_tasks s) = Some (k, rest)" and "\<not> chain_cont k"
  shows "ice_inv (s\<lparr>ov_tasks := rest\<rparr>)"
proof -
  have "length (tasks_of chain_cont (ov_tasks s)) \<le> 1"
    using assms(1) by (auto simp: ice_inv_def split: if_splits)
  from take_task_single(2) [OF taken this assms(3)] assms(1) show ?thesis
    by (auto simp: ice_inv_def waiting_ice_def remote_set_def)
qed

lemma ice_received:
  "ice_mid [] False s \<Longrightarrow> ov_peer s = Some p \<Longrightarrow> pc_remote p \<Longrightarrow>
    ice_inv (await KIce (fx (AddIce c) (s\<lparr>ov_received := ov_received s @ [c]\<rparr>))) \<or> ov_dead s"
  "ice_mid [] False s \<Longrightarrow> \<not> remote_set s \<Longrightarrow>
    ice_inv (handled (s\<lparr>ov_received := ov_received s @ [c], ov_pending := ov_pending s @ [c]\<rparr>)) \<or> ov_dead s"
  by (auto simp: ice_mid_def ice_inv_def free_def fx_def await_def handled_def waiting_ice_def remote_set_def)

lemma ice_handle:
  assumes "ice_inv s" and "\<not> ov_handling s"
  shows "ice_inv (handle g s)"
proof -
  let ?s = "s\<lparr>ov_handling := True\<rparr>"
  have mid: "ice_mid [] False ?s"
    using assms by (auto simp: ice_mid_def ice_inv_def free_def waiting_ice_def remote_set_def)
  then have inv: "ice_inv ?s" and slot: "slot r ?s" for r
    by (auto simp: ice_mid_inv ice_mid_def slot_def)
  have end_mid: "ice_inv (handled (end_with m ?s))" for m
    using inv ice_midD [OF mid] by (simp add: end_with_def ice_handled ice_dead)
  have answer: "ice_inv (await KRemoteAnswer (fx (SetRemote d) ?s))" for d
    using mid by (intro ice_mid_await) simp_all
  show ?thesis
  proof (cases "ov_dead s")
    case True
    then show ?thesis using mid by (simp add: handle_def ice_mid_handled)
  next
    case alive: False
    show ?thesis
    proof (cases g)
      case (SigIce c)
      show ?thesis
        using alive SigIce ice_received [OF mid, where c = c]
        by (auto simp: handle_def Let_def remote_set_def split: option.split)
    next
      case (SigMedia v)
      have "ice_inv (handled (?s\<lparr>ov_remoteVideoOn := b\<rparr>))" for b
        using mid by (intro ice_mid_handled) (auto simp: ice_mid_def remote_set_def)
      with alive SigMedia show ?thesis
        by (auto simp: handle_def Let_def intro: ice_mid_fail [OF mid] split: option.split)
    qed (use alive in \<open>auto simp: handle_def Let_def split: option.split
      intro: end_mid ice_mid_handled [OF mid] ice_call [OF inv slot] answer\<close>)
  qed
qed

lemma ice_handler:
  assumes "ice_mid (rest_ice k) (k = KAnswerAttach) s" and "k = KRemoteOffer \<Longrightarrow> ov_stream s \<noteq> None"
    and "\<not> setup_cont k" "\<not> control_cont k"
  shows "ice_inv (resume_handler k out s)"
  using assms ice_mid_attach [of s "AttachMedia True"]
  by (cases k) (auto intro: ice_mid_fail ice_mid_handled ice_mid_await ice_mid_answer ice_mid_offerer
      ice_mid_splice split: outcome.split option.split)

lemma ice_new_camera:
  "ice_inv s \<Longrightarrow> (\<And>c. \<not> chain_cont (k c)) \<Longrightarrow> (\<And>s. ice_inv (catch s) = ice_inv s) \<Longrightarrow>
    ice_inv (got_new_camera k catch out s)"
  by (auto simp: got_new_camera_def split: outcome.split prod.split option.split)

lemma ice_control: "ice_inv s \<Longrightarrow> control_cont k \<Longrightarrow> ice_inv (resume_control k out s)"
  by (cases k) (auto simp: end_with_def video_catch_def flip_catch_def video_done_def drop_video_def
      stop_camera_def use_camera_def Let_def intro!: ice_dead ice_stream ice_new_camera)

lemma ice_setup:
  assumes "ice_inv s" and "setup_cont k" and "chain_cont k \<Longrightarrow> free s \<and> ov_handling s"
  shows "ice_inv (resume_setup k out s)"
  using assms by (cases k) (auto simp: slot_def end_with_def split: outcome.split
      intro!: ice_microphone ice_camera ice_catch ice_finish ice_return ice_dead)

lemma ice_resume:
  assumes inv: "ice_inv s" and taken: "take_task i (ov_tasks s) = Some (k, rest)"
  shows "ice_inv (resume k out (s\<lparr>ov_tasks := rest\<rparr>))"
proof (cases "chain_cont k")
  case True
  note mid = ice_mid_taken [OF inv taken True]
  show ?thesis
  proof (cases "setup_cont k")
    case is_setup: True
    then have "ice_mid [] False (s\<lparr>ov_tasks := rest\<rparr>)" using mid(1) by (cases k) auto
    then show ?thesis using is_setup ice_setup [OF ice_mid_inv] ice_midD by (simp add: resume_def)
  next
    case False
    moreover have "\<not> control_cont k" using True by (cases k) auto
    ultimately show ?thesis using ice_handler [OF mid(1)] mid(2) by (simp add: resume_def)
  qed
next
  case False
  note inv' = ice_untouched [OF inv taken False]
  have "setup_cont k \<or> control_cont k" using False by (cases k) auto
  then show ?thesis using ice_setup [OF inv'] ice_control [OF inv'] False by (auto simp: resume_def)
qed

lemma ice_mounted: "ice_inv s \<Longrightarrow> (\<forall>cid sig. e \<noteq> Live cid sig) \<Longrightarrow> ice_inv (mounted_step s e)"
  by (cases e) (auto simp: finish_def end_with_def toggle_mute_def toggle_video_def switch_camera_def slot_def
      intro!: ice_dead ice_call)

interpretation ice: overlay_invariant ice_inv "\<lambda>_ _. True"
proof unfold_locales
  have "ice_inv s \<Longrightarrow> ice_inv (s\<lparr>ov_peer := Some (p\<lparr>pc_state := st\<rparr>)\<rparr>)" if "ov_peer s = Some p" for s st p
    using that by (auto simp: ice_inv_def waiting_ice_def remote_set_def)
  then show "ice_inv s \<Longrightarrow> ice_inv (peer_state st s)" for s st
    by (auto simp: peer_state_def finish_def Let_def intro!: ice_dead split: option.split)
qed (auto simp: ice_handle ice_resume ice_mounted)

lemma ice_init: "ice_inv (overlay_init call ok)"
  by (simp add: ice_inv_def overlay_init_def waiting_ice_def remote_set_def)

end
