(* ===== verification/Call_Overlay_Progress.thy ===== *)
theory Call_Overlay_Progress
  imports Call_Overlay_Ice "HOL-Library.Sublist"
begin

text \<open>
  What never goes back in the call overlay: the flags \<open>dead\<close> and \<open>started\<close>, leaving the
  ringing phase, unmounting, and the log of requests. From it follow the time limits of
  \<open>setTimeout\<close> in \<open>CallOverlay\<close> and the finality of an ended incoming call.
\<close>

section \<open>Monotone parts of the state\<close>

definition advances :: "overlay \<Rightarrow> overlay \<Rightarrow> bool" where
  "advances s t \<longleftrightarrow> (ov_dead s \<longrightarrow> ov_dead t) \<and> (ov_started s \<longrightarrow> ov_started t)
   \<and> (ov_callPhase s \<noteq> Ringing \<longrightarrow> ov_callPhase t \<noteq> Ringing) \<and> (\<not> ov_mounted s \<longrightarrow> \<not> ov_mounted t)
   \<and> ov_call t = ov_call s \<and> prefix (ov_log s) (ov_log t)"

lemma advances_frame [simp]:
  "advances u (s\<lparr>ov_phase := ph\<rparr>) = advances u s"
  "advances u (s\<lparr>ov_status := m\<rparr>) = advances u s"
  "advances u (s\<lparr>ov_videoOn := b\<rparr>) = advances u s"
  "advances u (s\<lparr>ov_muted := b\<rparr>) = advances u s"
  "advances u (s\<lparr>ov_remoteVideoOn := b\<rparr>) = advances u s"
  "advances u (s\<lparr>ov_position := pos\<rparr>) = advances u s"
  "advances u (s\<lparr>ov_facing := fc\<rparr>) = advances u s"
  "advances u (s\<lparr>ov_localRatio := r\<rparr>) = advances u s"
  "advances u (s\<lparr>ov_peer := p\<rparr>) = advances u s"
  "advances u (s\<lparr>ov_stream := st\<rparr>) = advances u s"
  "advances u (s\<lparr>ov_sender := b\<rparr>) = advances u s"
  "advances u (s\<lparr>ov_pending := cs\<rparr>) = advances u s"
  "advances u (s\<lparr>ov_camera := cam\<rparr>) = advances u s"
  "advances u (s\<lparr>ov_devices := d\<rparr>) = advances u s"
  "advances u (s\<lparr>ov_tasks := ts\<rparr>) = advances u s"
  "advances u (s\<lparr>ov_queue := q\<rparr>) = advances u s"
  "advances u (s\<lparr>ov_handling := b\<rparr>) = advances u s"
  "advances u (s\<lparr>ov_received := cs\<rparr>) = advances u s"
  "advances u (await k s) = advances u s"
  by (auto simp: advances_def await_def)

lemma advances_effects:
  "advances u s \<Longrightarrow> advances u (fx f s)" "advances u s \<Longrightarrow> advances u (cleanup s)"
  "advances u s \<Longrightarrow> advances u (s\<lparr>ov_started := True\<rparr>)"
  "advances u s \<Longrightarrow> advances u (s\<lparr>ov_callPhase := Connecting\<rparr>)"
  "advances u s \<Longrightarrow> advances u (s\<lparr>ov_mounted := False\<rparr>)"
  by (auto simp: advances_def fx_def)

lemma advances_return: "advances u s \<Longrightarrow> advances u (setup_return r s)"
  by (cases r) (auto simp: handled_def intro: advances_effects split: option.split)

lemma advances_setup:
  assumes "advances u s"
  shows "advances u (setup_catch r s)" "advances u (setup_finish r s)" "advances u (setup_connect r s)"
    "advances u (setup_call r s)" "advances u (got_microphone r s)" "advances u (got_camera r env s)"
  using assms
  by (auto simp: setup_catch_def setup_finish_def setup_connect_def setup_call_def
      got_microphone_def got_camera_def Let_def
      intro!: advances_return advances_effects split: prod.split option.split)

lemma advances_ice:
  "advances u s \<Longrightarrow> advances u (answer_ice cs s)" "advances u s \<Longrightarrow> advances u (offerer_ice cs s)"
  by (cases cs; auto simp: overlay_end_defs intro!: advances_effects split: option.split)+

lemmas advances_intros = advances_return advances_setup advances_effects advances_ice

lemma advances_handle: "advances u s \<Longrightarrow> advances u (handle g s)"
  by (cases g) (auto simp: handle_def overlay_end_defs Let_def intro!: advances_intros split: option.split)

lemma advances_new_camera:
  "advances u s \<Longrightarrow> (\<And>s. advances u s \<Longrightarrow> advances u (catch s)) \<Longrightarrow> advances u (got_new_camera k catch out s)"
  by (auto simp: got_new_camera_def intro!: advances_effects split: outcome.split prod.split option.split)

lemma advances_resume: "advances u s \<Longrightarrow> advances u (resume k out s)"
  by (cases k) (auto simp: resume_def overlay_end_defs video_done_def video_catch_def flip_catch_def
      drop_video_def stop_camera_def use_camera_def mark_remote_def Let_def
      intro!: advances_intros advances_new_camera split: outcome.split option.split)

lemma advances_mounted:
  "advances u s \<Longrightarrow> (\<forall>cid sig. e \<noteq> Live cid sig) \<Longrightarrow> advances u (mounted_step s e)"
  by (cases e) (auto simp: overlay_end_defs toggle_mute_def toggle_video_def switch_camera_def
      intro!: advances_intros)

interpretation advance: overlay_invariant "advances u" "\<lambda>_ _. True" for u
proof unfold_locales
  show "advances u s \<Longrightarrow> advances u (peer_state st s)" for s st
    by (auto simp: peer_state_def overlay_end_defs Let_def intro!: advances_effects split: option.split)
qed (simp_all add: advances_handle advances_resume advances_mounted advances_effects)

interpretation progress: monotone_machine overlay_step "\<lambda>_ _. True" advances
proof unfold_locales
  show "advances s (overlay_step s e)" for s e
    by (rule advance.inv_overlay_step) (simp_all add: advances_def)
qed (auto simp: advances_def intro: prefix_order.trans)

section \<open>An ended incoming call stays ended\<close>

definition final_inv :: "overlay \<Rightarrow> bool" where
  "final_inv s \<longleftrightarrow> role_inv s \<and> ended_inv s \<and> \<not> cs_outgoing (ov_call s) \<and> ov_phase s = Ended"

lemma final_dead: "final_inv s \<Longrightarrow> ov_dead s" "final_inv s \<Longrightarrow> ov_peer s = None"
  by (auto simp: final_inv_def ended_inv_def)

lemma final_phase_return: "ov_phase (setup_return r s) = ov_phase s"
  by (cases r) (auto simp: handled_def fx_def await_def split: option.split)

lemma final_phase_handle:
  "ov_dead s \<Longrightarrow> ov_phase (handle g s) = ov_phase s" "ov_call (handle g s) = ov_call s"
  using advance.inv_handle [of s s g] advances_handle [of s s g]
  by (auto simp: handle_def handled_def advances_def)

lemma final_phase_new_camera:
  "(\<And>s. ov_phase (catch s) = ov_phase s) \<Longrightarrow> ov_phase (got_new_camera k catch out s) = ov_phase s"
  by (auto simp: got_new_camera_def fx_def await_def split: outcome.split prod.split option.split)

lemma final_phase_ice: "ov_phase (answer_ice cs s) = ov_phase s" "ov_phase (offerer_ice cs s) = ov_phase s"
  by (cases cs; auto simp: overlay_end_defs fx_def await_def split: option.split)+

lemma final_phase_resume:
  assumes "ov_dead s" and "ov_phase s = Ended" and "\<forall>r. k \<noteq> KAttach r"
  shows "ov_phase (resume k out s) = Ended"
  using assms
  by (cases k) (auto simp: resume_def overlay_end_defs fx_def await_def setup_catch_def got_microphone_def
      got_camera_def final_phase_return final_phase_new_camera final_phase_ice video_done_def video_catch_def
      flip_catch_def drop_video_def stop_camera_def use_camera_def mark_remote_def Let_def
      split: outcome.split option.split prod.split)

lemma final_phase_mounted:
  assumes "ov_dead s" and "ov_phase s = Ended" and "\<forall>cid sig. e \<noteq> Live cid sig"
  shows "ov_phase (mounted_step s e) = Ended"
  using assms by (cases e) (auto simp: overlay_end_defs fx_def await_def in_call_def)

lemma advances_refl: "advances s s"
  by (simp add: advances_def)

lemma same_call:
  "ov_call (resume k out s) = ov_call s" "\<forall>cid sig. e \<noteq> Live cid sig \<Longrightarrow> ov_call (mounted_step s e) = ov_call s"
  "ov_call (peer_state st s) = ov_call s"
  using advances_resume [OF advances_refl] advances_mounted [OF advances_refl] advance.inv_peer [OF advances_refl]
  by (auto simp: advances_def)

lemma final_resume:
  assumes "final_inv s" and taken: "take_task i (ov_tasks s) = Some (k, rest)"
  shows "final_inv (resume k out (s\<lparr>ov_tasks := rest\<rparr>))"
proof -
  have "k \<noteq> KAttach r" for r
    using assms take_task_cont [OF taken] by (auto simp: final_inv_def role_inv_def)
  then have "ov_phase (resume k out (s\<lparr>ov_tasks := rest\<rparr>)) = Ended"
    using assms final_dead by (intro final_phase_resume) (auto simp: final_inv_def)
  then show ?thesis
    using assms ended.inv_resume [OF _ taken] role_resume [OF _ taken] by (simp add: final_inv_def same_call)
qed

interpretation final: overlay_invariant final_inv "\<lambda>_ _. True"
proof unfold_locales
  show "final_inv s \<Longrightarrow> final_inv (s\<lparr>ov_queue := q\<rparr>)" for s q
    by (simp add: final_inv_def ended.inv_queue)
  show "final_inv s \<Longrightarrow> final_inv (handle g s)" for s g
    using final_dead [of s] ended.inv_handle [of s g] by (simp add: final_inv_def final_phase_handle role_handle)
      (auto simp: ended_inv_def handle_def handled_def)
  show "final_inv s \<Longrightarrow> \<forall>cid sig. e \<noteq> Live cid sig \<Longrightarrow> final_inv (mounted_step s e)" for s e
    using final_dead [of s] final_phase_mounted [of s e]
    by (simp add: final_inv_def same_call role_mounted ended.inv_mounted)
  show "final_inv s \<Longrightarrow> final_inv (peer_state st s)" for s st
    using final_dead [of s] by (simp add: peer_state_def)
  show "final_inv s \<Longrightarrow> final_inv (fx (Post (DoIce c)) s)" for s c
    by (simp add: final_inv_def ended.inv_candidate) (simp add: fx_def)
qed (simp add: final_resume)

section \<open>An overlay that is gone is dead\<close>

definition gone_inv :: "overlay \<Rightarrow> bool" where
  "gone_inv s \<longleftrightarrow> (\<not> ov_mounted s \<longrightarrow> ov_dead s)"

interpretation gone: overlay_invariant gone_inv "\<lambda>_ _. True"
proof unfold_locales
  show "gone_inv s \<Longrightarrow> gone_inv (resume k out (s\<lparr>ov_tasks := rest\<rparr>))" for s k rest out
    by (cases k) (auto simp: gone_inv_def overlay_unfold split: overlay_splits)
  show "gone_inv s \<Longrightarrow> \<forall>cid sig. e \<noteq> Live cid sig \<Longrightarrow> gone_inv (mounted_step s e)" for s e
    by (cases e) (auto simp: gone_inv_def overlay_unfold split: overlay_splits)
qed (auto simp: gone_inv_def overlay_unfold split: overlay_splits)

section \<open>Every connection opened is closed\<close>

definition balanced :: "overlay \<Rightarrow> bool" where
  "balanced s \<longleftrightarrow> count_list (ov_log s) NewPeer
     = count_list (ov_log s) ClosePeer + (if ov_peer s = None then 0 else 1)"

lemma balanced_frame [simp]:
  "balanced (s\<lparr>ov_phase := ph\<rparr>) = balanced s"
  "balanced (s\<lparr>ov_status := m\<rparr>) = balanced s"
  "balanced (s\<lparr>ov_videoOn := b\<rparr>) = balanced s"
  "balanced (s\<lparr>ov_muted := b\<rparr>) = balanced s"
  "balanced (s\<lparr>ov_remoteVideoOn := b\<rparr>) = balanced s"
  "balanced (s\<lparr>ov_position := pos\<rparr>) = balanced s"
  "balanced (s\<lparr>ov_facing := fc\<rparr>) = balanced s"
  "balanced (s\<lparr>ov_localRatio := r\<rparr>) = balanced s"
  "balanced (s\<lparr>ov_stream := st\<rparr>) = balanced s"
  "balanced (s\<lparr>ov_sender := b\<rparr>) = balanced s"
  "balanced (s\<lparr>ov_pending := cs\<rparr>) = balanced s"
  "balanced (s\<lparr>ov_dead := b\<rparr>) = balanced s"
  "balanced (s\<lparr>ov_started := b\<rparr>) = balanced s"
  "balanced (s\<lparr>ov_callPhase := ph\<rparr>) = balanced s"
  "balanced (s\<lparr>ov_camera := cam\<rparr>) = balanced s"
  "balanced (s\<lparr>ov_mounted := b\<rparr>) = balanced s"
  "balanced (s\<lparr>ov_devices := d\<rparr>) = balanced s"
  "balanced (s\<lparr>ov_tasks := ts\<rparr>) = balanced s"
  "balanced (s\<lparr>ov_queue := q\<rparr>) = balanced s"
  "balanced (s\<lparr>ov_handling := b\<rparr>) = balanced s"
  "balanced (s\<lparr>ov_received := cs\<rparr>) = balanced s"
  "f \<noteq> NewPeer \<Longrightarrow> f \<noteq> ClosePeer \<Longrightarrow> balanced (fx f s) = balanced s"
  "balanced (await k s) = balanced s" "balanced (mark_remote s) = balanced s"
  by (auto simp: balanced_def fx_def await_def mark_remote_def)

lemma balanced_cleanup: "balanced s \<Longrightarrow> balanced (cleanup s)"
  by (auto simp: balanced_def)

lemma balanced_return: "balanced s \<Longrightarrow> balanced (setup_return r s)"
  by (cases r) (simp_all add: handled_def split: option.split)

lemma balanced_connect:
  assumes "balanced s" and "count_list (ov_log s) NewPeer = 0"
  shows "balanced (setup_connect r s)"
proof -
  have "balanced (fx NewPeer (s\<lparr>ov_peer := Some p\<rparr>))" for p
    using assms by (auto simp: balanced_def fx_def split: if_splits)
  then show ?thesis
    using assms by (simp add: setup_connect_def setup_catch_def setup_finish_def Let_def balanced_return)
qed

lemma balanced_microphone:
  "balanced s \<Longrightarrow> count_list (ov_log s) NewPeer = 0 \<Longrightarrow> balanced (got_microphone r s)"
  by (simp add: got_microphone_def Let_def balanced_return balanced_connect split: prod.split)

lemma balanced_camera:
  "balanced s \<Longrightarrow> count_list (ov_log s) NewPeer = 0 \<Longrightarrow> balanced (got_camera r env s)"
  by (simp add: got_camera_def setup_catch_def balanced_return balanced_connect split: prod.split option.split)

lemma balanced_call: "balanced s \<Longrightarrow> balanced (setup_call r s)"
  by (simp add: setup_call_def balanced_return)

lemma balanced_handle: "balanced s \<Longrightarrow> balanced (handle g s)"
  by (cases g) (auto simp: handle_def overlay_end_defs Let_def balanced_call balanced_cleanup split: option.split)

lemma balanced_ice: "balanced s \<Longrightarrow> balanced (answer_ice cs s)" "balanced s \<Longrightarrow> balanced (offerer_ice cs s)"
  by (cases cs; auto simp: overlay_end_defs balanced_cleanup split: option.split)+

lemma balanced_new_camera:
  "balanced s \<Longrightarrow> (\<And>s. balanced s \<Longrightarrow> balanced (catch s)) \<Longrightarrow> balanced (got_new_camera k catch out s)"
  by (auto simp: got_new_camera_def split: outcome.split prod.split option.split)

lemma balanced_resume:
  assumes "setup_inv s" and "balanced s" and taken: "take_task i (ov_tasks s) = Some (k, rest)"
  shows "balanced (resume k out (s\<lparr>ov_tasks := rest\<rparr>))"
proof -
  have len: "length (tasks_of setup_flow (ov_tasks s)) \<le> 1" using assms by (simp add: setup_inv_def)
  have flow: "setup_flow k \<Longrightarrow> flow_ok (ov_stream s) (ov_camera s) (count_list (ov_log s) NewPeer) k"
    using take_task_single(1) [OF taken len] assms(1) by (auto simp: setup_inv_def)
  then show ?thesis
    using assms(2)
    by (cases k) (auto simp: resume_def overlay_end_defs setup_catch_def setup_finish_def video_done_def
        video_catch_def flip_catch_def drop_video_def stop_camera_def use_camera_def Let_def
        intro!: balanced_microphone balanced_camera balanced_return balanced_cleanup balanced_ice
        balanced_new_camera split: outcome.split option.split)
qed

lemma balanced_mounted:
  "balanced s \<Longrightarrow> (\<forall>cid sig. e \<noteq> Live cid sig) \<Longrightarrow> balanced (mounted_step s e)"
  by (cases e) (auto simp: overlay_end_defs toggle_mute_def toggle_video_def switch_camera_def
      intro!: balanced_cleanup balanced_call)

interpretation balance: overlay_invariant "\<lambda>s. setup_inv s \<and> balanced s" "\<lambda>_ _. True"
proof unfold_locales
  have "balanced s \<Longrightarrow> ov_peer s = Some p \<Longrightarrow> balanced (s\<lparr>ov_peer := Some q\<rparr>)" for s p q
    by (simp add: balanced_def)
  then show "setup_inv s \<and> balanced s \<Longrightarrow> setup_inv (peer_state st s) \<and> balanced (peer_state st s)" for s st
    by (auto intro: setup_once.inv_peer)
      (auto simp: peer_state_def overlay_end_defs Let_def intro!: balanced_cleanup split: option.split)
qed (auto simp: setup_once_handle setup_once_resume setup_once_mounted balanced_handle balanced_resume balanced_mounted)

end
