(* ===== verification/Call_Overlay_Guarantees.thy ===== *)
theory Call_Overlay_Guarantees
  imports Call_Overlay_Progress
begin

text \<open>
  What the call overlay guarantees in every state it can reach, whatever the order in which
  clicks, live events, timers and settled promises arrive; and runs in which it fails to do
  what it means to.
\<close>

section \<open>Sample calls\<close>

definition sample_call :: "bool \<Rightarrow> bool \<Rightarrow> call_session" where
  "sample_call video outgoing = \<lparr>cs_id = lit ''call'', cs_connection = lit ''conn'', cs_caller = lit ''ada'',
     cs_callee = lit ''bob'', cs_name = lit ''Ada'', cs_video = video, cs_outgoing = outgoing\<rparr>"

definition sample_env :: camera_env where
  "sample_env = \<lparr>ce_native = NativeMissing, ce_context = True, ce_play = True, ce_request_frame = True\<rparr>"

text \<open>The events of a live signal of the sample call.\<close>

definition live :: "call_signal \<Rightarrow> overlay_event" where
  "live g = Live (Some (lit ''call'')) g"

lemmas sample_simps = sample_call_def sample_env_def live_def overlay_init_def



abbreviation any_event :: "overlay \<Rightarrow> overlay_event \<Rightarrow> bool" where
  "any_event \<equiv> \<lambda>_ _. True"

text \<open>A run up to the connected call, with its camera on; and the sample run of a call that ends.\<close>

definition connected_run :: "overlay_event list" where
  "connected_run = [live SigAccept, Settle 0 Done, Settle 1 (Camera sample_env), Settle 2 Done,
     Settle 3 (Sdp (lit ''offer'')), Settle 4 Done, Settle 5 Done, live (SigIce (lit ''c1'')),
     live (SigAnswer (lit ''answer'')), Settle 6 Done, Settle 7 Done, live (SigIce (lit ''c2'')),
     PeerState PcConnected, Settle 8 Done, MuteClick]"

lemma overlay_init_inv:
  "ended_inv (overlay_init call ok)" "setup_inv (overlay_init call ok)" "released (overlay_init call ok)"
  "mute_inv (overlay_init call ok)" "role_inv (overlay_init call ok)" "gone_inv (overlay_init call ok)"
  "balanced (overlay_init call ok)"
  by (simp_all add: overlay_init_def ended_inv_def setup_inv_def released_def mute_inv_def role_inv_def
      gone_inv_def balanced_def stream_tracks_def live_set_def live_track_def)

lemma sample_reachable:
  "reachable overlay_step any_event (overlay_init call ok) (run overlay_step (overlay_init call ok) es)"
  by (rule admissible_reachable) (rule admissible_True)

section \<open>Properties\<close>



text \<open>C27: While the microphone is shown as muted, every audio track of the local stream is
  disabled, and while it is not, none is; also across camera switches.\<close>

theorem overlay_mute_is_honest:
  assumes "reachable overlay_step any_event (overlay_init call ok) s" and "i \<in> set (stream_tracks s)"
    and "tk_kind (ov_devices s ! i) = Audio"
  shows "tk_enabled (ov_devices s ! i) \<longleftrightarrow> \<not> ov_muted s"
proof -
  have "setup_inv s \<and> mute_inv s"
    by (rule mute.inv_reachable [OF assms(1)]) (simp add: overlay_init_inv)
  with assms(2,3) show ?thesis by (auto simp: mute_inv_def track_ok_def)
qed

theorem overlay_mute_is_honest_witness:
  "let s = run overlay_step (overlay_init (sample_call True True) True) connected_run
   in ov_muted s \<and> \<not> tk_enabled (ov_devices s ! 0)"
proof -
  let ?s = "run overlay_step (overlay_init (sample_call True True) True) connected_run"
  have "0 \<in> set (stream_tracks ?s) \<and> tk_kind (ov_devices ?s ! 0) = Audio \<and> ov_muted ?s" by code_simp
  then show ?thesis using overlay_mute_is_honest [OF sample_reachable, of 0 "sample_call True True" True connected_run]
    by (simp add: Let_def)
qed

text \<open>A call asks for the microphone at most once and opens at most one peer connection; a
  dead call has closed every connection it opened, and a live one has none closed.\<close>

theorem overlay_one_connection:
  assumes "reachable overlay_step any_event (overlay_init call ok) s"
  shows "count_list (ov_log s) AskMicrophone \<le> 1 \<and> count_list (ov_log s) NewPeer \<le> 1
   \<and> count_list (ov_log s) NewPeer = count_list (ov_log s) ClosePeer + (if ov_peer s = None then 0 else 1)
   \<and> (ov_dead s \<longrightarrow> ov_peer s = None)"
proof -
  have "setup_inv s \<and> balanced s" by (rule balance.inv_reachable [OF assms]) (simp add: overlay_init_inv)
  moreover have "ended_inv s" by (rule ended.inv_reachable [OF assms]) (simp add: overlay_init_inv)
  ultimately show ?thesis by (auto simp: setup_inv_def balanced_def ended_inv_def)
qed

theorem overlay_one_connection_witness:
  "let s = run overlay_step (overlay_init (sample_call True True) True) (connected_run @ [TransportClosed])
   in count_list (ov_log s) NewPeer = 1 \<and> count_list (ov_log s) ClosePeer = 1"
proof -
  let ?s = "run overlay_step (overlay_init (sample_call True True) True) (connected_run @ [TransportClosed])"
  have "NewPeer \<in> set (ov_log ?s) \<and> ov_dead ?s" by code_simp
  moreover have "count_list (ov_log ?s) NewPeer \<noteq> 0 \<longleftrightarrow> NewPeer \<in> set (ov_log ?s)"
    by (simp add: count_list_0_iff)
  ultimately show ?thesis using overlay_one_connection [OF sample_reachable, of "sample_call True True" True
      "connected_run @ [TransportClosed]"] by (auto simp: Let_def simp del: run_append split: if_splits)
qed

text \<open>Only the caller sends an offer and only the callee sends an accept, whatever the peer and
  the user do.\<close>

theorem overlay_roles:
  assumes "reachable overlay_step any_event (overlay_init call ok) s"
  shows "(Post (DoOffer d) \<in> set (ov_log s) \<longrightarrow> cs_outgoing call)
    \<and> (Post DoAccept \<in> set (ov_log s) \<longrightarrow> \<not> cs_outgoing call)"
proof -
  have "role_inv s" by (rule role.inv_reachable [OF assms]) (simp add: overlay_init_inv)
  moreover have "ov_call s = call"
    using progress.le_reachable [OF assms] by (simp add: advances_def overlay_init_def)
  ultimately show ?thesis by (auto simp: role_inv_def)
qed

theorem overlay_roles_witness:
  "Post (DoOffer (lit ''offer'')) \<in> set (ov_log (run overlay_step (overlay_init (sample_call True True) True) connected_run))
   \<and> Post DoAccept \<notin> set (ov_log (run overlay_step (overlay_init (sample_call True True) True) connected_run))"
proof -
  have "Post (DoOffer (lit ''offer'')) \<in> set (ov_log (run overlay_step (overlay_init (sample_call True True) True) connected_run))"
    by code_simp
  then show ?thesis
    using overlay_roles [OF sample_reachable, of "lit ''offer''" "sample_call True True" True connected_run] by blast
qed



text \<open>C5: No call hangs: once the 44 s ring timer and, later, the 90 s connection timer have fired,
  whatever happened before, between and after the first, the call is dead or its connection is up.\<close>

theorem overlay_time_limits:
  "let s = run overlay_step (overlay_init call ok) (before @ RingTimeout # between @ [ConnectTimeout])
   in ov_dead s \<or> peer_connected s"
proof -
  define s1 where "s1 = run overlay_step (overlay_init call ok) before"
  define s2 where "s2 = overlay_step s1 RingTimeout"
  define s3 where "s3 = run overlay_step s2 between"
  have gone: "gone_inv (run overlay_step (overlay_init call ok) es)" for es
    by (rule gone.inv_run [OF overlay_init_inv(6) admissible_True])
  have "gone_inv s1" and "gone_inv s3"
    using gone [of before] gone [of "before @ RingTimeout # between"] by (simp_all add: s1_def s2_def s3_def)
  moreover from this(1) have "ov_dead s2 \<or> ov_callPhase s2 \<noteq> Ringing"
    by (auto simp: s2_def gone_inv_def finish_def fx_def)
  moreover have "advances s2 s3"
    unfolding s3_def by (rule progress.le_run [OF admissible_True])
  ultimately have "ov_dead (overlay_step s3 ConnectTimeout) \<or> peer_connected (overlay_step s3 ConnectTimeout)"
    by (auto simp: advances_def gone_inv_def end_with_def)
  then show ?thesis by (simp add: Let_def s1_def s2_def s3_def)
qed

text \<open>An incoming call whose overlay shows the call as ended is over for good: whatever arrives
  later, the phase stays ended, the call stays dead and no connection appears.\<close>

theorem overlay_incoming_end_is_final:
  assumes "reachable overlay_step any_event (overlay_init call ok) s" and "\<not> cs_outgoing call"
    and "ov_phase s = Ended"
  shows "let t = run overlay_step s es in ov_phase t = Ended \<and> ov_dead t \<and> ov_peer t = None"
proof -
  have "role_inv s" "ended_inv s"
    using role.inv_reachable [OF assms(1)] ended.inv_reachable [OF assms(1)] by (simp_all add: overlay_init_inv)
  moreover have "ov_call s = call"
    using progress.le_reachable [OF assms(1)] by (simp add: advances_def overlay_init_def)
  ultimately have "final_inv s" using assms(2,3) by (simp add: final_inv_def)
  then have "final_inv (run overlay_step s es)" by (rule final.inv_run [OF _ admissible_True])
  then show ?thesis by (simp add: Let_def final_dead) (simp add: final_inv_def)
qed

theorem overlay_incoming_end_is_final_witness:
  "ov_phase (run overlay_step (run overlay_step (overlay_init (sample_call False False) True)
     [AcceptClick, live SigEnd]) [Settle 0 Done, live (SigOffer (lit ''offer''))]) = Ended"
proof -
  have "\<not> cs_outgoing (sample_call False False)"
    "ov_phase (run overlay_step (overlay_init (sample_call False False) True) [AcceptClick, live SigEnd]) = Ended"
    by code_simp+
  then show ?thesis
    using overlay_incoming_end_is_final [OF sample_reachable, of "sample_call False False" True
        "[AcceptClick, live SigEnd]" "[Settle 0 Done, live (SigOffer (lit ''offer''))]"] by (simp add: Let_def)
qed

text \<open>C28: Wherever the preview is dragged, it stays on the surface and above the call controls: its left
  edge and top are not negative, and where it fits at all its right edge and, 110 pixels above the
  bottom, its lower edge do not leave the surface.\<close>

theorem drag_keeps_preview_visible:
  assumes "0 < bx_width bounds" and "0 < bx_height bounds"
    and "drag_position bounds dock px py = (x, y)"
  shows "0 \<le> x \<and> 0 \<le> y
    \<and> (bx_width dock \<le> bx_width bounds \<longrightarrow> x * bx_width bounds + bx_width dock \<le> bx_width bounds)
    \<and> (bx_height dock + 110 \<le> bx_height bounds \<longrightarrow>
         y * bx_height bounds + bx_height dock + 110 \<le> bx_height bounds)"
proof -
  have fits: "clamp (h / w) v * w \<le> h" if "0 < w" "0 \<le> h" for h w v :: rat
  proof -
    have "clamp (h / w) v \<le> h / w" using that by (simp add: clamp_def)
    then have "clamp (h / w) v * w \<le> h / w * w" using that(1) by (intro mult_right_mono) auto
    then show ?thesis using that(1) by simp
  qed
  have nonneg: "0 \<le> clamp h v" for h v by (simp add: clamp_def)
  obtain u v where x: "x = clamp ((bx_width bounds - bx_width dock) / bx_width bounds) u"
    and y: "y = clamp ((bx_height bounds - bx_height dock - 110) / bx_height bounds) v"
    using assms(3) unfolding drag_position_def by blast
  have "x * bx_width bounds \<le> bx_width bounds - bx_width dock" if "bx_width dock \<le> bx_width bounds"
    unfolding x using fits assms(1) that by simp
  moreover have "y * bx_height bounds \<le> bx_height bounds - bx_height dock - 110"
    if "bx_height dock + 110 \<le> bx_height bounds"
    unfolding y using fits assms(2) that by simp
  moreover have "0 \<le> x" "0 \<le> y" unfolding x y by (rule nonneg)+
  ultimately show ?thesis by (simp add: algebra_simps)
qed

theorem drag_keeps_preview_visible_witness:
  "drag_position \<lparr>bx_left = 0, bx_top = 0, bx_width = 400, bx_height = 800\<rparr>
     \<lparr>bx_left = 10, bx_top = 10, bx_width = 120, bx_height = 160\<rparr> 1000 1000 = (7 / 10, 53 / 80)
   \<and> 7 / 10 * 400 + 120 \<le> (400 :: rat) \<and> 53 / 80 * 800 + 160 + 110 \<le> (800 :: rat)"
proof -
  let ?surface = "\<lparr>bx_left = 0, bx_top = 0, bx_width = 400, bx_height = 800\<rparr>"
  let ?dock = "\<lparr>bx_left = 10, bx_top = 10, bx_width = 120, bx_height = 160\<rparr>"
  have eq: "drag_position ?surface ?dock 1000 1000 = (7 / 10, 53 / 80)"
    by (simp add: drag_position_def clamp_def)
  have "0 < bx_width ?surface" "0 < bx_height ?surface" by simp_all
  from drag_keeps_preview_visible [OF this eq] eq show ?thesis by simp
qed

section \<open>Runs that go wrong\<close>

text \<open>Hanging up while \<open>switchCamera\<close> waits for \<open>replaceTrack\<close>: nothing stops the new camera. It
  is on when the overlay closes (both of its tracks), and still on if \<open>replaceTrack\<close> resolves later.\<close>

definition flip_then_hang_up :: "overlay_event list" where
  "flip_then_hang_up = [live SigAccept, Settle 0 Done, Settle 1 (Camera sample_env), Settle 2 Done,
     FlipClick, Settle 4 (Camera sample_env), EndClick]"

lemma flip_then_hang_up_leaks_camera:
  "let s = run overlay_step (overlay_init (sample_call True True) True) flip_then_hang_up
   in ov_dead s \<and> live_track (ov_devices s) 3 \<and> live_track (ov_devices s) 4 \<and> ov_camera s = None"
  "let s = run overlay_step (overlay_init (sample_call True True) True) (flip_then_hang_up @ [Unmount, Settle 5 Done])
   in ov_dead s \<and> \<not> ov_mounted s \<and> live_track (ov_devices s) 3 \<and> live_track (ov_devices s) 4"
  by code_simp+

text \<open>Pressing \<^emph>\<open>Camera on\<close> twice opens two cameras; the raw track of the first (the model's track 1)
  is not reachable any more and stays on after the call.\<close>

lemma double_camera_click_leaks_camera:
  "let s = run overlay_step (overlay_init (sample_call False True) True)
     [live SigAccept, Settle 0 Done, Settle 1 Done, VideoClick, VideoClick,
      Settle 3 (Camera sample_env), Settle 4 (Camera sample_env), Settle 5 Done, Settle 6 Done, EndClick, Unmount]
   in ov_dead s \<and> live_track (ov_devices s) 1"
  by code_simp

text \<open>Pressing \<^emph>\<open>Accept\<close> twice: the second press finds \<open>started\<close> set and accepts the call before the
  microphone is there; the server's broadcast of that accept then ends the call on this very tab.\<close>

lemma double_accept_ends_own_call:
  "let s = run overlay_step (overlay_init (sample_call False False) True) [AcceptClick, AcceptClick]
   in Post DoAccept \<in> set (ov_log s) \<and> ov_stream s = None"
  "let s = run overlay_step (overlay_init (sample_call False False) True) [AcceptClick, AcceptClick, live SigAccept]
   in ov_dead s \<and> ov_phase s = Ended \<and> ov_status s = lit ''Answered on another tab or device.''"
  by code_simp+

end
