(* ===== verification/Call_Session.thy ===== *)
theory Call_Session
  imports Comm_Runtime Call_Overlay_Guarantees
begin

text \<open>
  The runtime and its call overlays together (\<open>runtime.tsx\<close> rendering \<open>video-call.tsx\<close>). The
  runtime mounts one \<open>CallOverlay\<close> per call (\<open>key={call.id}\<close>), hands it live events through its
  subscription, and closes it when it calls \<open>onClose\<close>. Overlays that React has unmounted stay
  in the list, because promises they started may still settle.
\<close>

section \<open>Composition\<close>

record session =
  ss_runtime :: runtime
  ss_overlays :: "overlay list"

definition payload_text :: "payload \<Rightarrow> jstr" where
  "payload_text p = (case p of Opaque j \<Rightarrow> j | _ \<Rightarrow> [])"

definition call_signal_of :: "live_event \<Rightarrow> call_signal" where
  "call_signal_of ev =
     (if has_type ev ''call.accept'' then SigAccept
      else if has_type ev ''call.end'' then SigEnd
      else if has_type ev ''call.decline'' then SigDecline
      else if has_type ev ''call.offer'' then SigOffer (payload_text (ev_payload ev))
      else if has_type ev ''call.answer'' then SigAnswer (payload_text (ev_payload ev))
      else if has_type ev ''call.ice'' then SigIce (payload_text (ev_payload ev))
      else if has_type ev ''call.media'' then SigMedia (case ev_payload ev of NoPayload \<Rightarrow> None
          | Opaque _ \<Rightarrow> Some False | MediaFlag b \<Rightarrow> Some b)
      else SigOther)"

definition overlay_event_of :: "live_event \<Rightarrow> overlay_event" where
  "overlay_event_of ev = (if has_type ev ''transport.closed'' then TransportClosed
     else Live (map_option cs_id (ev_call ev)) (call_signal_of ev))"

text \<open>One event of overlay \<open>i\<close>; when it calls \<open>onClose\<close>, the runtime forgets the open call.\<close>

definition asks_close :: "overlay \<Rightarrow> overlay \<Rightarrow> bool" where
  "asks_close v v' \<longleftrightarrow> CloseOverlay \<in> set (drop (length (ov_log v)) (ov_log v'))"

definition overlay_apply :: "nat \<Rightarrow> overlay_event \<Rightarrow> session \<Rightarrow> session" where
  "overlay_apply i e s =
     (if i < length (ss_overlays s) then
        let v = ss_overlays s ! i; v' = overlay_step v e in
        s\<lparr>ss_overlays := (ss_overlays s)[i := v'],
          ss_runtime := (if asks_close v v' then runtime_step (ss_runtime s) CloseCall else ss_runtime s)\<rparr>
      else s)"

fun feed :: "(listener \<times> live_event) list \<Rightarrow> session \<Rightarrow> session" where
  "feed [] s = s"
| "feed ((ToOverlay i, ev) # ds) s = feed ds (overlay_apply i (overlay_event_of ev) s)"
| "feed ((ToPage _, ev) # ds) s = feed ds s"

text \<open>React's commit: an overlay whose call is not the open one is unmounted, and the open call gets
  an overlay. \<open>rtc\<close> says whether the browser accepts the ICE configuration.\<close>

definition shows_call :: "call_session option \<Rightarrow> overlay \<Rightarrow> bool" where
  "shows_call c v \<longleftrightarrow> ov_mounted v \<and> (case c of None \<Rightarrow> False | Some c \<Rightarrow> cs_id (ov_call v) = cs_id c)"

definition unmount_overlay :: "nat \<Rightarrow> session \<Rightarrow> session" where
  "unmount_overlay i s = (let s = overlay_apply i Unmount s in
     s\<lparr>ss_runtime := runtime_step (ss_runtime s) (Unsubscribe (ToOverlay i))\<rparr>)"

definition mount_overlay :: "bool \<Rightarrow> call_session \<Rightarrow> session \<Rightarrow> session" where
  "mount_overlay rtc c s = s\<lparr>ss_overlays := ss_overlays s @ [overlay_init c rtc],
     ss_runtime := runtime_step (ss_runtime s) (Subscribe (ToOverlay (length (ss_overlays s))))\<rparr>"

definition current :: "session \<Rightarrow> overlay option" where
  "current s = (if ss_overlays s = [] then None
     else let v = last (ss_overlays s) in if ov_mounted v then Some v else None)"

definition render_call :: "bool \<Rightarrow> session \<Rightarrow> session" where
  "render_call rtc s =
     (let c = rt_call (ss_runtime s); n = length (ss_overlays s);
          keep = (case current s of None \<Rightarrow> False | Some v \<Rightarrow> shows_call c v);
          s = (if current s \<noteq> None \<and> \<not> keep then unmount_overlay (n - 1) s else s)
      in case c of None \<Rightarrow> s | Some c \<Rightarrow> if keep then s else mount_overlay rtc c s)"

datatype session_event = Page rt_event | Overlay nat overlay_event | Rendered bool

definition runtime_apply :: "rt_event \<Rightarrow> session \<Rightarrow> session" where
  "runtime_apply e s =
     (let r = ss_runtime s; r' = runtime_step r e
      in feed (delivered (drop (length (rt_log r)) (rt_log r'))) (s\<lparr>ss_runtime := r'\<rparr>))"

fun session_step :: "session \<Rightarrow> session_event \<Rightarrow> session" where
  "session_step s (Page e) = runtime_apply e s"
| "session_step s (Overlay i e) = overlay_apply i e s"
| "session_step s (Rendered rtc) = runtime_apply Commit (render_call rtc s)"

definition session_init :: "bool \<Rightarrow> bool \<Rightarrow> session" where
  "session_init auth dark = \<lparr>ss_runtime = runtime_init auth dark, ss_overlays = []\<rparr>"

text \<open>Live events, the loss of the transport and unmounting reach an overlay only through the runtime;
  its subscriptions are its own.\<close>

fun session_ok :: "session \<Rightarrow> session_event \<Rightarrow> bool" where
  "session_ok s (Overlay i e) = (case e of Live _ _ \<Rightarrow> False | TransportClosed \<Rightarrow> False | Unmount \<Rightarrow> False | _ \<Rightarrow> True)"
| "session_ok s (Page e) = (case e of Subscribe (ToOverlay _) \<Rightarrow> False | Unsubscribe (ToOverlay _) \<Rightarrow> False
     | Commit \<Rightarrow> False | _ \<Rightarrow> True)"
| "session_ok s (Rendered rtc) = True"


section \<open>Invariants of single overlays\<close>

lemma ss_overlays_runtime [simp]: "ss_overlays (s\<lparr>ss_runtime := r\<rparr>) = ss_overlays s"
  by simp

text \<open>What holds of a fresh overlay and is kept by its events holds of every overlay of a session.\<close>

locale overlay_family = machine overlay_step okv inv
  for okv :: "overlay \<Rightarrow> overlay_event \<Rightarrow> bool" and inv :: "overlay \<Rightarrow> bool" +
  assumes inv_fresh: "inv (overlay_init call rtc)"
    and ok_live: "okv v (Live cid g)" and ok_closed: "okv v TransportClosed" and ok_unmount: "okv v Unmount"
begin

definition all_inv :: "session \<Rightarrow> bool" where
  "all_inv s \<longleftrightarrow> (\<forall>v \<in> set (ss_overlays s). inv v)"

fun ok_session :: "session \<Rightarrow> session_event \<Rightarrow> bool" where
  "ok_session s (Overlay i e) = (\<forall>v. okv v e)"
| "ok_session s _ = True"

lemma all_apply:
  assumes "all_inv s" and "\<And>v. okv v e"
  shows "all_inv (overlay_apply i e s)"
proof -
  have "inv (overlay_step (ss_overlays s ! i) e)" if "i < length (ss_overlays s)"
    using assms that by (intro inv_step) (auto simp: all_inv_def)
  then show ?thesis using assms(1)
    by (auto simp: all_inv_def overlay_apply_def Let_def dest!: subsetD [OF set_update_subset_insert])
qed

lemma all_feed: "all_inv s \<Longrightarrow> all_inv (feed ds s)"
proof (induction ds s rule: feed.induct)
  case (2 i ev ds s)
  have "okv v (overlay_event_of ev)" for v by (simp add: overlay_event_of_def ok_live ok_closed)
  with 2 show ?case by (simp add: all_apply)
qed simp_all

lemma all_runtime: "all_inv s \<Longrightarrow> all_inv (runtime_apply e s)"
  by (simp add: runtime_apply_def Let_def) (rule all_feed, simp add: all_inv_def)

lemma all_render: "all_inv s \<Longrightarrow> all_inv (render_call rtc s)"
proof -
  have un: "all_inv s \<Longrightarrow> all_inv (unmount_overlay i s)" for s i
    using all_apply [OF _ ok_unmount] by (auto simp: unmount_overlay_def all_inv_def Let_def)
  have mo: "all_inv s \<Longrightarrow> all_inv (mount_overlay rtc c s)" for s c
    by (simp add: mount_overlay_def all_inv_def inv_fresh)
  assume "all_inv s"
  with un [of s] mo show ?thesis unfolding render_call_def Let_def by (simp split: option.split)
qed

sublocale family: machine session_step ok_session all_inv
proof
  fix s e assume "all_inv s" and "ok_session s e"
  then show "all_inv (session_step s e)"
    by (cases e) (simp_all add: all_apply all_runtime all_render)
qed

end

text \<open>Only \<open>Unmount\<close> unmounts an overlay, and nothing changes its call.\<close>

definition still_mounted :: "bool \<Rightarrow> overlay \<Rightarrow> bool" where
  "still_mounted b v \<longleftrightarrow> ov_mounted v = b"

interpretation still: overlay_invariant "still_mounted b" "\<lambda>_ e. e \<noteq> Unmount" for b
proof unfold_locales
  show "still_mounted b v \<Longrightarrow> still_mounted b (resume k out (v\<lparr>ov_tasks := rest\<rparr>))" for v k rest out
    by (cases k) (auto simp: still_mounted_def overlay_unfold split: overlay_splits)
  show "still_mounted b v \<Longrightarrow> e \<noteq> Unmount \<Longrightarrow> \<forall>cid sig. e \<noteq> Live cid sig \<Longrightarrow> still_mounted b (mounted_step v e)" for v e
    by (cases e) (auto simp: still_mounted_def overlay_unfold split: overlay_splits)
qed (auto simp: still_mounted_def overlay_unfold split: overlay_splits)

lemma mounted_frame: "e \<noteq> Unmount \<Longrightarrow> ov_mounted (overlay_step v e) = ov_mounted v"
  using still.inv_overlay_step [of "ov_mounted v" v e] by (simp add: still_mounted_def)

lemma unmounted [simp]: "\<not> ov_mounted (overlay_step v Unmount)"
  by (simp add: fx_def)

lemma call_kept [simp]: "ov_call (overlay_step v e) = ov_call v"
  using progress.le_step [of v e] by (simp add: advances_def)

lemma unmounted_is_dead: "gone_inv v \<Longrightarrow> ov_mounted v \<Longrightarrow> ov_dead (overlay_step v Unmount)"
  by (simp add: gone_inv_def)

interpretation gone_family: overlay_family "\<lambda>_ _. True" gone_inv
  by unfold_locales (simp_all add: overlay_init_inv gone.inv_overlay_step)

text \<open>Every overlay of a session behaves as the overlay does alone.\<close>

definition reached :: "(overlay \<Rightarrow> overlay_event \<Rightarrow> bool) \<Rightarrow> overlay \<Rightarrow> bool" where
  "reached okv v \<longleftrightarrow> (\<exists>call rtc. reachable overlay_step okv (overlay_init call rtc) v)"

lemma reached_fresh: "reached okv (overlay_init call rtc)"
  by (auto simp: reached_def intro: reachable.start)

lemma reached_step: "reached okv v \<Longrightarrow> okv v e \<Longrightarrow> reached okv (overlay_step v e)"
  by (auto simp: reached_def intro: reachable.event simp del: overlay_step.simps)

interpretation alone: overlay_family "\<lambda>_ _. True" "reached (\<lambda>_ _. True)"
  by unfold_locales (simp_all add: reached_fresh reached_step del: overlay_step.simps)

interpretation quiet: overlay_family no_camera_click "reached no_camera_click"
  by unfold_locales (simp_all add: reached_fresh reached_step no_camera_click_def del: overlay_step.simps)

section \<open>One overlay at a time\<close>

text \<open>What the invariant depends on.\<close>

definition shape :: "session \<Rightarrow> bool list \<times> jstr list \<times> listener list \<times> call_session option" where
  "shape s = (map ov_mounted (ss_overlays s), map (\<lambda>v. cs_id (ov_call v)) (ss_overlays s),
     rt_listeners (ss_runtime s), rt_activeCall (ss_runtime s))"

definition slots_of :: "bool list \<Rightarrow> listener list \<Rightarrow> bool" where
  "slots_of ms ls \<longleftrightarrow> (\<forall>i < length ms. ms ! i \<longrightarrow> Suc i = length ms)
     \<and> (\<forall>i. ToOverlay i \<in> set ls \<longleftrightarrow> i < length ms \<and> ms ! i) \<and> distinct ls"

definition synced :: "bool list \<Rightarrow> jstr list \<Rightarrow> call_session option \<Rightarrow> bool" where
  "synced ms ids c \<longleftrightarrow> (case c of None \<Rightarrow> True \<notin> set ms
     | Some c \<Rightarrow> ms \<noteq> [] \<and> last ms \<and> last ids = cs_id c)"

definition slots_inv :: "session \<Rightarrow> bool" where
  "slots_inv s \<longleftrightarrow> (case shape s of (ms, ids, ls, c) \<Rightarrow> slots_of ms ls \<and> synced ms ids c)"

lemma slots_cong: "shape s = shape t \<Longrightarrow> slots_inv s = slots_inv t"
  by (simp add: slots_inv_def)

lemma shape_apply: "e \<noteq> Unmount \<Longrightarrow> shape (overlay_apply i e s) = shape s"
  by (auto simp: shape_def overlay_apply_def Let_def mounted_frame map_update list_update_same_conv)

lemma shape_feed: "shape (feed ds s) = shape s"
proof (induction ds s rule: feed.induct)
  case (2 i ev ds s)
  have "overlay_event_of ev \<noteq> Unmount" by (simp add: overlay_event_of_def)
  with 2 show ?case by (simp add: shape_apply)
qed simp_all

text \<open>The runtime's own events leave the subscriptions of overlays and the committed call alone.\<close>

lemma listeners_parts [simp]:
  "rt_listeners (rt_do f r) = rt_listeners r" "rt_listeners (rt_await k r) = rt_listeners r"
  "rt_listeners (deliver ev r) = rt_listeners r" "rt_listeners (connect r) = rt_listeners r"
  "rt_activeCall (connect r) = rt_activeCall r"
  by (simp_all add: rt_do_def rt_await_def deliver_def connect_def)

lemma listeners_on_event [simp]: "rt_listeners (on_event env ev r) = rt_listeners r"
  by (simp add: on_event_def activity_step_def ready_step_def on_ready_def)

lemma listeners_resume [simp]: "rt_listeners (rt_resume k out r) = rt_listeners r"
  by (cases k) (auto split: rt_outcome.split)

lemma runtime_frame:
  assumes "\<forall>l. e \<noteq> Subscribe l \<and> e \<noteq> Unsubscribe l" and "e \<noteq> Commit"
  shows "rt_listeners (runtime_step r e) = rt_listeners r \<and> rt_activeCall (runtime_step r e) = rt_activeCall r"
  using assms by (cases e) (auto simp: on_close_def start_call_def save_settings_def refresh_notices_def Let_def
      resume_call on_event_call split: option.split)

lemma slots_unmount:
  assumes "slots_of ms ls" and "ms \<noteq> []"
  shows "slots_of (ms[length ms - 1 := False]) (filter (\<lambda>x. x \<noteq> ToOverlay (length ms - 1)) ls)
    \<and> True \<notin> set (ms[length ms - 1 := False])"
  using assms by (auto simp: slots_of_def nth_list_update in_set_conv_nth split: if_splits)

lemma slots_mount:
  "slots_of ms ls \<Longrightarrow> True \<notin> set ms \<Longrightarrow> slots_of (ms @ [True]) (ls @ [ToOverlay (length ms)])"
  by (auto simp: slots_of_def nth_append less_Suc_eq) (auto simp: in_set_conv_nth)

lemma slots_none_mounted:
  assumes "slots_of ms ls" and "ms \<noteq> [] \<Longrightarrow> \<not> last ms"
  shows "True \<notin> set ms"
proof
  assume "True \<in> set ms"
  then obtain i where i: "i < length ms" "ms ! i" by (auto simp: in_set_conv_nth)
  then have "i = length ms - 1" using assms(1) by (auto simp: slots_of_def)
  moreover have "ms \<noteq> []" using i by auto
  ultimately show False using i assms(2) by (simp add: last_conv_nth)
qed

lemma current_cases:
  "(case current s of None \<Rightarrow> ss_overlays s \<noteq> [] \<longrightarrow> \<not> ov_mounted (last (ss_overlays s))
    | Some v \<Rightarrow> ss_overlays s \<noteq> [] \<and> v = last (ss_overlays s) \<and> ov_mounted v)"
  by (simp add: current_def Let_def)

lemma unmount_asks_nothing: "\<not> asks_close v (overlay_step v Unmount)"
  by (auto simp: asks_close_def fx_def)

lemma unmount_shape:
  assumes "i < length (ss_overlays s)" and "shape s = (ms, ids, ls, c)"
  shows "shape (unmount_overlay i s) = (ms[i := False], ids, filter (\<lambda>x. x \<noteq> ToOverlay i) ls, c)"
    and "rt_call (ss_runtime (unmount_overlay i s)) = rt_call (ss_runtime s)"
    and "length (ss_overlays (unmount_overlay i s)) = length (ss_overlays s)"
  using assms unmount_asks_nothing [of "ss_overlays s ! i"] unmounted [of "ss_overlays s ! i"]
  by (auto simp: shape_def unmount_overlay_def overlay_apply_def Let_def map_update list_update_same_conv
      simp del: overlay_step.simps)

lemma mount_shape:
  assumes "shape s = (ms, ids, ls, c)" and "ToOverlay (length ms) \<notin> set ls"
  shows "shape (mount_overlay rtc cl s) = (ms @ [True], ids @ [cs_id cl], ls @ [ToOverlay (length ms)], c)"
    and "rt_call (ss_runtime (mount_overlay rtc cl s)) = rt_call (ss_runtime s)"
  using assms by (auto simp: shape_def mount_overlay_def overlay_init_def)

lemma commit_shape:
  assumes "shape s = (ms, ids, ls, c)"
  shows "shape (runtime_apply Commit s) = (ms, ids, ls, rt_call (ss_runtime s))"
  using assms by (simp add: runtime_apply_def Let_def shape_def)

text \<open>The state after rendering, before the commit: what is mounted matches the open call.\<close>

lemma render_shape:
  assumes "slots_inv s"
  shows "\<exists>ms ids ls. shape (render_call rtc s) = (ms, ids, ls, rt_activeCall (ss_runtime s))
    \<and> slots_of ms ls \<and> synced ms ids (rt_call (ss_runtime (render_call rtc s)))"
proof -
  obtain ms ids ls c where sh: "shape s = (ms, ids, ls, c)" by (metis prod_cases4)
  then have slots: "slots_of ms ls" and c: "c = rt_activeCall (ss_runtime s)"
    and len: "length ms = length (ss_overlays s)" and ms: "ms = map ov_mounted (ss_overlays s)"
    and ids: "ids = map (\<lambda>v. cs_id (ov_call v)) (ss_overlays s)"
    using assms by (auto simp: slots_inv_def shape_def)
  let ?keep = "case current s of None \<Rightarrow> False | Some v \<Rightarrow> shows_call (rt_call (ss_runtime s)) v"
  define t where "t = (if current s \<noteq> None \<and> \<not> ?keep then unmount_overlay (length (ss_overlays s) - 1) s else s)"
  have render: "render_call rtc s = (case rt_call (ss_runtime s) of None \<Rightarrow> t
      | Some cl \<Rightarrow> if ?keep then t else mount_overlay rtc cl t)"
    by (simp only: render_call_def Let_def t_def)
  show ?thesis
  proof (cases ?keep)
    case True
    then obtain v cl where v: "current s = Some v" "rt_call (ss_runtime s) = Some cl" "cs_id (ov_call v) = cs_id cl"
      by (auto simp: shows_call_def split: option.splits)
    then have "ms \<noteq> []" "last ms" "last ids = cs_id cl"
      using current_cases [of s] by (auto simp: ms ids last_map)
    moreover have "render_call rtc s = s" using True v render by (simp add: t_def)
    ultimately show ?thesis using sh slots v c by (auto simp: synced_def)
  next
    case False
    obtain ms' ls' where t: "shape t = (ms', ids, ls', c)" "slots_of ms' ls'" "True \<notin> set ms'"
      "length ms' = length ms" and call: "rt_call (ss_runtime t) = rt_call (ss_runtime s)"
    proof (cases "current s")
      case None
      then have "True \<notin> set ms" using current_cases [of s]
        by (intro slots_none_mounted [OF slots]) (simp add: ms last_map)
      then show ?thesis using that [of ms ls] None sh slots by (simp add: t_def)
    next
      case (Some v)
      then have "ms \<noteq> []" using current_cases [of s] by (simp add: ms)
      then have i: "length ms - 1 < length (ss_overlays s)" by (simp flip: len)
      have "t = unmount_overlay (length ms - 1) s" using Some False len by (simp add: t_def)
      then show ?thesis
        using that [OF _ conjunct1 [OF slots_unmount [OF slots \<open>ms \<noteq> []\<close>]] conjunct2 [OF slots_unmount [OF slots \<open>ms \<noteq> []\<close>]]]
          unmount_shape [OF i sh] by simp
    qed
    show ?thesis
    proof (cases "rt_call (ss_runtime s)")
      case None
      then show ?thesis using render t call c by (auto simp: synced_def)
    next
      case (Some cl)
      have "ToOverlay (length ms') \<notin> set ls'" using t(2) by (auto simp: slots_of_def)
      note mount = mount_shape [OF t(1) this, of rtc cl]
      have "render_call rtc s = mount_overlay rtc cl t" using Some False render by simp
      then show ?thesis using mount slots_mount [OF t(2,3)] call Some c by (auto simp: synced_def)
    qed
  qed
qed

lemma slots_page:
  "slots_of ms ls \<Longrightarrow> slots_of ms (if ToPage p \<in> set ls then ls else ls @ [ToPage p])"
  "slots_of ms ls \<Longrightarrow> slots_of ms (filter (\<lambda>x. x \<noteq> ToPage p) ls)"
  by (simp_all add: slots_of_def)

lemma slots_listeners:
  assumes "slots_inv s" and "rt_activeCall r = rt_activeCall (ss_runtime s)"
    and "slots_of (map ov_mounted (ss_overlays s)) (rt_listeners r)"
  shows "slots_inv (s\<lparr>ss_runtime := r\<rparr>)"
  using assms by (simp add: slots_inv_def shape_def)

interpretation slots: machine session_step session_ok slots_inv
proof unfold_locales
  fix s e assume inv: "slots_inv s" and ok: "session_ok s e"
  show "slots_inv (session_step s e)"
  proof (cases e)
    case (Page pe)
    have "shape (runtime_apply pe s) = shape (s\<lparr>ss_runtime := runtime_step (ss_runtime s) pe\<rparr>)"
      by (simp add: runtime_apply_def Let_def shape_feed)
    moreover have "slots_inv (s\<lparr>ss_runtime := runtime_step (ss_runtime s) pe\<rparr>)"
    proof (cases "\<exists>l. pe = Subscribe l \<or> pe = Unsubscribe l")
      case True
      with ok Page obtain p where p: "pe = Subscribe (ToPage p) \<or> pe = Unsubscribe (ToPage p)"
        by (auto split: listener.splits)
      have "slots_of (map ov_mounted (ss_overlays s)) (rt_listeners (ss_runtime s))"
        using inv by (simp add: slots_inv_def shape_def)
      note page = slots_page [OF this, of p]
      from p page show ?thesis by (intro slots_listeners [OF inv]) (auto simp del: filter_True)
    next
      case False
      moreover have "pe \<noteq> Commit" using ok Page by auto
      ultimately have "shape (s\<lparr>ss_runtime := runtime_step (ss_runtime s) pe\<rparr>) = shape s"
        using runtime_frame [of pe "ss_runtime s"] by (simp add: shape_def)
      with inv show ?thesis by (simp add: slots_inv_def)
    qed
    ultimately show ?thesis using Page by (simp add: slots_inv_def)
  next
    case (Overlay i oe)
    then have "oe \<noteq> Unmount" using ok by auto
    then have "shape (overlay_apply i oe s) = shape s" by (rule shape_apply)
    with inv Overlay show ?thesis by (simp add: slots_inv_def)
  next
    case (Rendered rtc)
    with render_shape [OF inv, of rtc] commit_shape show ?thesis by (auto simp: slots_inv_def)
  qed
qed

lemma slots_init: "slots_inv (session_init auth dark)"
  by (simp add: slots_inv_def shape_def session_init_def runtime_init_def connect_def rt_do_def
      slots_of_def synced_def Let_def)

text \<open>Sessions in which nobody presses a camera button.\<close>

definition session_quiet :: "session \<Rightarrow> session_event \<Rightarrow> bool" where
  "session_quiet s e \<longleftrightarrow> session_ok s e \<and>
     (case e of Overlay _ oe \<Rightarrow> oe \<noteq> VideoClick \<and> oe \<noteq> FlipClick | _ \<Rightarrow> True)"

section \<open>Sample sessions\<close>

definition sample_ready :: live_event where
  "sample_ready = (plain_event (lit ''ready''))\<lparr>ev_user := Some (lit ''ada'')\<rparr>"

definition call_event :: "string \<Rightarrow> string \<Rightarrow> live_event" where
  "call_event t i = (plain_event (lit t))\<lparr>ev_call := Some ((sample_call False True)\<lparr>cs_id := lit i\<rparr>)\<rparr>"

definition receive :: "live_event \<Rightarrow> session_event" where
  "receive ev = Page (SocketMessage \<lparr>pe_hidden = False, pe_supported = False, pe_granted = False, pe_throws = False\<rparr> (Some ev))"

text \<open>Two invitations one after the other; the first call is declined.\<close>

definition two_calls :: "session_event list" where
  "two_calls = [receive (call_event ''call.invited'' ''c1''), Rendered True, Overlay 0 AcceptClick,
     Overlay 0 (Settle 0 Done), Overlay 0 EndClick, Rendered True,
     receive (call_event ''call.invited'' ''c2''), Rendered True]"

lemma two_calls_run:
  "admissible session_step session_quiet (session_init True False) two_calls"
  "let s = run session_step (session_init True False) two_calls in
     length (ss_overlays s) = 2 \<and> \<not> ov_dead (ss_overlays s ! 1) \<and> rt_socket (ss_runtime s)
     \<and> \<not> rt_disposed (ss_runtime s) \<and> length (ov_devices (ss_overlays s ! 0)) = 1"
  by code_simp+

definition two_calls_session :: session where
  "two_calls_session = run session_step (session_init True False) two_calls"

lemma two_calls_reachable:
  "reachable session_step session_quiet (session_init True False) two_calls_session"
  "reachable session_step session_ok (session_init True False) two_calls_session"
proof -
  show "reachable session_step session_quiet (session_init True False) two_calls_session"
    unfolding two_calls_session_def by (rule admissible_reachable [OF two_calls_run(1)])
  then show "reachable session_step session_ok (session_init True False) two_calls_session"
    by (rule reachable_mono) (simp add: session_quiet_def)
qed

lemma two_calls_facts:
  "length (ss_overlays two_calls_session) = 2" "\<not> ov_dead (ss_overlays two_calls_session ! 1)"
  "rt_socket (ss_runtime two_calls_session)" "\<not> rt_disposed (ss_runtime two_calls_session)"
  "length (ov_devices (ss_overlays two_calls_session ! 0)) = 1"
  using two_calls_run(2) unfolding two_calls_session_def [symmetric] by (simp_all add: Let_def)

section \<open>Properties\<close>

text \<open>At most the last overlay of a session is alive.\<close>

lemma dead_or_current:
  assumes "slots_inv s" and "gone_family.all_inv s" and "i < length (ss_overlays s)"
    and "\<not> ov_dead (ss_overlays s ! i)"
  shows "ov_mounted (ss_overlays s ! i) \<and> Suc i = length (ss_overlays s)
    \<and> ToOverlay i \<in> set (rt_listeners (ss_runtime s))"
proof -
  have "ov_mounted (ss_overlays s ! i)"
    using assms(2-4) by (auto simp: gone_family.all_inv_def gone_inv_def)
  then show ?thesis using assms(1,3) by (auto simp: slots_inv_def shape_def slots_of_def)
qed

lemma session_invs:
  assumes "reachable session_step session_ok (session_init auth dark) s"
  shows "slots_inv s" and "gone_family.all_inv s" and "alone.all_inv s"
proof -
  show "slots_inv s" by (rule slots.inv_reachable [OF assms slots_init])
  have any: "gone_family.ok_session t e" "alone.ok_session t e" for t e by (cases e; simp)+
  have "reachable session_step gone_family.ok_session (session_init auth dark) s"
    by (rule reachable_mono [OF assms]) (rule any)
  then show "gone_family.all_inv s"
    by (rule gone_family.family.inv_reachable) (simp add: gone_family.all_inv_def session_init_def)
  have "reachable session_step alone.ok_session (session_init auth dark) s"
    by (rule reachable_mono [OF assms]) (rule any)
  then show "alone.all_inv s"
    by (rule alone.family.inv_reachable) (simp add: alone.all_inv_def session_init_def)
qed

lemma one_live_call_aux:
  assumes "reachable session_step session_ok (session_init auth dark) s"
    and "i < length (ss_overlays s)" and "\<not> ov_dead (ss_overlays s ! i)"
  shows "Suc i = length (ss_overlays s) \<and> ov_mounted (ss_overlays s ! i)
    \<and> ToOverlay i \<in> set (rt_listeners (ss_runtime s))
    \<and> (\<exists>c. rt_activeCall (ss_runtime s) = Some c \<and> cs_id c = cs_id (ov_call (ss_overlays s ! i)))"
proof -
  note invs = session_invs [OF assms(1)]
  note cur = dead_or_current [OF invs(1,2) assms(2,3)]
  have "synced (map ov_mounted (ss_overlays s)) (map (\<lambda>v. cs_id (ov_call v)) (ss_overlays s)) (rt_activeCall (ss_runtime s))"
    using invs(1) by (simp add: slots_inv_def shape_def)
  moreover have ne: "ss_overlays s \<noteq> []" using assms(2) by auto
  moreover have "i = length (ss_overlays s) - 1" using cur by linarith
  then have "ss_overlays s ! i = last (ss_overlays s)" by (simp add: last_conv_nth ne)
  ultimately have "\<exists>c. rt_activeCall (ss_runtime s) = Some c \<and> cs_id c = cs_id (ov_call (ss_overlays s ! i))"
    using cur by (auto simp: synced_def last_map image_iff split: option.splits)
  with cur show ?thesis by simp
qed

text \<open>C12: However calls come and go, at most one call of the page is alive at a time: it is the one React
  shows last, it is mounted, it receives the live events, and it is the committed open call.\<close>

theorem one_live_call:
  assumes "reachable session_step session_ok (session_init auth dark) s"
    and "i < length (ss_overlays s)" and "\<not> ov_dead (ss_overlays s ! i)"
  shows "Suc i = length (ss_overlays s) \<and> ov_mounted (ss_overlays s ! i)
    \<and> ToOverlay i \<in> set (rt_listeners (ss_runtime s))
    \<and> (\<exists>c. rt_activeCall (ss_runtime s) = Some c \<and> cs_id c = cs_id (ov_call (ss_overlays s ! i)))"
  using assms by (rule one_live_call_aux)

theorem one_live_call_witness:
  "ov_mounted (ss_overlays two_calls_session ! 1) \<and> ToOverlay 1 \<in> set (rt_listeners (ss_runtime two_calls_session))"
  using one_live_call [OF two_calls_reachable(2), of 1] two_calls_facts by simp

lemma dead_kept: "ov_dead v \<Longrightarrow> ov_dead (overlay_step v e)"
  using progress.le_step [of v e] by (simp add: advances_def)

lemma feed_closes:
  assumes "i < length (ss_overlays s)"
    and "ov_dead (ss_overlays s ! i) \<or> ov_mounted (ss_overlays s ! i) \<and> (ToOverlay i, ev) \<in> set ds"
    and "overlay_event_of ev = TransportClosed"
  shows "ov_dead (ss_overlays (feed ds s) ! i)"
  using assms(1,2)
proof (induction ds s rule: feed.induct)
  case (2 j ev' ds s)
  let ?t = "overlay_apply j (overlay_event_of ev') s"
  have ev': "overlay_event_of ev' \<noteq> Unmount" by (simp add: overlay_event_of_def)
  have "ov_dead (overlay_step v TransportClosed)" if "ov_mounted v" for v
    using that by (simp add: end_with_def)
  then have "ov_dead (ss_overlays ?t ! i) \<or> ov_mounted (ss_overlays ?t ! i) \<and> (ToOverlay i, ev) \<in> set ds"
    using 2(2,3) assms(3) dead_kept mounted_frame [OF ev']
    by (auto simp: overlay_apply_def Let_def nth_list_update simp del: overlay_step.simps)
  moreover have "i < length (ss_overlays ?t)" using 2(2) by (simp add: overlay_apply_def Let_def)
  ultimately show ?case using 2(1) by simp
qed auto

lemma length_apply [simp]: "length (ss_overlays (overlay_apply i e s)) = length (ss_overlays s)"
  by (simp add: overlay_apply_def Let_def)

lemma length_feed [simp]: "length (ss_overlays (feed ds s)) = length (ss_overlays s)"
  by (induction ds s rule: feed.induct) simp_all

text \<open>C15: When the event socket is lost, every call of the page is dead at once; in particular the one
  that was live.\<close>

theorem lost_connection_ends_calls:
  assumes "reachable session_step session_ok (session_init auth dark) s"
    and "rt_socket (ss_runtime s)" and "\<not> rt_disposed (ss_runtime s)"
    and "v \<in> set (ss_overlays (session_step s (Page SocketClosed)))"
  shows "ov_dead v"
proof -
  let ?r = "ss_runtime s" and ?ev = "plain_event (lit ''transport.closed'')"
  let ?t = "s\<lparr>ss_runtime := runtime_step ?r SocketClosed\<rparr>"
  let ?ds = "map (\<lambda>l. (l, ?ev)) (rt_listeners ?r)"
  note invs = session_invs [OF assms(1)]
  have "rt_log (runtime_step ?r SocketClosed) = rt_log ?r @ map (\<lambda>l. Deliver l ?ev) (rt_listeners ?r)"
    using assms(2,3) by (simp add: on_close_def deliver_def Let_def)
  then have step: "session_step s (Page SocketClosed) = feed ?ds ?t"
    by (simp add: runtime_apply_def Let_def del: runtime_step.simps)
  then obtain i where i: "i < length (ss_overlays s)" "v = ss_overlays (feed ?ds ?t) ! i"
    using assms(4) by (auto simp: in_set_conv_nth)
  have "overlay_event_of ?ev = TransportClosed" by (simp add: overlay_event_of_def has_type_def plain_event_def)
  moreover have "ov_dead (ss_overlays s ! i) \<or> ov_mounted (ss_overlays s ! i) \<and> (ToOverlay i, ?ev) \<in> set ?ds"
    using dead_or_current [OF invs(1,2) i(1)] by auto
  ultimately show ?thesis using i feed_closes [of i ?t ?ev ?ds] by simp
qed

theorem lost_connection_ends_calls_witness:
  "ov_dead (ss_overlays (session_step two_calls_session (Page SocketClosed)) ! 1)
   \<and> \<not> ov_dead (ss_overlays two_calls_session ! 1)"
proof -
  have "length (ss_overlays (session_step two_calls_session (Page SocketClosed))) = 2"
    by (simp add: runtime_apply_def Let_def two_calls_facts)
  then have "ss_overlays (session_step two_calls_session (Page SocketClosed)) ! 1
      \<in> set (ss_overlays (session_step two_calls_session (Page SocketClosed)))"
    by (intro nth_mem) simp
  from lost_connection_ends_calls [OF two_calls_reachable(2) two_calls_facts(3,4) this] two_calls_facts(2)
  show ?thesis by simp
qed



section \<open>A run that goes wrong\<close>

text \<open>\<open>onClose\<close> is \<open>() => setCall(null)\<close>, whichever call the overlay belongs to. The caller hangs up
  while the offer of call \<open>c1\<close> is being posted; that request fails after call \<open>c2\<close> was shown; the
  \<open>catch\<close> of the unmounted overlay runs \<open>finish\<close>, and its \<open>onClose\<close> closes \<open>c2\<close>.\<close>

definition stale_close :: "session_event list" where
  "stale_close = [receive sample_ready, Rendered True, Page (StartCall (lit ''n1'') (lit ''Bob'') False),
     Page (RtSettle 1 (Status 201)), Page (RtSettle 2 (CallBody ((sample_call False True)\<lparr>cs_id := lit ''c1''\<rparr>))),
     Rendered True, receive (call_event ''call.accept'' ''c1''), Overlay 0 (Settle 0 Done), Overlay 0 (Settle 1 Done),
     Overlay 0 (Settle 2 (Sdp (lit ''offer''))), Overlay 0 (Settle 3 Done), Overlay 0 EndClick, Rendered True,
     receive (call_event ''call.invited'' ''c2''), Rendered True]"

lemma stale_overlay_closes_next_call:
  "let s = run session_step (session_init True False) stale_close in
     map_option cs_id (rt_call (ss_runtime s)) = Some (lit ''c2'') \<and> \<not> ov_dead (ss_overlays s ! 1)"
  "let s = run session_step (session_init True False) (stale_close @ [Overlay 0 (Settle 4 Failed), Rendered True]) in
     rt_call (ss_runtime s) = None \<and> ov_dead (ss_overlays s ! 1) \<and> Post DoEnd \<in> set (ov_log (ss_overlays s ! 1))"
  by code_simp+

end
