(* ===== verification/Call_Life.thy ===== *)
theory Call_Life
  imports Call_Overlay_Guarantees
begin

text \<open>
  The life of a call as its user sees it: an automaton with four states, which the call overlay
  (\<open>components/communication/video-call.tsx\<close>) implements. Each event of the overlay is one step
  of the automaton, under the same event.
\<close>

section \<open>Simulation\<close>

text \<open>The runs of an automaton, and the contract of an implementation of it.\<close>

inductive trace :: "('e \<Rightarrow> 'a \<Rightarrow> 'a \<Rightarrow> bool) \<Rightarrow> 'a \<Rightarrow> 'e list \<Rightarrow> 'a \<Rightarrow> bool" for astep where
  nil: "trace astep a [] a"
| next_event: "astep e a b \<Longrightarrow> trace astep b es c \<Longrightarrow> trace astep a (e # es) c"

inductive_cases trace_ConsE: "trace astep a (e # es) c"

locale simulation = machine step ok inv
  for step :: "'s \<Rightarrow> 'e \<Rightarrow> 's" and ok :: "'s \<Rightarrow> 'e \<Rightarrow> bool" and inv :: "'s \<Rightarrow> bool" +
  fixes abs :: "'s \<Rightarrow> 'a" and astep :: "'e \<Rightarrow> 'a \<Rightarrow> 'a \<Rightarrow> bool"
  assumes sim_step: "inv s \<Longrightarrow> ok s e \<Longrightarrow> astep e (abs s) (abs (step s e))"
begin

lemma sim_run: "inv s \<Longrightarrow> admissible step ok s es \<Longrightarrow> trace astep (abs s) es (abs (run step s es))"
  by (induction es arbitrary: s) (auto intro: trace.intros sim_step inv_step)

end

section \<open>The automaton\<close>

datatype call_life = Rings | Connects | Talks | Over

text \<open>The events that can end a call in a given state of its life.\<close>

fun may_end :: "overlay_event \<Rightarrow> call_life \<Rightarrow> bool" where
  "may_end (Settle i out) l = True"
| "may_end (Live cid g) l = True"
| "may_end TransportClosed l = True"
| "may_end RingTimeout l = (l = Rings)"
| "may_end ConnectTimeout l = (l \<noteq> Rings)"
| "may_end (PeerState st) l = (st = PcFailed \<and> l \<noteq> Rings)"
| "may_end EndClick l = True"
| "may_end CancelDialog l = True"
| "may_end PageHide l = True"
| "may_end Unmount l = True"
| "may_end _ l = False"

inductive life_step :: "overlay_event \<Rightarrow> call_life \<Rightarrow> call_life \<Rightarrow> bool" where
  stays: "life_step e l l"
| over: "may_end e l \<Longrightarrow> life_step e l Over"
| connects: "life_step (Settle i out) Rings Connects"
| talks: "life_step (PeerState PcConnected) Connects Talks"


text \<open>The order of life, in which no step goes back.\<close>

fun stage :: "call_life \<Rightarrow> nat" where
  "stage Rings = 0"
| "stage Connects = 1"
| "stage Talks = 2"
| "stage Over = 3"

instantiation call_life :: linorder
begin

definition less_eq_call_life :: "call_life \<Rightarrow> call_life \<Rightarrow> bool" where
  "less_eq_call_life l l' \<longleftrightarrow> stage l \<le> stage l'"

definition less_call_life :: "call_life \<Rightarrow> call_life \<Rightarrow> bool" where
  "less_call_life l l' \<longleftrightarrow> stage l < stage l'"

instance
proof
  have inj: "stage l = stage l' \<Longrightarrow> l = l'" for l l' by (cases l; cases l') simp_all
  show "x \<le> y \<Longrightarrow> y \<le> x \<Longrightarrow> x = y" for x y :: call_life
    using inj by (simp add: less_eq_call_life_def)
qed (auto simp: less_eq_call_life_def less_call_life_def)

end

lemma stage_le: "stage l \<le> 3"
  by (cases l) simp_all

lemma life_step_le: "life_step e l l' \<Longrightarrow> l \<le> l'"
  by (induction rule: life_step.induct) (simp_all add: less_eq_call_life_def stage_le)

lemma trace_le: "trace life_step l es l' \<Longrightarrow> l \<le> l'"
  by (induction rule: trace.induct) (auto dest: life_step_le)

text \<open>What the overlay shows of it.\<close>

definition life :: "overlay \<Rightarrow> call_life" where
  "life s = (if ov_dead s \<or> ov_phase s = Ended then Over
     else if ov_phase s = Ringing then Rings else if ov_phase s = Active then Talks else Connects)"

section \<open>The overlay implements it\<close>

lemma life_frame [simp]:
  "life (s\<lparr>ov_status := m\<rparr>) = life s" "life (s\<lparr>ov_videoOn := b\<rparr>) = life s" "life (s\<lparr>ov_muted := b\<rparr>) = life s"
  "life (s\<lparr>ov_remoteVideoOn := b\<rparr>) = life s" "life (s\<lparr>ov_position := pos\<rparr>) = life s"
  "life (s\<lparr>ov_facing := fc\<rparr>) = life s" "life (s\<lparr>ov_localRatio := r\<rparr>) = life s"
  "life (s\<lparr>ov_peer := p\<rparr>) = life s" "life (s\<lparr>ov_stream := st\<rparr>) = life s" "life (s\<lparr>ov_sender := b\<rparr>) = life s"
  "life (s\<lparr>ov_pending := cs\<rparr>) = life s" "life (s\<lparr>ov_started := b\<rparr>) = life s" "life (s\<lparr>ov_callPhase := ph\<rparr>) = life s"
  "life (s\<lparr>ov_camera := cam\<rparr>) = life s" "life (s\<lparr>ov_mounted := b\<rparr>) = life s" "life (s\<lparr>ov_devices := d\<rparr>) = life s"
  "life (s\<lparr>ov_tasks := ts\<rparr>) = life s" "life (s\<lparr>ov_queue := q\<rparr>) = life s" "life (s\<lparr>ov_handling := b\<rparr>) = life s"
  "life (s\<lparr>ov_received := cs\<rparr>) = life s" "life (fx f s) = life s" "life (await k s) = life s"
  "life (handled s) = life s" "life (mark_remote s) = life s"
  by (simp_all add: life_def fx_def await_def handled_def mark_remote_def)

lemma life_over [simp]:
  "life (cleanup s) = Over" "life (finish a s) = Over" "life (end_with m s) = Over" "life (handler_fail s) = Over"
  "life (s\<lparr>ov_phase := Ended\<rparr>) = Over"
  by (simp_all add: life_def overlay_end_defs fx_def)

lemma life_return [simp]: "life (setup_return r s) = life s"
  by (cases r) (simp_all split: option.split)

lemma life_catch [simp]: "life (setup_catch r s) = life s" "life (setup_call r s) = life s"
  by (simp_all add: setup_catch_def setup_call_def)

lemma life_ice: "life (answer_ice cs s) \<in> {life s, Over}" "life (offerer_ice cs s) \<in> {life s, Over}"
  by (cases cs; simp split: option.split)+

lemma life_keeps:
  "life t = life s \<Longrightarrow> life (answer_ice cs t) \<noteq> Over \<Longrightarrow> life (answer_ice cs t) = life s"
  "life t = life s \<Longrightarrow> life (offerer_ice cs t) \<noteq> Over \<Longrightarrow> life (offerer_ice cs t) = life s"
  using life_ice [of cs t] by simp_all

lemma life_handle: "life (handle g s) \<in> {life s, Over}"
  by (cases g) (simp_all add: handle_def Let_def split: option.split)

lemma life_drain: "life (drain es s) \<in> {life s, Over}"
proof (induction es arbitrary: s)
  case (Cons e es)
  have "life (drain es (handle e s)) \<in> {life s, Over}" using Cons.IH [of "handle e s"] life_handle [of e s] by (metis insertE insertI1 insertI2 singletonD)
  then show ?case by simp
qed simp

lemma life_new_camera [simp]:
  "(\<And>s. life (catch s) = life s) \<Longrightarrow> life (got_new_camera k catch out s) = life s"
  by (simp add: got_new_camera_def split: outcome.split prod.split option.split)

lemma life_controls [simp]:
  "life (video_catch s) = life s" "life (flip_catch s) = life s" "life (video_done b m s) = life s"
  "life (drop_video s) = life s" "life (stop_camera s) = life s" "life (use_camera c s) = life s"
  "life (toggle_mute s) = life s" "life (toggle_video s) = life s" "life (switch_camera s) = life s"
  by (simp_all add: overlay_control_defs Let_def)

text \<open>While a call lives, what is shown and what the timers test agree.\<close>

definition phase_inv :: "overlay \<Rightarrow> bool" where
  "phase_inv s \<longleftrightarrow> (ov_callPhase s = Connecting \<longrightarrow> ov_phase s \<noteq> Ringing)"

interpretation phases: overlay_invariant phase_inv "\<lambda>_ _. True"
proof unfold_locales
  show "phase_inv s \<Longrightarrow> phase_inv (resume k out (s\<lparr>ov_tasks := rest\<rparr>))" for s k rest out
    by (cases k) (auto simp: phase_inv_def overlay_unfold split: overlay_splits)
  show "phase_inv s \<Longrightarrow> \<forall>cid sig. e \<noteq> Live cid sig \<Longrightarrow> phase_inv (mounted_step s e)" for s e
    by (cases e) (auto simp: phase_inv_def overlay_unfold split: overlay_splits)
qed (auto simp: phase_inv_def overlay_unfold split: overlay_splits)

definition life_inv :: "overlay \<Rightarrow> bool" where
  "life_inv s \<longleftrightarrow> setup_inv s \<and> ended_inv s \<and> phase_inv s"

lemma rings_iff: "life_inv s \<Longrightarrow> \<not> ov_dead s \<Longrightarrow> life s = Rings \<longleftrightarrow> ov_callPhase s = Ringing"
  by (auto simp: life_inv_def life_def setup_inv_def ended_inv_def phase_inv_def)

lemma life_finish: "life (setup_finish r s) = (if ov_dead s then Over else Connects)"
proof -
  let ?t = "s\<lparr>ov_callPhase := Connecting, ov_phase := Connecting, ov_status := lit ''Connecting...''\<rparr>"
  have "life (setup_finish r s) = life ?t" by (simp add: setup_finish_def)
  then show ?thesis by (simp add: life_def)
qed

text \<open>How far the continuation of a promise moves the automaton.\<close>

definition settle_step :: "call_life \<Rightarrow> call_life \<Rightarrow> bool" where
  "settle_step l l' \<longleftrightarrow> l' = l \<or> l' = Over \<or> l = Rings \<and> l' = Connects"

lemma settle_simps [simp]: "settle_step l l" "settle_step l Over" "settle_step Rings Connects"
  by (simp_all add: settle_step_def)

text \<open>What is so while \<open>setup\<close> runs.\<close>

definition setting_up :: "overlay \<Rightarrow> bool" where
  "setting_up s \<longleftrightarrow> ov_dead s \<or> ov_phase s = Ringing"

lemma setting_up_frame [simp]:
  "setting_up (s\<lparr>ov_tasks := ts\<rparr>) = setting_up s" "setting_up (s\<lparr>ov_devices := d\<rparr>) = setting_up s"
  "setting_up (s\<lparr>ov_stream := st\<rparr>) = setting_up s" "setting_up (s\<lparr>ov_camera := cam\<rparr>) = setting_up s"
  "setting_up (s\<lparr>ov_peer := p\<rparr>) = setting_up s" "setting_up (s\<lparr>ov_sender := b\<rparr>) = setting_up s"
  "setting_up (fx f s) = setting_up s"
  by (simp_all add: setting_up_def fx_def)

lemma settle_finish: "setting_up s \<Longrightarrow> settle_step (life s) (life (setup_finish r s))"
  unfolding life_finish by (auto simp: setting_up_def) (simp add: life_def)

lemma settle_connect: "setting_up s \<Longrightarrow> settle_step (life s) (life (setup_connect r s))"
  using settle_finish [of "fx NewPeer (s\<lparr>ov_peer := Some \<lparr>pc_remote = False, pc_state = PcNew\<rparr>\<rparr>)" r]
  by (simp add: setup_connect_def Let_def)

lemma settle_microphone:
  assumes "setting_up s"
  shows "settle_step (life s) (life (got_microphone r s))"
proof (cases "open_microphone (ov_devices s)")
  case (Pair media d)
  then show ?thesis using settle_connect [of "s\<lparr>ov_devices := d, ov_stream := Some media\<rparr>" r] assms
    by (simp add: got_microphone_def Let_def)
qed

lemma settle_camera:
  assumes "setting_up s"
  shows "settle_step (life s) (life (got_camera r env s))"
proof (cases "call_camera env (ov_devices s)")
  case (Pair co d)
  have "settle_step (life s) (life (setup_connect r (s\<lparr>ov_devices := d, ov_camera := cam, ov_stream := st\<rparr>)))" for cam st
    using settle_connect [of "s\<lparr>ov_devices := d, ov_camera := cam, ov_stream := st\<rparr>" r] assms by simp
  with Pair show ?thesis by (simp add: got_camera_def split: option.split)
qed

lemma settle_setup:
  assumes "setup_flow k \<Longrightarrow> setting_up s" and "setup_cont k"
  shows "settle_step (life s) (life (resume_setup k out s))"
  using assms settle_finish [of "s\<lparr>ov_sender := True\<rparr>"]
  by (cases k) (simp_all add: settle_microphone settle_camera split: outcome.split)

lemma settle_resume:
  assumes inv: "life_inv s" and taken: "take_task i (ov_tasks s) = Some (k, rest)"
  shows "settle_step (life s) (life (resume k out (s\<lparr>ov_tasks := rest\<rparr>)))"
proof -
  let ?s = "s\<lparr>ov_tasks := rest\<rparr>"
  have "k \<in> set (tasks_of setup_flow (ov_tasks s))" if "setup_flow k"
    using take_task_cont [OF taken] that unfolding set_tasks_of by blast
  then have flow: "setting_up ?s" if "setup_flow k"
    using inv that by (auto simp: life_inv_def setup_inv_def ended_inv_def setting_up_def)
  show ?thesis
  proof (cases "setup_cont k")
    case True
    then show ?thesis using settle_setup [OF flow True, of out] by (simp add: resume_def)
  next
    case False
    have "life (resume k out ?s) \<in> {life s, Over}"
      using False by (cases k) (auto simp: resume_def Let_def split: outcome.split option.split intro: life_keeps)
    then show ?thesis by (auto simp: settle_step_def)
  qed
qed

lemma over_or_stays: "l' \<in> {l, Over} \<Longrightarrow> may_end e l \<Longrightarrow> life_step e l l'"
  by (auto intro: life_step.intros)

lemma settle_life_step: "settle_step l l' \<Longrightarrow> life_step (Settle i out) l l'"
  by (auto simp: settle_step_def intro: life_step.intros)

lemma settle_trans: "settle_step l l' \<Longrightarrow> l'' \<in> {l', Over} \<Longrightarrow> settle_step l l''"
  by (auto simp: settle_step_def)

lemma life_dead: "ov_dead s \<Longrightarrow> life s = Over"
  by (simp add: life_def)

lemma life_settle:
  assumes "life_inv s"
  shows "life_step (Settle i out) (life s) (life (overlay_step s (Settle i out)))"
proof (cases "take_task i (ov_tasks s)")
  case (Some kq)
  obtain k rest where kq: "kq = (k, rest)" by (cases kq)
  let ?t = "resume k out (s\<lparr>ov_tasks := rest\<rparr>)"
  have "settle_step (life s) (life (drain (ov_queue ?t) ?t))"
    using assms Some unfolding kq by (intro settle_trans [OF settle_resume life_drain])
  then show ?thesis using Some kq by (simp add: Let_def settle_life_step)
qed (simp add: life_step.stays)

lemma life_mounted:
  assumes "life_inv s" and "\<forall>cid g. e \<noteq> Live cid g"
  shows "life_step e (life s) (life (mounted_step s e))"
proof (cases e)
  case RingTimeout
  then show ?thesis using rings_iff [OF assms(1)] by (auto intro: life_step.intros)
next
  case ConnectTimeout
  then show ?thesis using rings_iff [OF assms(1)] by (auto intro: life_step.intros)
next
  case Unmount
  then show ?thesis by (auto intro: life_step.intros)
qed (use assms(2) in \<open>auto intro: life_step.intros\<close>)

lemma life_peer:
  assumes "life_inv s"
  shows "life_step (PeerState st) (life s) (life (peer_state st s))"
proof (cases "ov_peer s")
  case (Some p)
  then have alive: "\<not> ov_dead s" using assms by (auto simp: life_inv_def ended_inv_def)
  show ?thesis
  proof (cases "ov_callPhase s = Ringing")
    case False
    then have shown: "ov_phase s \<in> {Connecting, Active}" "life s \<noteq> Rings"
      using assms alive rings_iff [OF assms alive]
      by (cases "ov_phase s"; auto simp: life_inv_def setup_inv_def ended_inv_def phase_inv_def)+
    have "life_step (PeerState PcConnected) (life s) Talks"
      using shown alive by (auto simp: life_def intro: life_step.intros)
    moreover have "life (s\<lparr>ov_peer := q, ov_phase := Active, ov_status := m\<rparr>) = Talks" for q m
      using alive by (simp add: life_def)
    ultimately show ?thesis using False Some shown(2) by (auto simp: peer_state_def Let_def intro: life_step.intros)
  qed (simp add: peer_state_def Some life_step.stays)
qed (simp add: peer_state_def life_step.stays)

lemma life_overlay_step:
  assumes "life_inv s"
  shows "life_step e (life s) (life (overlay_step s e))"
proof (cases e)
  case (Settle i out)
  then show ?thesis using life_settle [OF assms] by simp
next
  case (Live cid g)
  have "life (overlay_step s e) \<in> {life s, Over}" using Live life_drain [of "ov_queue s @ [g]" s] by simp
  then show ?thesis using Live by (intro over_or_stays) simp_all
next
  case (PeerState st)
  then show ?thesis using life_peer [OF assms] by simp
next
  case (LocalCandidate c)
  then show ?thesis by (simp add: life_step.stays)
qed (use life_mounted [OF assms, of e] in \<open>simp_all add: life_step.stays\<close>)

interpretation call_life: simulation overlay_step any_event life_inv life life_step
proof
  show "life_inv s \<Longrightarrow> life_inv (overlay_step s e)" for s e
    by (simp add: life_inv_def setup_once.inv_overlay_step ended.inv_overlay_step phases.inv_overlay_step)
qed (rule life_overlay_step)

section \<open>The refinement\<close>

lemma life_start: "life_inv (overlay_init call ok)" "life (overlay_init call ok) = Rings"
  by (simp_all add: life_inv_def overlay_init_inv) (simp_all add: phase_inv_def overlay_init_def life_def)

text \<open>C6: The call overlay refines the life of a call: it rings, connects, talks and is over. Every run
  of the overlay, whatever the order of clicks, live events, timers and settled promises, is a run of
  the automaton under the same events. So a call starts to connect only when its camera and
  microphone are ready (a promise settled), talks only from connecting and only when the peer
  connection reports it, never goes back, is over for good once it is over, and nothing but the
  events of \<open>may_end\<close> ends it: not a click on the microphone or camera, not the accept
  button, not dragging the preview, not a ring timer that fires after the call was taken.\<close>

theorem overlay_refines_call_life:
  "trace life_step Rings es (life (run overlay_step (overlay_init call ok) es))"
  using call_life.sim_run [OF life_start(1) admissible_True] by (simp add: life_start(2))

text \<open>The automaton has no shorter way: from ringing to talking a promise settles and later the
  connection comes up.\<close>

lemma over_for_good: "trace life_step Over es l \<Longrightarrow> l = Over"
proof (induction es)
  case (Cons e es)
  from Cons.prems obtain m where e: "life_step e Over m" and rest: "trace life_step m es l" by (rule trace_ConsE)
  from e have "m = Over" by (cases rule: life_step.cases) simp_all
  with rest Cons.IH show ?case by simp
qed (auto elim: trace.cases)

lemma connects_talks: "trace life_step Connects es Talks \<Longrightarrow> PeerState PcConnected \<in> set es"
proof (induction es)
  case (Cons f fs)
  from Cons.prems obtain m where f: "life_step f Connects m" and rest: "trace life_step m fs Talks" by (rule trace_ConsE)
  then show ?case using Cons.IH over_for_good [of fs Talks] by (cases rule: life_step.cases [OF f]) auto
qed (auto elim: trace.cases)

lemma rings_talks:
  "trace life_step Rings es Talks \<Longrightarrow> \<exists>i out as bs. es = as @ Settle i out # bs \<and> PeerState PcConnected \<in> set bs"
proof (induction es)
  case (Cons e es)
  from Cons.prems obtain l where e: "life_step e Rings l" and rest: "trace life_step l es Talks" by (rule trace_ConsE)
  from e show ?case
  proof (cases rule: life_step.cases)
    case stays
    then show ?thesis using Cons.IH rest by (metis Cons_eq_appendI)
  next
    case over
    then show ?thesis using over_for_good [of es Talks] rest by simp
  next
    case (connects i out)
    then have "e # es = [] @ Settle i out # es" "PeerState PcConnected \<in> set es" using connects_talks rest by auto
    then show ?thesis by blast
  qed
qed (auto elim: trace.cases)

end
