(* ===== verification/Call_Relay.thy ===== *)
theory Call_Relay
  imports Call_Life
begin

text \<open>
  One call from end to end: the overlays of both parties, with any number of tabs, and the
  server that relays between them (\<open>callAction\<close> of \<open>internal/communication/calls.go\<close>). Requests
  reach the server in any order (the model also lets them arrive twice), several are handled at once,
  and each user's event socket delivers in order until it is lost.
\<close>

section \<open>The server\<close>

text \<open>The key \<open>communication:call:<id>\<close> in Redis: absent, or its field \<open>state\<close>.\<close>

datatype call_state = CallGone | CallRinging | CallActive

datatype party = Caller | Callee

definition other :: "party \<Rightarrow> party" where
  "other p = (if p = Caller then Callee else Caller)"

text \<open>\<open>len\<close> of a Go string decoded from JSON: UTF-8; the two halves of a pair count two each, a lone
  surrogate was replaced by U+FFFD.\<close>

fun utf8_length :: "jstr \<Rightarrow> int" where
  "utf8_length [] = 0"
| "utf8_length (u # s) = (if u < 0x80 then 1 + utf8_length s else if u < 0x800 then 2 + utf8_length s
     else if u < 0xD800 \<or> 0xDFFF < u then 3 + utf8_length s
     else (case s of v # t \<Rightarrow> if u < 0xDC00 \<and> 0xDC00 \<le> v \<and> v \<le> 0xDFFF then 4 + utf8_length t else 3 + utf8_length s
       | [] \<Rightarrow> 3))"

text \<open>The event sent for an action. A candidate stands for the JSON text of its payload.\<close>

definition relayed :: "call_action \<Rightarrow> call_signal" where
  "relayed a = (case a of DoAccept \<Rightarrow> SigAccept | DoEnd \<Rightarrow> SigEnd | DoDecline \<Rightarrow> SigDecline | DoHeartbeat \<Rightarrow> SigOther
     | DoOffer d \<Rightarrow> SigOffer d | DoAnswer d \<Rightarrow> SigAnswer d | DoIce c \<Rightarrow> SigIce c | DoMedia v m \<Rightarrow> SigMedia (Some v))"

text \<open>What the handler decides once it has read \<open>fields\<close>, whose state \<open>was\<close>: the status it replies, the state it leaves,
  and the events it emits, in order. \<open>known\<close> is the result of \<open>h.peer\<close>, \<open>state\<close> the state when its
  script runs. A request that is not allowed any more counts as \<open>end\<close>.\<close>

definition serve_action :: "party \<Rightarrow> bool \<Rightarrow> call_state \<Rightarrow> call_state \<Rightarrow> call_action \<Rightarrow>
    nat \<times> call_state \<times> (party \<times> call_signal) list" where
  "serve_action u known was state a =
     (if was = CallGone then (404, state, [])
      else let a = (if known then a else DoEnd); one = [(other u, relayed a)]; both = one @ [(u, relayed a)] in
        case a of
          DoAccept \<Rightarrow> if u \<noteq> Callee then (403, state, [])
            else if state \<noteq> CallRinging then (409, state, []) else (200, CallActive, both)
        | DoEnd \<Rightarrow> (200, CallGone, both)
        | DoDecline \<Rightarrow> (200, CallGone, both)
        | DoHeartbeat \<Rightarrow> (if was \<noteq> CallActive then 409 else 200, state, [])
        | DoOffer d \<Rightarrow> if was \<noteq> CallActive \<or> u \<noteq> Caller then (403, state, [])
            else if utf8_length d < 1 \<or> 60000 < utf8_length d then (400, state, []) else (200, state, one)
        | DoAnswer d \<Rightarrow> if was \<noteq> CallActive \<or> u \<noteq> Callee then (403, state, [])
            else if utf8_length d < 1 \<or> 60000 < utf8_length d then (400, state, []) else (200, state, one)
        | DoIce c \<Rightarrow> if was \<noteq> CallActive \<or> 6000 < utf8_length c then (400, state, []) else (200, state, one)
        | DoMedia v m \<Rightarrow> if was \<noteq> CallActive then (403, state, []) else (200, state, one))"

lemma other_other [simp]: "other (other p) = p" "other p \<noteq> p"
  by (cases p; simp add: other_def)+

text \<open>Only a ringing call is accepted, and no call rings again.\<close>

lemma accept_needs_ringing:
  assumes "serve_action u known was state a = (n, CallActive, es)"
  shows "state = CallActive \<or> state = CallRinging \<and> u = Callee \<and> a = DoAccept"
  using assms by (cases a) (auto simp: serve_action_def Let_def split: if_splits)

lemma never_rings_again:
  "serve_action u known was state a = (n, CallRinging, es) \<Longrightarrow> state = CallRinging"
  by (cases a) (auto simp: serve_action_def Let_def split: if_splits)

text \<open>Where the events of one request go.\<close>

lemma emitted:
  assumes "serve_action u known was state a = (n, state', es)" and "(p, g) \<in> set es"
  shows "g \<in> {SigAccept, SigEnd, SigDecline} \<or> p = other u \<and> known \<and> g = relayed a
    \<and> (\<forall>d. a = DoOffer d \<longrightarrow> u = Caller) \<and> (\<forall>d. a = DoAnswer d \<longrightarrow> u = Callee)"
  using assms by (cases a) (auto simp: serve_action_def relayed_def Let_def split: if_splits)

definition ending :: "call_signal \<Rightarrow> bool" where
  "ending g \<longleftrightarrow> g = SigEnd \<or> g = SigDecline"

text \<open>Who is told of the end, is told together with the other party.\<close>

lemma ended_tells_all:
  assumes "serve_action u known was state a = (n, state', es)" and "(p, g) \<in> set es" and "ending g"
  shows "state' = CallGone \<and> (q, g) \<in> set es"
  using assms by (cases a; cases q; cases u)
    (auto simp: serve_action_def relayed_def other_def ending_def Let_def split: if_splits)

section \<open>The call\<close>

text \<open>\<open>sy_requests\<close> are handled after reading \<open>fields\<close>; \<open>sy_emits\<close> are the events each handled request
  has still to publish; \<open>sy_frames\<close> are those on the socket of each tab.\<close>

record call_system =
  sy_state :: call_state
  sy_tabs :: "overlay list"
  sy_requests :: "(party \<times> call_action \<times> call_state) list"
  sy_emits :: "(party \<times> call_signal) list list"
  sy_frames :: "call_signal list list"
  sy_hungUp :: bool   \<comment> \<open>history: a request ended the call\<close>

definition party_of :: "overlay \<Rightarrow> party" where
  "party_of t = (if cs_outgoing (ov_call t) then Caller else Callee)"

definition system_init :: "call_session list \<Rightarrow> call_system" where
  "system_init calls = \<lparr>sy_state = CallRinging, sy_tabs = map (\<lambda>c. overlay_init c True) calls, sy_requests = [],
     sy_emits = [], sy_frames = map (\<lambda>_. []) calls, sy_hungUp = False\<rparr>"

definition remove_nth :: "nat \<Rightarrow> 'a list \<Rightarrow> 'a list" where
  "remove_nth k xs = take k xs @ drop (Suc k) xs"

lemma remove_nth_sub: "x \<in> set (remove_nth k xs) \<Longrightarrow> x \<in> set xs"
  by (auto simp: remove_nth_def dest: in_set_takeD in_set_dropD)

lemma remove_nth_split: "k < length xs \<Longrightarrow> set xs = insert (xs ! k) (set (remove_nth k xs))"
  using id_take_nth_drop [of k xs] by (metis remove_nth_def Un_insert_right list.simps(15) set_append)

text \<open>\<open>tell p g\<close>: \<open>emit\<close> publishes to every socket of a user.\<close>

definition tell :: "party \<Rightarrow> call_signal \<Rightarrow> call_system \<Rightarrow> call_system" where
  "tell p g s = s\<lparr>sy_frames := map (\<lambda>(t, fs). if party_of t = p then fs @ [g] else fs) (zip (sy_tabs s) (sy_frames s))\<rparr>"

definition deliver_to :: "overlay \<Rightarrow> call_signal \<Rightarrow> overlay" where
  "deliver_to t g = overlay_step t (Live (Some (cs_id (ov_call t))) g)"

text \<open>A tab does something of its own; the \<open>n\<close>th entry of its log, a request, reaches the server; the
  server acts on a request; it publishes an event; a tab gets the next event, or loses its
  socket; the key expires.\<close>

datatype system_event = TabDoes nat overlay_event | Reach nat nat | Act nat bool | Publish nat
  | Frame nat | Lose nat | Expire

definition own_event :: "overlay_event \<Rightarrow> bool" where
  "own_event e \<longleftrightarrow> (case e of Live _ _ \<Rightarrow> False | TransportClosed \<Rightarrow> False | _ \<Rightarrow> True)"

definition act :: "nat \<Rightarrow> bool \<Rightarrow> call_system \<Rightarrow> call_system" where
  "act k known s = (if k < length (sy_requests s) then (case sy_requests s ! k of (u, a, was) \<Rightarrow>
     (case serve_action u known was (sy_state s) a of (n, st, es) \<Rightarrow>
        s\<lparr>sy_state := st, sy_requests := remove_nth k (sy_requests s), sy_emits := sy_emits s @ [es],
          sy_hungUp := (sy_hungUp s \<or> list_ex (\<lambda>(p, g). ending g) es)\<rparr>)) else s)"

definition publish_one :: "nat \<Rightarrow> call_system \<Rightarrow> call_system" where
  "publish_one k s = (if k < length (sy_emits s) then (case sy_emits s ! k of
       [] \<Rightarrow> s\<lparr>sy_emits := remove_nth k (sy_emits s)\<rparr>
     | (p, g) # es \<Rightarrow> tell p g (s\<lparr>sy_emits := (sy_emits s)[k := es]\<rparr>)) else s)"

fun system_step :: "call_system \<Rightarrow> system_event \<Rightarrow> call_system" where
  "system_step s (TabDoes i e) = (if i < length (sy_tabs s) \<and> own_event e
     then s\<lparr>sy_tabs := (sy_tabs s)[i := overlay_step (sy_tabs s ! i) e]\<rparr> else s)"
| "system_step s (Reach i n) = (if i < length (sy_tabs s) \<and> n < length (ov_log (sy_tabs s ! i))
     then (case ov_log (sy_tabs s ! i) ! n of
         Post a \<Rightarrow> s\<lparr>sy_requests := sy_requests s @ [(party_of (sy_tabs s ! i), a, sy_state s)]\<rparr> | _ \<Rightarrow> s)
     else s)"
| "system_step s (Act k known) = act k known s"
| "system_step s (Publish k) = publish_one k s"
| "system_step s (Frame i) = (if i < length (sy_tabs s) then (case sy_frames s ! i of [] \<Rightarrow> s
     | g # gs \<Rightarrow> s\<lparr>sy_frames := (sy_frames s)[i := gs], sy_tabs := (sy_tabs s)[i := deliver_to (sy_tabs s ! i) g]\<rparr>) else s)"
| "system_step s (Lose i) = (if i < length (sy_tabs s)
     then s\<lparr>sy_frames := (sy_frames s)[i := []], sy_tabs := (sy_tabs s)[i := overlay_step (sy_tabs s ! i) TransportClosed]\<rparr> else s)"
| "system_step s Expire = s\<lparr>sy_state := CallGone\<rparr>"

end
