(* ===== verification/Call_Exchange.thy ===== *)
theory Call_Exchange
  imports Call_Relay
begin

text \<open>
  What the two sides of a call exchange (\<open>Call_Relay\<close>): a session description or candidate that one
  side gives to its peer connection was made by the other side, and hanging up reaches every tab.
\<close>

section \<open>What an overlay is fed\<close>

text \<open>Signals that carry only descriptions in \<open>R\<close> and candidates in \<open>I\<close>, and the continuations that
  hold some of them.\<close>

fun sig_fed :: "jstr set \<Rightarrow> jstr set \<Rightarrow> call_signal \<Rightarrow> bool" where
  "sig_fed R I (SigOffer d) = (d \<in> R)"
| "sig_fed R I (SigAnswer d) = (d \<in> R)"
| "sig_fed R I (SigIce c) = (c \<in> I)"
| "sig_fed R I _ = True"

fun caller_fed :: "jstr set \<Rightarrow> setup_caller \<Rightarrow> bool" where
  "caller_fed R (ByOffer d) = (d \<in> R)"
| "caller_fed R _ = True"

fun cont_fed :: "jstr set \<Rightarrow> jstr set \<Rightarrow> cont \<Rightarrow> bool" where
  "cont_fed R I (KMicrophone r) = caller_fed R r"
| "cont_fed R I (KCamera r) = caller_fed R r"
| "cont_fed R I (KAttach r) = caller_fed R r"
| "cont_fed R I (KSetupEnd r) = caller_fed R r"
| "cont_fed R I (KAnswerIce cs) = (set cs \<subseteq> I)"
| "cont_fed R I (KOffererIce cs) = (set cs \<subseteq> I)"
| "cont_fed R I _ = True"

fun fx_fed :: "jstr set \<Rightarrow> jstr set \<Rightarrow> call_fx \<Rightarrow> bool" where
  "fx_fed R I (SetRemote d) = (d \<in> R)"
| "fx_fed R I (AddIce c) = (c \<in> I)"
| "fx_fed R I _ = True"

definition fed :: "jstr set \<Rightarrow> jstr set \<Rightarrow> overlay \<Rightarrow> bool" where
  "fed R I s \<longleftrightarrow> (\<forall>f \<in> set (ov_log s). fx_fed R I f) \<and> (\<forall>k \<in> conts (ov_tasks s). cont_fed R I k)
     \<and> set (ov_pending s) \<subseteq> I \<and> (\<forall>g \<in> set (ov_queue s). sig_fed R I g)"

lemma fed_frame [simp]:
  "fed R I (s\<lparr>ov_phase := ph\<rparr>) = fed R I s" "fed R I (s\<lparr>ov_status := m\<rparr>) = fed R I s"
  "fed R I (s\<lparr>ov_videoOn := b\<rparr>) = fed R I s" "fed R I (s\<lparr>ov_muted := b\<rparr>) = fed R I s"
  "fed R I (s\<lparr>ov_remoteVideoOn := b\<rparr>) = fed R I s" "fed R I (s\<lparr>ov_position := pos\<rparr>) = fed R I s"
  "fed R I (s\<lparr>ov_facing := fc\<rparr>) = fed R I s" "fed R I (s\<lparr>ov_localRatio := r\<rparr>) = fed R I s"
  "fed R I (s\<lparr>ov_peer := p\<rparr>) = fed R I s" "fed R I (s\<lparr>ov_stream := st\<rparr>) = fed R I s"
  "fed R I (s\<lparr>ov_sender := b\<rparr>) = fed R I s" "fed R I (s\<lparr>ov_dead := b\<rparr>) = fed R I s"
  "fed R I (s\<lparr>ov_started := b\<rparr>) = fed R I s" "fed R I (s\<lparr>ov_callPhase := ph\<rparr>) = fed R I s"
  "fed R I (s\<lparr>ov_camera := cam\<rparr>) = fed R I s" "fed R I (s\<lparr>ov_mounted := b\<rparr>) = fed R I s"
  "fed R I (s\<lparr>ov_devices := d\<rparr>) = fed R I s" "fed R I (s\<lparr>ov_handling := b\<rparr>) = fed R I s"
  "fed R I (s\<lparr>ov_received := cs\<rparr>) = fed R I s" "fed R I (mark_remote s) = fed R I s"
  "fed R I (handled s) = fed R I s" "fed R I (cleanup s) = fed R I s" "fed R I (end_with msg s) = fed R I s"
  "fed R I (finish a s) = fed R I s" "fed R I (handler_fail s) = fed R I s"
  by (auto simp: fed_def mark_remote_def overlay_end_defs fx_def)

lemma fed_fx [simp]: "fed R I (fx f s) \<longleftrightarrow> fed R I s \<and> fx_fed R I f"
  by (auto simp: fed_def fx_def)

lemma fed_await [simp]: "fed R I (await k s) \<longleftrightarrow> fed R I s \<and> cont_fed R I k"
  by (auto simp: fed_def await_def)

lemma fed_pending: "fed R I s \<Longrightarrow> set cs \<subseteq> I \<Longrightarrow> fed R I (s\<lparr>ov_pending := cs\<rparr>)"
  by (simp add: fed_def)

lemma fed_queue: "fed R I s \<Longrightarrow> \<forall>g \<in> set q. sig_fed R I g \<Longrightarrow> fed R I (s\<lparr>ov_queue := q\<rparr>)"
  by (simp add: fed_def)

lemma fed_pendingD: "fed R I s \<Longrightarrow> c \<in> set (ov_pending s) \<Longrightarrow> c \<in> I"
  by (auto simp: fed_def)

lemma fed_return: "fed R I s \<Longrightarrow> caller_fed R r \<Longrightarrow> fed R I (setup_return r s)"
  by (cases r) (simp_all split: option.split)

lemma fed_setup:
  assumes "fed R I s" and "caller_fed R r"
  shows "fed R I (setup_catch r s)" "fed R I (setup_finish r s)" "fed R I (setup_connect r s)"
    "fed R I (setup_call r s)" "fed R I (got_microphone r s)" "fed R I (got_camera r env s)"
  using assms by (simp_all add: setup_catch_def setup_finish_def setup_connect_def setup_call_def got_microphone_def
    got_camera_def Let_def fed_return split: prod.split option.split)

lemma fed_ice: "fed R I s \<Longrightarrow> set cs \<subseteq> I \<Longrightarrow> fed R I (answer_ice cs s)" "fed R I s \<Longrightarrow> set cs \<subseteq> I \<Longrightarrow> fed R I (offerer_ice cs s)"
  by (cases cs; simp split: option.split)+

lemma fed_handle: "fed R I s \<Longrightarrow> sig_fed R I g \<Longrightarrow> fed R I (handle g s)"
  by (cases g) (auto simp: handle_def Let_def fed_setup intro!: fed_pending split: option.split dest: fed_pendingD)

lemma fed_drain: "fed R I s \<Longrightarrow> \<forall>g \<in> set es. sig_fed R I g \<Longrightarrow> fed R I (drain es s)"
  by (induction es arbitrary: s) (auto simp: fed_handle intro!: fed_queue)

lemma fed_controls [simp]:
  "fed R I (video_catch s) = fed R I s" "fed R I (flip_catch s) = fed R I s" "fed R I (video_done b m s) = fed R I s"
  "fed R I (drop_video s) = fed R I s" "fed R I (stop_camera s) = fed R I s" "fed R I (use_camera c s) = fed R I s"
  "fed R I (toggle_mute s) = fed R I s" "fed R I (toggle_video s) = fed R I s" "fed R I (switch_camera s) = fed R I s"
  by (simp_all add: overlay_control_defs Let_def)

lemma fed_new_camera:
  "fed R I s \<Longrightarrow> (\<And>s. fed R I s \<Longrightarrow> fed R I (catch s)) \<Longrightarrow> (\<And>c. cont_fed R I (k c)) \<Longrightarrow> fed R I (got_new_camera k catch out s)"
  by (simp add: got_new_camera_def split: outcome.split prod.split option.split)

lemma fed_resume: "fed R I s \<Longrightarrow> cont_fed R I k \<Longrightarrow> fed R I (resume k out s)"
  by (cases k) (auto simp: resume_def Let_def fed_setup fed_return dest: fed_pendingD
    intro!: fed_ice fed_new_camera fed_pending split: outcome.split option.split)

lemma fed_step:
  assumes "fed R I s" and "\<And>cid g. e = Live cid g \<Longrightarrow> sig_fed R I g"
  shows "fed R I (overlay_step s e)"
proof (cases e)
  case (Settle i out)
  show ?thesis
  proof (cases "take_task i (ov_tasks s)")
    case (Some kq)
    obtain k q where kq: "take_task i (ov_tasks s) = Some (k, q)" using Some by (cases kq) auto
    then have "fed R I (s\<lparr>ov_tasks := q\<rparr>)" "cont_fed R I k"
      using assms(1) take_task_SomeD [OF kq] by (auto simp: fed_def)
    then have "fed R I (resume k out (s\<lparr>ov_tasks := q\<rparr>))" by (rule fed_resume)
    then show ?thesis using Settle kq by (auto simp: Let_def fed_def intro!: fed_drain [unfolded fed_def])
  qed (use assms Settle in simp)
next
  case (Live cid g)
  have "\<forall>h \<in> set (ov_queue s @ [g]). sig_fed R I h" using assms Live by (auto simp: fed_def)
  then show ?thesis using assms(1) Live by (simp add: fed_drain)
next
  case (PeerState st)
  then show ?thesis using assms(1) by (simp add: peer_state_def Let_def split: option.split)
qed (use assms fed_setup(4) in \<open>simp_all add: Let_def\<close>)

section \<open>What an overlay posts\<close>

text \<open>A description that is posted was set as the local one before.\<close>

fun fx_made :: "call_fx list \<Rightarrow> call_fx \<Rightarrow> bool" where
  "fx_made l (Post (DoOffer d)) = (SetLocal d \<in> set l)"
| "fx_made l (Post (DoAnswer d)) = (SetLocal d \<in> set l)"
| "fx_made l _ = True"

fun cont_made :: "call_fx list \<Rightarrow> cont \<Rightarrow> bool" where
  "cont_made l (KOfferLocal d) = (SetLocal d \<in> set l)"
| "cont_made l (KAnswerLocal d) = (SetLocal d \<in> set l)"
| "cont_made l _ = True"

definition made_inv :: "overlay \<Rightarrow> bool" where
  "made_inv s \<longleftrightarrow> (\<forall>f \<in> set (ov_log s). fx_made (ov_log s) f) \<and> (\<forall>k \<in> conts (ov_tasks s). cont_made (ov_log s) k)"

lemma fx_made_mono: "fx_made l f \<Longrightarrow> set l \<subseteq> set l' \<Longrightarrow> fx_made l' f"
  by (cases "(l, f)" rule: fx_made.cases) auto

lemma cont_made_mono: "cont_made l k \<Longrightarrow> set l \<subseteq> set l' \<Longrightarrow> cont_made l' k"
  by (cases "(l, k)" rule: cont_made.cases) auto

lemma made_fx: "made_inv s \<Longrightarrow> fx_made (ov_log s) f \<Longrightarrow> made_inv (fx f s)"
  by (auto simp: made_inv_def fx_def elim!: fx_made_mono cont_made_mono)

lemma made_fx_other [simp]: "fx_made [] f \<Longrightarrow> made_inv s \<Longrightarrow> made_inv (fx f s)"
  by (rule made_fx) (auto elim: fx_made_mono)

lemma made_await: "made_inv s \<Longrightarrow> cont_made (ov_log s) k \<Longrightarrow> made_inv (await k s)"
  by (auto simp: made_inv_def await_def)

lemma made_frame [simp]:
  "made_inv (s\<lparr>ov_phase := ph\<rparr>) = made_inv s" "made_inv (s\<lparr>ov_status := m\<rparr>) = made_inv s"
  "made_inv (s\<lparr>ov_videoOn := b\<rparr>) = made_inv s" "made_inv (s\<lparr>ov_muted := b\<rparr>) = made_inv s"
  "made_inv (s\<lparr>ov_remoteVideoOn := b\<rparr>) = made_inv s" "made_inv (s\<lparr>ov_position := pos\<rparr>) = made_inv s"
  "made_inv (s\<lparr>ov_facing := fc\<rparr>) = made_inv s" "made_inv (s\<lparr>ov_localRatio := r\<rparr>) = made_inv s"
  "made_inv (s\<lparr>ov_peer := p\<rparr>) = made_inv s" "made_inv (s\<lparr>ov_stream := st\<rparr>) = made_inv s"
  "made_inv (s\<lparr>ov_sender := b\<rparr>) = made_inv s" "made_inv (s\<lparr>ov_dead := b\<rparr>) = made_inv s"
  "made_inv (s\<lparr>ov_started := b\<rparr>) = made_inv s" "made_inv (s\<lparr>ov_callPhase := ph\<rparr>) = made_inv s"
  "made_inv (s\<lparr>ov_camera := cam\<rparr>) = made_inv s" "made_inv (s\<lparr>ov_mounted := b\<rparr>) = made_inv s"
  "made_inv (s\<lparr>ov_devices := d\<rparr>) = made_inv s" "made_inv (s\<lparr>ov_handling := b\<rparr>) = made_inv s"
  "made_inv (s\<lparr>ov_received := cs\<rparr>) = made_inv s" "made_inv (s\<lparr>ov_pending := cs\<rparr>) = made_inv s"
  "made_inv (s\<lparr>ov_queue := q\<rparr>) = made_inv s" "made_inv (mark_remote s) = made_inv s"
  "made_inv (handled s) = made_inv s"
  by (simp_all add: made_inv_def mark_remote_def handled_def)

lemma made_ends [simp]:
  "made_inv s \<Longrightarrow> made_inv (cleanup s)" "made_inv s \<Longrightarrow> made_inv (end_with msg s)"
  "made_inv s \<Longrightarrow> fx_made [] (Post a) \<Longrightarrow> made_inv (finish a s)" "made_inv s \<Longrightarrow> made_inv (handler_fail s)"
proof -
  have clean: "made_inv (cleanup u)" if "made_inv u" for u
    using that by (simp add: cleanup_def Let_def split: option.split)
  then show "made_inv s \<Longrightarrow> made_inv (cleanup s)" "made_inv s \<Longrightarrow> made_inv (end_with msg s)"
    "made_inv s \<Longrightarrow> fx_made [] (Post a) \<Longrightarrow> made_inv (finish a s)" "made_inv s \<Longrightarrow> made_inv (handler_fail s)"
    by (simp_all add: overlay_end_defs)
qed

lemma made_return [simp]: "made_inv s \<Longrightarrow> made_inv (setup_return r s)"
  by (cases r) (auto intro!: made_await split: option.split)

lemma made_setup [simp]:
  assumes "made_inv s"
  shows "made_inv (setup_catch r s)" "made_inv (setup_finish r s)" "made_inv (setup_connect r s)"
    "made_inv (setup_call r s)" "made_inv (got_microphone r s)" "made_inv (got_camera r env s)"
  using assms by (auto simp: setup_catch_def setup_finish_def setup_connect_def setup_call_def got_microphone_def
    got_camera_def Let_def intro!: made_await split: prod.split option.split)

lemma made_ice [simp]: "made_inv s \<Longrightarrow> made_inv (answer_ice cs s)" "made_inv s \<Longrightarrow> made_inv (offerer_ice cs s)"
  by (cases cs; auto intro!: made_await split: option.split)+

lemma made_handle: "made_inv s \<Longrightarrow> made_inv (handle g s)"
  by (cases g) (auto simp: handle_def Let_def intro!: made_await split: option.split)

lemma made_controls [simp]:
  "made_inv s \<Longrightarrow> made_inv (video_catch s)" "made_inv s \<Longrightarrow> made_inv (flip_catch s)" "made_inv s \<Longrightarrow> made_inv (video_done b m s)"
  "made_inv s \<Longrightarrow> made_inv (drop_video s)" "made_inv s \<Longrightarrow> made_inv (stop_camera s)" "made_inv s \<Longrightarrow> made_inv (use_camera c s)"
  "made_inv s \<Longrightarrow> made_inv (toggle_mute s)" "made_inv s \<Longrightarrow> made_inv (toggle_video s)" "made_inv s \<Longrightarrow> made_inv (switch_camera s)"
  by (auto simp: overlay_control_defs Let_def intro!: made_await)

lemma made_new_camera:
  "made_inv s \<Longrightarrow> (\<And>s. made_inv s \<Longrightarrow> made_inv (catch s)) \<Longrightarrow> (\<And>c l. cont_made l (k c)) \<Longrightarrow> made_inv (got_new_camera k catch out s)"
  by (auto simp: got_new_camera_def intro!: made_await split: outcome.split prod.split option.split)

lemma made_resume:
  assumes "made_inv s" and "cont_made (ov_log s) k"
  shows "made_inv (resume k out s)"
proof -
  have offer: "made_inv (await (KOfferLocal d) (fx (SetLocal d) s))" "made_inv (await (KAnswerLocal d) (fx (SetLocal d) s))" for d
    using assms(1) by (auto intro!: made_await) (simp_all add: fx_def)
  show ?thesis using assms offer
    by (cases k) (auto simp: resume_def Let_def intro!: made_await made_fx made_new_camera split: outcome.split option.split)
qed

lemma made_mounted: "made_inv s \<Longrightarrow> \<forall>cid sig. e \<noteq> Live cid sig \<Longrightarrow> made_inv (mounted_step s e)"
  by (cases e) (auto intro!: made_await)

interpretation made: overlay_invariant made_inv "\<lambda>_ _. True"
proof
  show "made_inv s \<Longrightarrow> take_task i (ov_tasks s) = Some (k, rest) \<Longrightarrow> made_inv (resume k out (s\<lparr>ov_tasks := rest\<rparr>))" for s i k rest out
    using take_task_SomeD [of i "ov_tasks s" k rest] by (intro made_resume) (auto simp: made_inv_def)
  show "made_inv s \<Longrightarrow> made_inv (peer_state st s)" for s st
    by (simp add: peer_state_def Let_def split: option.split)
qed (simp_all add: made_handle made_mounted)

section \<open>The end in the queue\<close>

text \<open>The promise chain \<open>handling\<close> is only appended to and worked off by \<open>drain\<close>.\<close>

lemma queue_return [simp]: "ov_queue (setup_return r s) = ov_queue s"
  by (cases r) (simp_all add: overlay_ops split: option.split)

lemma queue_ice [simp]: "ov_queue (answer_ice cs s) = ov_queue s" "ov_queue (offerer_ice cs s) = ov_queue s"
  by (cases cs; simp add: overlay_end_defs fx_def await_def split: option.split)+

lemma queue_handle [simp]: "ov_queue (handle g s) = ov_queue s"
  by (cases g) (simp_all add: handle_def setup_call_def overlay_end_defs fx_def await_def Let_def split: option.split)

lemma queue_new_camera:
  "(\<And>s. ov_queue (catch s) = ov_queue s) \<Longrightarrow> ov_queue (got_new_camera k catch out s) = ov_queue s"
  by (simp add: got_new_camera_def fx_def await_def split: outcome.split prod.split option.split)

lemma queue_setup [simp]:
  "ov_queue (setup_catch r s) = ov_queue s" "ov_queue (setup_finish r s) = ov_queue s"
  "ov_queue (setup_connect r s) = ov_queue s" "ov_queue (got_microphone r s) = ov_queue s"
  "ov_queue (got_camera r env s) = ov_queue s" "ov_queue (setup_call r s) = ov_queue s"
  by (simp_all add: setup_catch_def setup_finish_def setup_connect_def got_microphone_def got_camera_def setup_call_def
      fx_def await_def Let_def split: prod.split option.split)

lemma queue_resume [simp]: "ov_queue (resume k out s) = ov_queue s"
  by (cases k) (simp_all add: resume_def Let_def queue_new_camera overlay_end_defs overlay_control_defs fx_def await_def
      split: outcome.split option.split prod.split)

lemma queue_mounted: "\<forall>cid sig. e \<noteq> Live cid sig \<Longrightarrow> ov_queue (mounted_step s e) = ov_queue s"
  by (cases e) (simp_all add: overlay_end_defs overlay_control_defs fx_def await_def Let_def)

lemma queue_peer: "ov_queue (peer_state st s) = ov_queue s"
  by (simp add: peer_state_def overlay_end_defs fx_def Let_def split: option.split)

definition end_due :: "overlay \<Rightarrow> bool" where
  "end_due s \<longleftrightarrow> ov_dead s \<or> list_ex ending (ov_queue s)"

lemma dead_drain: "ov_dead s \<Longrightarrow> ov_dead (drain es s)"
  using advance.inv_drain [of s s es] by (auto simp: advances_def)

lemma ending_kills: "ending g \<Longrightarrow> ov_dead (handle g s)"
  by (auto simp: ending_def handle_def Let_def overlay_end_defs)

lemma due_drain: "list_ex ending es \<Longrightarrow> end_due (drain es s)"
proof (induction es arbitrary: s)
  case (Cons g es)
  show ?case
  proof (cases "ov_handling s")
    case False
    show ?thesis
    proof (cases "ending g")
      case True
      then show ?thesis using False dead_drain [OF ending_kills [OF True]] by (simp add: end_due_def)
    qed (use Cons False in simp)
  qed (use Cons.prems in \<open>simp add: end_due_def\<close>)
qed simp

lemma due_drain_dead: "ov_dead s \<or> list_ex ending es \<Longrightarrow> end_due (drain es s)"
  using due_drain [of es s] dead_drain [of s es] by (auto simp: end_due_def)

lemma dead_step: "ov_dead s \<Longrightarrow> ov_dead (overlay_step s e)"
  using progress.le_step [of s e] by (simp add: advances_def)

lemma due_step:
  assumes "end_due s" and "gone_inv s"
  shows "end_due (overlay_step s e)"
proof (cases "ov_dead s")
  case False
  then have due: "list_ex ending (ov_queue s)" "ov_mounted s" using assms by (auto simp: end_due_def gone_inv_def)
  have drained: "end_due (drain (ov_queue s @ es) t)" for es t using due(1) by (intro due_drain) simp
  show ?thesis
  proof (cases e)
    case (Settle i out)
    then show ?thesis using assms(1) drained [of "[]"] by (simp add: Let_def split: option.split)
  next
    case (Live cid g)
    then show ?thesis using assms(1) drained by simp
  next
    case (PeerState st)
    then show ?thesis using due by (simp add: end_due_def queue_peer)
  next
    case (LocalCandidate c)
    then show ?thesis using due by (simp add: end_due_def fx_def)
  qed (use due queue_mounted [of e s] in \<open>simp_all add: end_due_def\<close>)
qed (simp add: end_due_def dead_step)

lemma due_delivered: "ending g \<Longrightarrow> gone_inv t \<Longrightarrow> end_due (deliver_to t g)"
  using due_drain [of "ov_queue t @ [g]" t] by (auto simp: deliver_to_def gone_inv_def end_due_def)

lemma lost_dead: "gone_inv t \<Longrightarrow> ov_dead (overlay_step t TransportClosed)"
  by (auto simp: gone_inv_def overlay_end_defs)

end
