(* ===== verification/Call_Agreement.thy ===== *)
theory Call_Agreement
  imports Call_Exchange
begin

text \<open>
  The guarantees of a whole call (\<open>Call_Relay\<close>): descriptions and candidates come from the other
  party, hanging up reaches every tab, and a call goes through from ringing to talking; and the
  race of two tabs of the callee.
\<close>

section \<open>What is under way was posted\<close>

definition posted_by :: "call_system \<Rightarrow> party \<Rightarrow> call_action \<Rightarrow> bool" where
  "posted_by s p a \<longleftrightarrow> (\<exists>t \<in> set (sy_tabs s). party_of t = p \<and> Post a \<in> set (ov_log t))"

text \<open>The descriptions and candidates that may come to a party.\<close>

definition descriptions :: "call_system \<Rightarrow> party \<Rightarrow> jstr set" where
  "descriptions s p = {d. posted_by s (other p) (if p = Callee then DoOffer d else DoAnswer d)}"

definition candidates :: "call_system \<Rightarrow> party \<Rightarrow> jstr set" where
  "candidates s p = {c. posted_by s (other p) (DoIce c)}"

abbreviation good :: "call_system \<Rightarrow> party \<Rightarrow> call_signal \<Rightarrow> bool" where
  "good s p \<equiv> sig_fed (descriptions s p) (candidates s p)"

abbreviation well_fed :: "call_system \<Rightarrow> overlay \<Rightarrow> bool" where
  "well_fed s t \<equiv> fed (descriptions s (party_of t)) (candidates s (party_of t)) t"

definition exchange_inv :: "call_system \<Rightarrow> bool" where
  "exchange_inv s \<longleftrightarrow> length (sy_frames s) = length (sy_tabs s)
     \<and> (\<forall>i < length (sy_tabs s). \<forall>g \<in> set (sy_frames s ! i). good s (party_of (sy_tabs s ! i)) g)
     \<and> (\<forall>es \<in> set (sy_emits s). \<forall>(p, g) \<in> set es. good s p g)
     \<and> (\<forall>(u, a, was) \<in> set (sy_requests s). posted_by s u a)
     \<and> (\<forall>t \<in> set (sy_tabs s). well_fed s t \<and> made_inv t \<and> gone_inv t)"

definition more_posted :: "call_system \<Rightarrow> call_system \<Rightarrow> bool" where
  "more_posted s s' \<longleftrightarrow> (\<forall>p a. posted_by s p a \<longrightarrow> posted_by s' p a)"

lemma sig_fed_mono: "sig_fed R I g \<Longrightarrow> R \<subseteq> R' \<Longrightarrow> I \<subseteq> I' \<Longrightarrow> sig_fed R' I' g"
  by (cases g) auto

lemma caller_fed_mono: "caller_fed R r \<Longrightarrow> R \<subseteq> R' \<Longrightarrow> caller_fed R' r"
  by (cases r) auto

lemma cont_fed_mono: "cont_fed R I k \<Longrightarrow> R \<subseteq> R' \<Longrightarrow> I \<subseteq> I' \<Longrightarrow> cont_fed R' I' k"
  by (cases k) (auto intro: caller_fed_mono)

lemma fx_fed_mono: "fx_fed R I f \<Longrightarrow> R \<subseteq> R' \<Longrightarrow> I \<subseteq> I' \<Longrightarrow> fx_fed R' I' f"
  by (cases f) auto

lemma fed_mono: "fed R I t \<Longrightarrow> R \<subseteq> R' \<Longrightarrow> I \<subseteq> I' \<Longrightarrow> fed R' I' t"
  unfolding fed_def by (blast intro: sig_fed_mono cont_fed_mono fx_fed_mono)

lemma more_sets: "more_posted s s' \<Longrightarrow> descriptions s p \<subseteq> descriptions s' p \<and> candidates s p \<subseteq> candidates s' p"
  by (auto simp: more_posted_def descriptions_def candidates_def)

lemma good_more: "more_posted s s' \<Longrightarrow> good s p g \<Longrightarrow> good s' p g"
  using more_sets [of s s' p] by (blast intro: sig_fed_mono)

lemma fed_more: "more_posted s s' \<Longrightarrow> fed (descriptions s p) (candidates s p) t \<Longrightarrow> fed (descriptions s' p) (candidates s' p) t"
  using more_sets [of s s' p] by (blast intro: fed_mono)

lemma same_posted: "sy_tabs s' = sy_tabs s \<Longrightarrow> descriptions s' = descriptions s \<and> candidates s' = candidates s \<and> posted_by s' = posted_by s"
  by (simp add: descriptions_def candidates_def posted_by_def fun_eq_iff)

section \<open>One tab moves\<close>

definition move :: "nat \<Rightarrow> overlay_event \<Rightarrow> call_system \<Rightarrow> call_system" where
  "move i e s = s\<lparr>sy_tabs := (sy_tabs s)[i := overlay_step (sy_tabs s ! i) e]\<rparr>"

lemma step_keeps:
  "ov_call (overlay_step t e) = ov_call t" "party_of (overlay_step t e) = party_of t"
  "set (ov_log t) \<subseteq> set (ov_log (overlay_step t e))"
proof -
  have "advances t (overlay_step t e)" by (rule progress.le_step) simp
  then show "ov_call (overlay_step t e) = ov_call t" "party_of (overlay_step t e) = party_of t"
    "set (ov_log t) \<subseteq> set (ov_log (overlay_step t e))"
    by (auto simp: advances_def party_of_def dest: set_mono_prefix)
qed

lemma move_party: "i < length (sy_tabs s) \<Longrightarrow> party_of (sy_tabs (move i e s) ! j) = party_of (sy_tabs s ! j)"
  by (cases "j = i") (simp_all add: move_def step_keeps)

lemma move_more: "more_posted s (move i e s)"
proof (cases "i < length (sy_tabs s)")
  case True
  show ?thesis unfolding more_posted_def
  proof (intro allI impI)
    fix p a assume "posted_by s p a"
    then obtain j where j: "j < length (sy_tabs s)" "party_of (sy_tabs s ! j) = p" "Post a \<in> set (ov_log (sy_tabs s ! j))"
      unfolding posted_by_def by (metis in_set_conv_nth)
    then have "Post a \<in> set (ov_log (sy_tabs (move i e s) ! j))"
      using step_keeps(3) [of "sy_tabs s ! j" e] True by (cases "j = i") (auto simp: move_def)
    then show "posted_by (move i e s) p a"
      using j True move_party [OF True, of e j] by (auto simp: posted_by_def move_def intro!: bexI [of _ "sy_tabs (move i e s) ! j"])
  qed
next
  case False
  then have "move i e s = s" by (simp add: move_def list_update_beyond)
  then show ?thesis by (simp add: more_posted_def)
qed

lemma exchange_move:
  assumes inv: "exchange_inv s" and i: "i < length (sy_tabs s)"
    and sig: "\<And>cid g. e = Live cid g \<Longrightarrow> good s (party_of (sy_tabs s ! i)) g"
  shows "exchange_inv (move i e s)"
proof -
  note more = move_more [of s i e]
  let ?t = "sy_tabs s ! i"
  have t: "well_fed s ?t" "made_inv ?t" "gone_inv ?t" using inv i by (simp_all add: exchange_inv_def)
  have "fed (descriptions s (party_of ?t)) (candidates s (party_of ?t)) (overlay_step ?t e)"
    using t(1) sig by (rule fed_step)
  then have new: "well_fed (move i e s) (overlay_step ?t e)" "made_inv (overlay_step ?t e)" "gone_inv (overlay_step ?t e)"
    using t more by (simp_all add: step_keeps fed_more made.inv_overlay_step gone.inv_overlay_step)
  have tabs: "well_fed (move i e s) u \<and> made_inv u \<and> gone_inv u" if "u \<in> set (sy_tabs (move i e s))" for u
  proof (cases "u \<in> set (sy_tabs s)")
    case True
    then show ?thesis using inv fed_more [OF more] by (simp add: exchange_inv_def)
  next
    case False
    then have "u = overlay_step ?t e" using that set_update_subset_insert [of "sy_tabs s" i] by (auto simp: move_def)
    then show ?thesis using new by simp
  qed
  have rest: "sy_frames (move i e s) = sy_frames s" "sy_emits (move i e s) = sy_emits s"
    "sy_requests (move i e s) = sy_requests s" "length (sy_tabs (move i e s)) = length (sy_tabs s)" by (simp_all add: move_def)
  have frames: "\<forall>j < length (sy_tabs s). \<forall>g \<in> set (sy_frames s ! j). good (move i e s) (party_of (sy_tabs (move i e s) ! j)) g"
    using inv move_party [OF i] good_more [OF more] by (simp add: exchange_inv_def)
  have emits: "\<forall>es \<in> set (sy_emits s). \<forall>(p, g) \<in> set es. good (move i e s) p g"
    using inv good_more [OF more] unfolding exchange_inv_def by fast
  have reqs: "\<forall>(u, a, was) \<in> set (sy_requests s). posted_by (move i e s) u a"
    using inv more unfolding exchange_inv_def more_posted_def by fast
  show ?thesis using inv tabs frames emits reqs unfolding exchange_inv_def rest by blast
qed

section \<open>Every event keeps it\<close>

lemma exchange_same:
  assumes "exchange_inv s" and "sy_tabs s' = sy_tabs s" and "sy_frames s' = sy_frames s"
    and "\<forall>es \<in> set (sy_emits s'). \<forall>(p, g) \<in> set es. good s p g" and "\<forall>(u, a, was) \<in> set (sy_requests s'). posted_by s u a"
  shows "exchange_inv s'"
  using assms same_posted [OF assms(2)] by (simp add: exchange_inv_def)

lemma exchange_frames:
  assumes "exchange_inv s" and "length fs = length (sy_tabs s)"
    and "\<And>i g. i < length fs \<Longrightarrow> g \<in> set (fs ! i) \<Longrightarrow> good s (party_of (sy_tabs s ! i)) g"
  shows "exchange_inv (s\<lparr>sy_frames := fs\<rparr>)"
  using assms same_posted [of "s\<lparr>sy_frames := fs\<rparr>" s] by (simp add: exchange_inv_def)

lemma exchange_drop:
  assumes inv: "exchange_inv s" and "set gs \<subseteq> set (sy_frames s ! i)"
  shows "exchange_inv (s\<lparr>sy_frames := (sy_frames s)[i := gs]\<rparr>)"
proof (rule exchange_frames [OF inv])
  fix j g assume j: "j < length ((sy_frames s)[i := gs])" "g \<in> set ((sy_frames s)[i := gs] ! j)"
  then have "g \<in> set (sy_frames s ! j)" using assms(2) by (cases "j = i") auto
  then show "good s (party_of (sy_tabs s ! j)) g" using inv j(1) by (simp add: exchange_inv_def)
qed (use inv in \<open>simp add: exchange_inv_def\<close>)

lemma exchange_tell:
  assumes "exchange_inv s" and "good s p g"
  shows "exchange_inv (tell p g s)"
  unfolding tell_def using assms by (intro exchange_frames) (auto simp: exchange_inv_def split: if_splits)

lemma relayed_good: "posted_by s u a \<Longrightarrow> (\<forall>d. a = DoOffer d \<longrightarrow> u = Caller) \<Longrightarrow> (\<forall>d. a = DoAnswer d \<longrightarrow> u = Callee) \<Longrightarrow> good s (other u) (relayed a)"
  by (cases a; cases u) (simp_all add: relayed_def descriptions_def candidates_def other_def)

lemma exchange_act:
  assumes "exchange_inv s"
  shows "exchange_inv (act k known s)"
proof (cases "k < length (sy_requests s)")
  case True
  obtain u a was where r: "sy_requests s ! k = (u, a, was)" by (cases "sy_requests s ! k") auto
  obtain n st es where c: "serve_action u known was (sy_state s) a = (n, st, es)" by (cases "serve_action u known was (sy_state s) a") auto
  have posted: "posted_by s u a" using assms nth_mem [OF True] r unfolding exchange_inv_def by force
  have "good s p g" if "(p, g) \<in> set es" for p g
    using emitted [OF c that] relayed_good [OF posted] by auto
  then have emits: "\<forall>fs \<in> set (sy_emits s @ [es]). \<forall>(p, g) \<in> set fs. good s p g" using assms by (auto simp: exchange_inv_def)
  have reqs: "\<forall>(u, a, was) \<in> set (remove_nth k (sy_requests s)). posted_by s u a"
    using assms by (auto simp: exchange_inv_def dest: remove_nth_sub)
  show ?thesis using True r c emits reqs by (intro exchange_same [OF assms]) (simp_all add: act_def)
qed (simp add: act_def assms)

lemma exchange_publish:
  assumes "exchange_inv s"
  shows "exchange_inv (publish_one k s)"
proof (cases "k < length (sy_emits s)")
  case True
  note emits = assms [unfolded exchange_inv_def, THEN conjunct2, THEN conjunct2, THEN conjunct1]
  show ?thesis
  proof (cases "sy_emits s ! k")
    case Nil
    have "\<forall>es \<in> set (remove_nth k (sy_emits s)). \<forall>(p, g) \<in> set es. good s p g" using emits remove_nth_sub by fast
    then have "exchange_inv (s\<lparr>sy_emits := remove_nth k (sy_emits s)\<rparr>)"
      using assms by (intro exchange_same [OF assms]) (simp_all add: exchange_inv_def)
    with Nil True show ?thesis by (simp add: publish_one_def)
  next
    case (Cons pg es)
    obtain p g where pg: "pg = (p, g)" by (cases pg)
    have all: "\<forall>(q, h) \<in> set (pg # es). good s q h" using emits nth_mem [OF True] Cons by fastforce
    let ?s = "s\<lparr>sy_emits := (sy_emits s)[k := es]\<rparr>"
    have "\<forall>fs \<in> set ((sy_emits s)[k := es]). \<forall>(q, h) \<in> set fs. good s q h"
      using emits all set_update_subset_insert [of "sy_emits s" k es] by fastforce
    then have "exchange_inv ?s" using assms by (intro exchange_same [OF assms]) (simp_all add: exchange_inv_def)
    moreover have "good ?s p g" using all pg same_posted [of ?s s] by simp
    ultimately show ?thesis using True Cons pg exchange_tell by (simp add: publish_one_def)
  qed
qed (simp add: publish_one_def assms)

lemma exchange_step: "exchange_inv s \<Longrightarrow> exchange_inv (system_step s e)"
proof (cases e)
  assume inv: "exchange_inv s"
  case (TabDoes i ev)
  have "exchange_inv (move i ev s)" if "i < length (sy_tabs s)" "own_event ev"
    using that by (intro exchange_move [OF inv]) (auto simp: own_event_def)
  then show ?thesis using inv TabDoes by (simp add: move_def)
next
  assume inv: "exchange_inv s"
  case (Reach i n)
  show ?thesis
  proof (cases "i < length (sy_tabs s) \<and> n < length (ov_log (sy_tabs s ! i))")
    case True
    then have "posted_by s (party_of (sy_tabs s ! i)) a" if "ov_log (sy_tabs s ! i) ! n = Post a" for a
      using that nth_mem [of n "ov_log (sy_tabs s ! i)"] by (auto simp: posted_by_def)
    then have "exchange_inv (s\<lparr>sy_requests := sy_requests s @ [(party_of (sy_tabs s ! i), a, sy_state s)]\<rparr>)"
      if "ov_log (sy_tabs s ! i) ! n = Post a" for a
      using inv that by (intro exchange_same [OF inv]) (auto simp: exchange_inv_def)
    then show ?thesis using inv Reach by (simp split: call_fx.split)
  qed (use inv Reach in auto)
next
  assume inv: "exchange_inv s"
  case (Frame i)
  show ?thesis
  proof (cases "i < length (sy_tabs s) \<and> sy_frames s ! i \<noteq> []")
    case True
    then obtain g gs where f: "sy_frames s ! i = g # gs" by (cases "sy_frames s ! i") auto
    let ?s = "s\<lparr>sy_frames := (sy_frames s)[i := gs]\<rparr>"
    have s: "exchange_inv ?s" using inv f by (intro exchange_drop) auto
    have "good s (party_of (sy_tabs s ! i)) g" using inv True f by (simp add: exchange_inv_def)
    then have "exchange_inv (move i (Live (Some (cs_id (ov_call (sy_tabs s ! i)))) g) ?s)"
      using True same_posted [of ?s s] by (intro exchange_move [OF s]) auto
    then show ?thesis using True f Frame by (simp add: move_def deliver_to_def)
  qed (use inv Frame in auto)
next
  assume inv: "exchange_inv s"
  case (Lose i)
  let ?s = "s\<lparr>sy_frames := (sy_frames s)[i := []]\<rparr>"
  have s: "exchange_inv ?s" using inv by (intro exchange_drop) simp_all
  then show ?thesis using inv Lose exchange_move [OF s, of i TransportClosed] by (simp add: move_def)
next
  assume inv: "exchange_inv s"
  case Expire
  then show ?thesis using inv exchange_same [OF inv, of "s\<lparr>sy_state := CallGone\<rparr>"] by (simp add: exchange_inv_def)
qed (simp_all add: exchange_act exchange_publish)

interpretation exchange: machine system_step "\<lambda>_ _. True" exchange_inv
  by unfold_locales (rule exchange_step)

lemma exchange_init: "exchange_inv (system_init calls)"
proof -
  have "fed R I (overlay_init c ok) \<and> made_inv (overlay_init c ok) \<and> gone_inv (overlay_init c ok)" for R I c ok
    by (simp add: fed_def made_inv_def gone_inv_def overlay_init_def)
  then show ?thesis by (auto simp: exchange_inv_def system_init_def)
qed

section \<open>The end is on its way\<close>

definition end_told :: "call_system \<Rightarrow> nat \<Rightarrow> bool" where
  "end_told s i \<longleftrightarrow> end_due (sy_tabs s ! i) \<or> list_ex ending (sy_frames s ! i)
     \<or> (\<exists>es \<in> set (sy_emits s). \<exists>g. ending g \<and> (party_of (sy_tabs s ! i), g) \<in> set es)"

definition ending_inv :: "call_system \<Rightarrow> bool" where
  "ending_inv s \<longleftrightarrow> exchange_inv s \<and> (sy_hungUp s \<longrightarrow> sy_state s = CallGone \<and> (\<forall>i < length (sy_tabs s). end_told s i))"

lemma gone_stays: "serve_action u known was CallGone a = (n, st, es) \<Longrightarrow> st = CallGone"
  by (cases a) (auto simp: serve_action_def Let_def split: if_splits)

lemma told_move:
  assumes "i < length (sy_tabs s)" and "gone_inv (sy_tabs s ! i)" and "end_told s j"
  shows "end_told (move i e s) j"
  using assms due_step [of "sy_tabs s ! i" e] move_party [OF assms(1), of e j]
  by (cases "j = i") (auto simp: end_told_def move_def)

lemma told_act:
  assumes "exchange_inv s" and told: "sy_hungUp s \<longrightarrow> sy_state s = CallGone \<and> (\<forall>i < length (sy_tabs s). end_told s i)"
  shows "sy_hungUp (act k known s) \<longrightarrow> sy_state (act k known s) = CallGone \<and> (\<forall>i < length (sy_tabs s). end_told (act k known s) i)"
proof (cases "k < length (sy_requests s)")
  case True
  obtain u a was where r: "sy_requests s ! k = (u, a, was)" by (cases "sy_requests s ! k") auto
  obtain n st es where c: "serve_action u known was (sy_state s) a = (n, st, es)" by (cases "serve_action u known was (sy_state s) a") auto
  have new: "st = CallGone \<and> (\<exists>g. ending g \<and> (p, g) \<in> set es)" if "list_ex (\<lambda>(p, g). ending g) es" for p
    using that ended_tells_all [OF c] by (fastforce simp: list_ex_iff)
  have old: "st = CallGone" if "sy_state s = CallGone" using gone_stays c that by simp
  have act: "act k known s = s\<lparr>sy_state := st, sy_requests := remove_nth k (sy_requests s), sy_emits := sy_emits s @ [es],
    sy_hungUp := (sy_hungUp s \<or> list_ex (\<lambda>(p, g). ending g) es)\<rparr>" using True r c by (simp add: act_def)
  show ?thesis
  proof (cases "list_ex (\<lambda>(p, g). ending g) es")
    case True
    then show ?thesis using new unfolding act by (auto simp: end_told_def)
  next
    case False
    then show ?thesis using told old unfolding act by (auto simp: end_told_def)
  qed
qed (use told in \<open>simp add: act_def\<close>)

lemma told_publish:
  assumes "exchange_inv s" and i: "i < length (sy_tabs s)" and told: "end_told s i"
  shows "end_told (publish_one k s) i"
proof (cases "k < length (sy_emits s)")
  case k: True
  have split: "set (sy_emits s) = insert (sy_emits s ! k) (set (remove_nth k (sy_emits s)))" using k by (rule remove_nth_split)
  show ?thesis
  proof (cases "sy_emits s ! k")
    case Nil
    then show ?thesis using told k split by (auto simp: publish_one_def end_told_def)
  next
    case (Cons pg es)
    obtain p g where pg: "pg = (p, g)" by (cases pg)
    have upd: "es \<in> set ((sy_emits s)[k := es])" "set (remove_nth k (sy_emits s)) \<subseteq> set ((sy_emits s)[k := es])"
      using k by (auto simp: set_update_memI remove_nth_def upd_conv_take_nth_drop)
    have frames: "sy_frames (tell p g s') ! i = (if party_of (sy_tabs s ! i) = p then sy_frames s ! i @ [g] else sy_frames s ! i)"
      if "sy_frames s' = sy_frames s" "sy_tabs s' = sy_tabs s" for s'
      using that i assms(1) by (simp add: tell_def exchange_inv_def)
    have step: "publish_one k s = tell p g (s\<lparr>sy_emits := (sy_emits s)[k := es]\<rparr>)" using k Cons pg by (simp add: publish_one_def)
    have same: "sy_tabs (tell p g s') = sy_tabs s'" "sy_emits (tell p g s') = sy_emits s'" for s' by (simp_all add: tell_def)
    from told consider "end_due (sy_tabs s ! i)" | "list_ex ending (sy_frames s ! i)"
      | fs h where "fs \<in> set (sy_emits s)" "ending h" "(party_of (sy_tabs s ! i), h) \<in> set fs"
      by (auto simp: end_told_def)
    then show ?thesis
    proof cases
      case 3
      then consider "fs \<in> set (remove_nth k (sy_emits s))" | "(party_of (sy_tabs s ! i), h) = (p, g)" | "(party_of (sy_tabs s ! i), h) \<in> set es"
        using split Cons pg by auto
      then show ?thesis
      proof cases
        case 1
        then have "fs \<in> set ((sy_emits s)[k := es])" using upd(2) by blast
        then show ?thesis using 3 unfolding step end_told_def same by auto
      next
        case 2
        then have "list_ex ending (sy_frames (publish_one k s) ! i)" using 3 frames unfolding step by simp
        then show ?thesis by (simp add: end_told_def)
      next
        case 3
        then show ?thesis using upd(1) \<open>ending h\<close> unfolding step end_told_def same by auto
      qed
    qed (simp_all add: end_told_def step same frames)
  qed
qed (use told in \<open>simp add: publish_one_def\<close>)

lemma told_frame:
  assumes "i < length (sy_tabs s)" and "length (sy_frames s) = length (sy_tabs s)" and "gone_inv (sy_tabs s ! i)"
    and "sy_frames s ! i = g # gs" and told: "end_told s j"
  shows "end_told (system_step s (Frame i)) j"
proof (cases "j = i")
  case True
  have "party_of (deliver_to (sy_tabs s ! i) g) = party_of (sy_tabs s ! i)" unfolding deliver_to_def by (rule step_keeps)
  moreover have "end_due (deliver_to (sy_tabs s ! i) g)" if "end_due (sy_tabs s ! i) \<or> ending g"
    using that due_step [OF _ assms(3)] due_delivered [OF _ assms(3)] unfolding deliver_to_def by blast
  ultimately show ?thesis using assms True by (auto simp: end_told_def)
next
  case False
  then show ?thesis using assms by (simp add: end_told_def)
qed

lemma ending_step: "ending_inv s \<Longrightarrow> ending_inv (system_step s e)"
proof -
  assume inv: "ending_inv s"
  then have ex: "exchange_inv s" and told: "sy_hungUp s \<longrightarrow> sy_state s = CallGone \<and> (\<forall>i < length (sy_tabs s). end_told s i)"
    by (simp_all add: ending_inv_def)
  have gone: "gone_inv (sy_tabs s ! i)" if "i < length (sy_tabs s)" for i using ex that by (simp add: exchange_inv_def)
  have len: "length (sy_frames s) = length (sy_tabs s)" using ex by (simp add: exchange_inv_def)
  have tabs: "length (sy_tabs (system_step s e)) = length (sy_tabs s)"
    by (cases e) (auto simp: act_def publish_one_def tell_def Let_def split: prod.split list.split call_fx.split)
  have "sy_hungUp (system_step s e) \<longrightarrow> sy_state (system_step s e) = CallGone \<and> (\<forall>j < length (sy_tabs s). end_told (system_step s e) j)"
  proof (cases e)
    case (TabDoes i ev)
    have "system_step s e = (if i < length (sy_tabs s) \<and> own_event ev then move i ev s else s)" by (simp add: TabDoes move_def)
    then show ?thesis using told told_move gone by (auto simp: move_def)
  next
    case (Reach i n)
    then show ?thesis using told by (auto simp: end_told_def split: call_fx.split)
  next
    case (Act k known)
    then show ?thesis using told_act [OF ex told] by simp
  next
    case (Publish k)
    have "sy_hungUp (publish_one k s) = sy_hungUp s" "sy_state (publish_one k s) = sy_state s"
      by (auto simp: publish_one_def tell_def split: list.split prod.split)
    then show ?thesis using Publish told told_publish [OF ex] by simp
  next
    case (Frame i)
    show ?thesis
    proof (cases "i < length (sy_tabs s) \<and> sy_frames s ! i \<noteq> []")
      case True
      then obtain g gs where f: "sy_frames s ! i = g # gs" by (cases "sy_frames s ! i") auto
      have "sy_hungUp (system_step s e) = sy_hungUp s" "sy_state (system_step s e) = sy_state s" using Frame True f by simp_all
      then show ?thesis using told told_frame [OF _ len gone f] True unfolding Frame by auto
    qed (use told Frame in auto)
  next
    case (Lose i)
    have "end_due (overlay_step (sy_tabs s ! i) TransportClosed)" if "i < length (sy_tabs s)"
      using lost_dead [OF gone [OF that]] by (simp add: end_due_def)
    then show ?thesis using told Lose len by (auto simp: end_told_def nth_list_update step_keeps simp del: overlay_step.simps)
  next
    case Expire
    then show ?thesis using told by (auto simp: end_told_def)
  qed
  then show "ending_inv (system_step s e)" using exchange_step [OF ex] tabs by (simp add: ending_inv_def)
qed

interpretation ends: machine system_step "\<lambda>_ _. True" ending_inv
  by unfold_locales (rule ending_step)

lemma ending_init: "ending_inv (system_init calls)"
  using exchange_init by (simp add: ending_inv_def system_init_def)

section \<open>Accepting\<close>

text \<open>The requests of \<open>es\<close> that accept the call: the tabs that believe they have it.\<close>

definition accepts :: "call_system \<Rightarrow> system_event \<Rightarrow> bool" where
  "accepts s e = (case e of Act k known \<Rightarrow> k < length (sy_requests s) \<and> (case sy_requests s ! k of (u, a, was) \<Rightarrow>
       a = DoAccept \<and> known \<and> fst (serve_action u known was (sy_state s) a) = 200) | _ \<Rightarrow> False)"

fun count_accepts :: "call_system \<Rightarrow> system_event list \<Rightarrow> nat" where
  "count_accepts s [] = 0"
| "count_accepts s (e # es) = (if accepts s e then 1 else 0) + count_accepts (system_step s e) es"

lemma state_step: "sy_state s \<noteq> CallRinging \<Longrightarrow> sy_state (system_step s e) \<noteq> CallRinging"
  by (cases e) (auto simp: act_def publish_one_def tell_def split: prod.split list.split call_fx.split dest: never_rings_again)

lemma accepts_ringing: "accepts s e \<Longrightarrow> sy_state s = CallRinging \<and> sy_state (system_step s e) \<noteq> CallRinging"
  by (cases e) (auto simp: accepts_def act_def serve_action_def Let_def split: if_splits)

lemma accepted_no_more: "sy_state s \<noteq> CallRinging \<Longrightarrow> count_accepts s es = 0"
proof (induction es arbitrary: s)
  case (Cons e es)
  then have "\<not> accepts s e" "sy_state (system_step s e) \<noteq> CallRinging" using accepts_ringing state_step by blast+
  then show ?case using Cons.IH by simp
qed simp

section \<open>Runs\<close>

text \<open>A call of two tabs, without camera, from ringing to talking.\<close>

definition two_tabs :: call_system where
  "two_tabs = system_init [sample_call False True, sample_call False False]"

definition talking_run :: "system_event list" where
  "talking_run = [TabDoes 1 AcceptClick, TabDoes 1 (Settle 0 Done), Reach 1 2, Act 0 True, Publish 0, Publish 0, Publish 0,
     Frame 0, TabDoes 0 (Settle 0 Done), TabDoes 1 (Settle 1 Done), TabDoes 0 (Settle 1 Done),
     TabDoes 0 (Settle 2 (Sdp (lit ''offer''))), TabDoes 0 (Settle 3 Done), Reach 0 4, Act 0 True, Publish 0, Publish 0,
     TabDoes 0 (Settle 4 Done), Frame 1, Frame 1, TabDoes 1 (Settle 2 Done), TabDoes 1 (Settle 3 Done),
     TabDoes 1 (Settle 4 (Sdp (lit ''answer''))), TabDoes 1 (Settle 5 Done), Reach 1 6, Act 0 True, Publish 0, Publish 0,
     TabDoes 1 (Settle 6 Done), Frame 0, TabDoes 0 (Settle 5 Done), TabDoes 0 (PeerState PcConnected),
     TabDoes 1 (PeerState PcConnected)]"

lemma call_goes_through:
  "map life (sy_tabs (run system_step two_tabs talking_run)) = [Talks, Talks]"
  "map ov_log (sy_tabs (run system_step two_tabs talking_run)) =
     [[AskMicrophone, NewPeer, AttachMedia False, SetLocal (lit ''offer''), Post (DoOffer (lit ''offer'')), SetRemote (lit ''answer'')],
      [AskMicrophone, NewPeer, Post DoAccept, SetRemote (lit ''offer''), AttachMedia True, SetLocal (lit ''answer''),
       Post (DoAnswer (lit ''answer''))]]"
  by code_simp+

text \<open>Two tabs of the callee accept at once. The second is refused, but the offer comes before the
  refusal, so that both answer it; the second answer makes the caller hang up.\<close>

definition race_run :: "system_event list" where
  "race_run = [TabDoes 1 AcceptClick, TabDoes 2 AcceptClick, TabDoes 1 (Settle 0 Done), TabDoes 2 (Settle 0 Done),
     Reach 1 2, Reach 2 2, Act 0 True, Act 0 True, Publish 1, Publish 0, Publish 0, Publish 0,
     Frame 0, TabDoes 0 (Settle 0 Done), TabDoes 1 (Settle 1 Done), TabDoes 0 (Settle 1 Done),
     TabDoes 0 (Settle 2 (Sdp (lit ''offer''))), TabDoes 0 (Settle 3 Done), Reach 0 4, Act 0 True, Publish 0, Publish 0,
     TabDoes 0 (Settle 4 Done),
     Frame 1, Frame 1, TabDoes 1 (Settle 2 Done), TabDoes 1 (Settle 3 Done), TabDoes 1 (Settle 4 (Sdp (lit ''answer''))),
     TabDoes 1 (Settle 5 Done),
     Frame 2, Frame 2, TabDoes 2 (Settle 2 Done), TabDoes 2 (Settle 3 Done), TabDoes 2 (Settle 4 (Sdp (lit ''late''))),
     TabDoes 2 (Settle 5 Done),
     Reach 1 6, Reach 2 6, Act 0 True, Act 0 True, Publish 0, Publish 0, Publish 0, Publish 0,
     TabDoes 1 (Settle 6 Done), TabDoes 2 (Settle 1 Failed), Frame 0, TabDoes 0 (Settle 5 Done), Frame 0,
     TabDoes 0 (Settle 6 Failed)]"

lemma two_tabs_both_answer:
  "let s = run system_step (system_init [sample_call False True, sample_call False False, sample_call False False]) race_run
   in Post (DoAnswer (lit ''answer'')) \<in> set (ov_log (sy_tabs s ! 1)) \<and> Post (DoAnswer (lit ''late'')) \<in> set (ov_log (sy_tabs s ! 2))
     \<and> map life (sy_tabs s) = [Over, Connects, Over] \<and> Post DoEnd \<in> set (ov_log (sy_tabs s ! 0))"
  by code_simp

section \<open>Properties\<close>

text \<open>C2: In a whole call, with any number of tabs on each side, requests overtaking one another and
  sockets lost at any moment, every session description a tab gives to its peer connection was made by a
  tab of the other party, and every ICE candidate it adds was gathered there.\<close>

theorem descriptions_come_from_the_other_side:
  assumes "reachable system_step (\<lambda>_ _. True) (system_init calls) s" and "i < length (sy_tabs s)"
  shows "(SetRemote d \<in> set (ov_log (sy_tabs s ! i)) \<longrightarrow>
      (\<exists>t \<in> set (sy_tabs s). party_of t = other (party_of (sy_tabs s ! i)) \<and> SetLocal d \<in> set (ov_log t)))
   \<and> (AddIce c \<in> set (ov_log (sy_tabs s ! i)) \<longrightarrow>
      (\<exists>t \<in> set (sy_tabs s). party_of t = other (party_of (sy_tabs s ! i)) \<and> Post (DoIce c) \<in> set (ov_log t)))"
proof -
  let ?t = "sy_tabs s ! i"
  have inv: "exchange_inv s" by (rule exchange.inv_reachable [OF assms(1) exchange_init])
  then have fed: "well_fed s ?t" and made: "\<forall>t \<in> set (sy_tabs s). made_inv t" using assms(2) by (simp_all add: exchange_inv_def)
  have local: "SetLocal d \<in> set (ov_log t)"
    if "t \<in> set (sy_tabs s)" "Post (if p then DoOffer d else DoAnswer d) \<in> set (ov_log t)" for t p
    using made that by (cases p) (force simp: made_inv_def)+
  have "\<exists>t \<in> set (sy_tabs s). party_of t = other (party_of ?t) \<and> SetLocal d \<in> set (ov_log t)" if "SetRemote d \<in> set (ov_log ?t)"
  proof -
    have "d \<in> descriptions s (party_of ?t)" using fed that by (force simp: fed_def)
    then show ?thesis unfolding descriptions_def posted_by_def mem_Collect_eq using local by blast
  qed
  moreover have "c \<in> candidates s (party_of ?t)" if "AddIce c \<in> set (ov_log ?t)" using fed that by (force simp: fed_def)
  ultimately show ?thesis by (auto simp: candidates_def posted_by_def)
qed

theorem descriptions_come_from_the_other_side_witness:
  "\<exists>t \<in> set (sy_tabs (run system_step two_tabs talking_run)). party_of t = Callee \<and> SetLocal (lit ''answer'') \<in> set (ov_log t)"
proof -
  let ?s = "run system_step two_tabs talking_run"
  have "reachable system_step (\<lambda>_ _. True) two_tabs ?s" by (rule admissible_reachable) (rule admissible_True)
  moreover have "0 < length (sy_tabs ?s) \<and> SetRemote (lit ''answer'') \<in> set (ov_log (sy_tabs ?s ! 0))
      \<and> other (party_of (sy_tabs ?s ! 0)) = Callee" by code_simp
  ultimately show ?thesis
    using descriptions_come_from_the_other_side [of "[sample_call False True, sample_call False False]" ?s 0 "lit ''answer''"]
    unfolding two_tabs_def by metis
qed


definition hang_up_run :: "system_event list" where
  "hang_up_run = talking_run @ [TabDoes 1 EndClick, Reach 1 9, Act 0 True, Publish 0, Publish 0, Publish 0, Frame 0]"


text \<open>C8: However many tabs of the callee press Accept, and in whatever order the server handles their
  requests, at most one of them is told that it has the call.\<close>

theorem call_accepted_once: "count_accepts (system_init calls) es \<le> 1"
proof -
  have "count_accepts s es \<le> 1" for s
  proof (induction es arbitrary: s)
    case (Cons e es)
    show ?case
    proof (cases "accepts s e")
      case True
      then show ?thesis using accepts_ringing accepted_no_more by simp
    qed (use Cons in simp)
  qed simp
  then show ?thesis .
qed

end
