(* ===== verification/Message_List.thy ===== *)
theory Message_List
  imports Web_Prelude
begin

text \<open>
  The message list of a conversation (\<open>components/communication/messages.tsx\<close>) and the rows it
  comes from (the \<open>messages\<close> handler of the server): merging a page into the list, the page
  query, and the insertion that makes a repeated send harmless.
\<close>

section \<open>Messages\<close>

record message =
  me_id :: nat
  me_clientId :: jstr
  me_senderId :: jstr
  me_body :: jstr
  me_createdAt :: jstr

text \<open>\<open>new Map([...].map((m) => [m.id, m]))\<close>: a later entry replaces the value of an earlier one with
  the same key, in its place; \<open>values()\<close> are in insertion order.\<close>

fun map_put :: "message \<Rightarrow> message list \<Rightarrow> message list" where
  "map_put m [] = [m]"
| "map_put m (x # xs) = (if me_id x = me_id m then m # xs else x # map_put m xs)"

definition map_values :: "message list \<Rightarrow> message list" where
  "map_values ms = foldl (\<lambda>acc m. map_put m acc) [] ms"

text \<open>\<open>[...new Map(...).values()].sort((a, b) => a.id - b.id)\<close>\<close>

definition merge_messages :: "message list \<Rightarrow> message list \<Rightarrow> message list" where
  "merge_messages current next = sort_key me_id (map_values (current @ next))"

definition find_id :: "nat \<Rightarrow> message list \<Rightarrow> message option" where
  "find_id i ms = find (\<lambda>m. me_id m = i) ms"

text \<open>A list as it is shown: ascending, each message once.\<close>

definition thread_sorted :: "message list \<Rightarrow> bool" where
  "thread_sorted ms \<longleftrightarrow> sorted_wrt (<) (map me_id ms)"

lemma find_id_simps [simp]:
  "find_id i [] = None"
  "find_id i (m # ms) = (if me_id m = i then Some m else find_id i ms)"
  by (simp_all add: find_id_def)

lemma find_id_append: "find_id i (xs @ ys) = (case find_id i xs of Some m \<Rightarrow> Some m | None \<Rightarrow> find_id i ys)"
  by (induction xs) auto

lemma find_id_None: "find_id i ms = None \<longleftrightarrow> i \<notin> me_id ` set ms"
  by (auto simp: find_id_def find_None_iff)

lemma find_id_distinct:
  "distinct (map me_id ms) \<Longrightarrow> find_id i ms = Some m \<longleftrightarrow> m \<in> set ms \<and> me_id m = i"
  by (induction ms) (auto simp: image_iff)

lemma find_id_set:
  assumes "distinct (map me_id xs)" and "distinct (map me_id ys)" and "set xs = set ys"
  shows "find_id i xs = find_id i ys"
proof (cases "find_id i ys")
  case None
  then show ?thesis using assms(3) by (simp add: find_id_None [THEN iffD2] find_id_None [THEN iffD1])
next
  case (Some m)
  then have "find_id i xs = Some m" using assms by (simp add: find_id_distinct)
  with Some show ?thesis by simp
qed

lemma find_id_rev: "distinct (map me_id ms) \<Longrightarrow> find_id i (rev ms) = find_id i ms"
  by (rule find_id_set) (simp_all flip: rev_map)

lemma ids_map_put: "me_id ` set (map_put m ms) = insert (me_id m) (me_id ` set ms)"
  by (induction ms) auto

lemma distinct_map_put: "distinct (map me_id ms) \<Longrightarrow> distinct (map me_id (map_put m ms))"
proof (induction ms)
  case (Cons x xs)
  have "me_id x \<noteq> me_id m \<Longrightarrow> me_id x \<notin> me_id ` set (map_put m xs)"
    using Cons.prems by (simp add: ids_map_put)
  with Cons show ?case by auto
qed simp

lemma find_map_put: "find_id i (map_put m ms) = (if i = me_id m then Some m else find_id i ms)"
  by (induction ms) auto

lemma map_values_snoc [simp]: "map_values (ms @ [m]) = map_put m (map_values ms)" "map_values [] = []"
  by (simp_all add: map_values_def)

lemma map_values_correct:
  "distinct (map me_id (map_values ms)) \<and> find_id i (map_values ms) = find_id i (rev ms)"
  by (induction ms rule: rev_induct) (auto simp: distinct_map_put find_map_put)

lemma distinct_sort_ids: "distinct (map me_id (sort_key me_id ms)) = distinct (map me_id ms)"
  by (metis distinct_map distinct_sort set_sort)

lemma merge_sorted: "thread_sorted (merge_messages current next)"
  by (simp add: thread_sorted_def merge_messages_def strict_sorted_iff distinct_sort_ids map_values_correct)

lemma thread_sorted_distinct: "thread_sorted ms \<Longrightarrow> distinct (map me_id ms)"
  by (simp add: thread_sorted_def strict_sorted_iff)

lemma find_sort: "distinct (map me_id ms) \<Longrightarrow> find_id i (sort_key me_id ms) = find_id i ms"
  by (rule find_id_set) (simp_all add: distinct_sort_ids)

lemma merge_find:
  "find_id i (merge_messages current next) = (case find_id i (rev next) of Some m \<Rightarrow> Some m | None \<Rightarrow> find_id i (rev current))"
  by (simp add: merge_messages_def find_sort map_values_correct find_id_append)

lemma merge_set:
  assumes "thread_sorted current" and "distinct (map me_id next)"
  shows "m \<in> set (merge_messages current next) \<longleftrightarrow>
    m \<in> set next \<or> m \<in> set current \<and> me_id m \<notin> me_id ` set next"
proof -
  have "m \<in> set (merge_messages current next) \<longleftrightarrow> find_id (me_id m) (merge_messages current next) = Some m"
    by (simp add: find_id_distinct [OF thread_sorted_distinct [OF merge_sorted]])
  also have "\<dots> \<longleftrightarrow> (case find_id (me_id m) next of Some m' \<Rightarrow> m' = m | None \<Rightarrow> find_id (me_id m) current = Some m)"
    using assms(2) thread_sorted_distinct [OF assms(1)] by (simp add: merge_find find_id_rev split: option.split)
  also have "\<dots> \<longleftrightarrow> m \<in> set next \<or> m \<in> set current \<and> me_id m \<notin> me_id ` set next"
  proof (cases "find_id (me_id m) next")
    case None
    then have "me_id m \<notin> me_id ` set next" by (simp only: find_id_None not_False_eq_True)
    with None show ?thesis using thread_sorted_distinct [OF assms(1)] by (auto simp: find_id_distinct)
  next
    case (Some m')
    then have m': "m' \<in> set next" "me_id m' = me_id m" using assms(2) by (simp_all add: find_id_distinct)
    moreover have "m \<in> set next \<Longrightarrow> m' = m"
      using assms(2) m' by (auto simp: distinct_map dest: inj_onD)
    ultimately have eq: "m \<in> set next \<longleftrightarrow> m' = m" by auto
    have "me_id m \<in> me_id ` set next" using imageI [OF m'(1), of me_id] m'(2) by simp
    with Some eq show ?thesis by simp
  qed
  finally show ?thesis .
qed

section \<open>Rows on the server\<close>

text \<open>\<open>internal/communication/handler.go\<close>, \<open>messages\<close>, and the \<open>messages\<close> table. Rows are kept in the
  order of their identity column; every insertion attempt draws a number, also one that ends in
  the conflict clause.\<close>

record row =
  ro_connection :: jstr
  ro_message :: message

record store =
  st_rows :: "row list"
  st_next :: nat

definition empty_store :: store where
  "empty_store = \<lparr>st_rows = [], st_next = 1\<rparr>"

definition page_size :: nat where
  "page_size = 60"

text \<open>\<open>WHERE connection_id=$1 AND ($2=0 OR id<$2) ORDER BY id DESC LIMIT 60\<close>\<close>

definition rows_of :: "jstr \<Rightarrow> store \<Rightarrow> message list" where
  "rows_of conn st = map ro_message (filter (\<lambda>r. ro_connection r = conn) (st_rows st))"

definition page_before :: "jstr \<Rightarrow> nat \<Rightarrow> store \<Rightarrow> message list" where
  "page_before conn before st =
     take page_size (rev (filter (\<lambda>m. before = 0 \<or> me_id m < before) (rows_of conn st)))"

text \<open>\<open>INSERT ... ON CONFLICT(sender_id,client_id) DO UPDATE SET body=messages.body WHERE
  messages.connection_id=EXCLUDED.connection_id RETURNING ...\<close>: \<open>None\<close> is the 409.\<close>

definition same_key :: "jstr \<Rightarrow> jstr \<Rightarrow> row \<Rightarrow> bool" where
  "same_key sender client r \<longleftrightarrow> me_senderId (ro_message r) = sender \<and> me_clientId (ro_message r) = client"

definition insert_message :: "jstr \<Rightarrow> jstr \<Rightarrow> jstr \<Rightarrow> jstr \<Rightarrow> jstr \<Rightarrow> store \<Rightarrow> message option \<times> store" where
  "insert_message conn sender client body time st =
     (let st' = st\<lparr>st_next := Suc (st_next st)\<rparr> in
      case find (same_key sender client) (st_rows st) of
        Some r \<Rightarrow> (if ro_connection r = conn then Some (ro_message r) else None, st')
      | None \<Rightarrow> (let m = \<lparr>me_id = st_next st, me_clientId = client, me_senderId = sender, me_body = body,
                        me_createdAt = time\<rparr>
          in (Some m, st'\<lparr>st_rows := st_rows st @ [\<lparr>ro_connection = conn, ro_message = m\<rparr>]\<rparr>)))"

definition store_inv :: "store \<Rightarrow> bool" where
  "store_inv st \<longleftrightarrow> thread_sorted (map ro_message (st_rows st))
     \<and> (\<forall>r \<in> set (st_rows st). 0 < me_id (ro_message r) \<and> me_id (ro_message r) < st_next st)
     \<and> 0 < st_next st
     \<and> distinct (map (\<lambda>r. (me_senderId (ro_message r), me_clientId (ro_message r))) (st_rows st))"

lemma store_inv_empty: "store_inv empty_store"
  by (simp add: store_inv_def empty_store_def thread_sorted_def)

lemma find_same_key_None:
  "find (same_key s c) rs = None \<longleftrightarrow> (s, c) \<notin> (\<lambda>r. (me_senderId (ro_message r), me_clientId (ro_message r))) ` set rs"
  by (auto simp: find_None_iff same_key_def)

lemma store_inv_insert:
  assumes "store_inv st" and "insert_message conn sender client body time st = (reply, st')"
  shows "store_inv st'"
proof (cases "find (same_key sender client) (st_rows st)")
  case None
  let ?m = "\<lparr>me_id = st_next st, me_clientId = client, me_senderId = sender, me_body = body, me_createdAt = time\<rparr>"
  have "st' = st\<lparr>st_rows := st_rows st @ [\<lparr>ro_connection = conn, ro_message = ?m\<rparr>], st_next := Suc (st_next st)\<rparr>"
    using assms(2) None by (auto simp: insert_message_def Let_def)
  then show ?thesis using assms(1) None [unfolded find_same_key_None]
    by (auto simp: store_inv_def thread_sorted_def sorted_wrt_append less_Suc_eq)
next
  case (Some r)
  then have "st' = st\<lparr>st_next := Suc (st_next st)\<rparr>"
    using assms(2) by (auto simp: insert_message_def Let_def)
  then show ?thesis using assms(1) by (auto simp: store_inv_def less_Suc_eq)
qed

section \<open>Pages and the whole conversation\<close>

lemma thread_sorted_Nil [simp]: "thread_sorted []"
  by (simp add: thread_sorted_def)

lemma thread_sorted_append:
  "thread_sorted (xs @ ys) \<longleftrightarrow> thread_sorted xs \<and> thread_sorted ys \<and> (\<forall>x \<in> set xs. \<forall>y \<in> set ys. me_id x < me_id y)"
  by (auto simp: thread_sorted_def sorted_wrt_append)

lemma thread_sorted_unique:
  assumes "thread_sorted xs" and "thread_sorted ys" and "set xs = set ys"
  shows "xs = ys"
proof -
  have "map me_id xs = map me_id ys"
    using assms by (intro sorted_distinct_set_unique) (auto simp: thread_sorted_def strict_sorted_iff)
  moreover have "inj_on me_id (set xs \<union> set ys)"
    using assms thread_sorted_distinct [OF assms(1)] by (simp add: distinct_map)
  ultimately show ?thesis by (rule map_inj_on)
qed

lemma rows_of_sorted:
  assumes "store_inv st"
  shows "thread_sorted (rows_of conn st)"
proof -
  have "thread_sorted (map ro_message (filter P rs))" if "thread_sorted (map ro_message rs)" for P and rs :: "row list"
    using that by (induction rs) (auto simp: thread_sorted_def)
  then show ?thesis using assms by (simp add: store_inv_def rows_of_def)
qed

lemma rows_of_pos: "store_inv st \<Longrightarrow> m \<in> set (rows_of conn st) \<Longrightarrow> 0 < me_id m"
  by (auto simp: store_inv_def rows_of_def)

text \<open>A page, put in ascending order, is the end of the part of the conversation it was asked for.\<close>

lemma rev_take_rev: "rev (take n (rev xs)) = drop (length xs - n) xs"
  by (simp add: take_rev)

lemma page_newest: "rev (page_before conn 0 st) = drop (length (rows_of conn st) - page_size) (rows_of conn st)"
  by (simp add: page_before_def rev_take_rev)

lemma filter_below:
  assumes "thread_sorted (xs @ m # ys)"
  shows "filter (\<lambda>n. me_id n < me_id m) (xs @ m # ys) = xs"
proof -
  have "filter (\<lambda>n. me_id n < me_id m) xs = xs" "filter (\<lambda>n. me_id n < me_id m) ys = []"
    using assms by (auto simp: thread_sorted_def sorted_wrt_append filter_empty_conv intro!: filter_True)
  then show ?thesis by simp
qed

lemma page_older:
  assumes "store_inv st" and "rows_of conn st = xs @ m # ys"
  shows "rev (page_before conn (me_id m) st) = drop (length xs - page_size) xs"
proof -
  have "0 < me_id m" using rows_of_pos [OF assms(1), of m conn] assms(2) by simp
  moreover have "filter (\<lambda>n. me_id n < me_id m) (rows_of conn st) = xs"
    using filter_below [of xs m ys] rows_of_sorted [OF assms(1), of conn] assms(2) by simp
  ultimately show ?thesis by (simp add: page_before_def rev_take_rev)
qed

end
