(* ===== verification/Message_Thread.thy ===== *)
theory Message_Thread
  imports Message_List Comm_Runtime "HOL-Library.Sublist"
begin

text \<open>
  \<open>components/communication/messages.tsx\<close>: the inbox with one open conversation. One
  \<open>thread\<close> record is the state of a \<open>ConversationInbox\<close>, which React creates anew for every
  selected connection. The loading effect runs again when \<open>userId\<close> changes; \<open>th_gen\<close> numbers its
  runs, and a continuation of an earlier run finds its \<open>stopped\<close> set.
\<close>

section \<open>State\<close>

record connection =
  co_id :: jstr
  co_preview :: jstr
  co_unread :: nat
  co_person :: jstr
  co_displayName :: jstr
  co_avatarUrl :: jstr

datatype th_fx = GetConversations | GetMessages nat | GetNotices
  | SendReceipt nat bool | SendMessage jstr jstr | SendTyping nat
  | RequestCall jstr bool | GoHome | GoTo jstr | ScrollDown

record pending =
  pd_body :: jstr
  pd_clientId :: jstr

datatype th_cont = TkConv | TkConvJson | TkLoad nat jstr | TkLoadJson nat jstr | TkReceipt nat
  | TkSend | TkSendJson | TkOlder nat | TkOlderJson nat | TkCall

datatype th_outcome = ThStatus nat | ThConversations "connection list"
  | ThPage "message list" nat nat    \<comment> \<open>\<open>messages\<close> (newest first), \<open>deliveredId\<close>, \<open>readId\<close>\<close>
  | ThMessage message | ThOk | ThFailed "jstr option"  \<comment> \<open>the message, when it is an \<open>Error\<close>\<close>

record thread =
  th_selected :: jstr
  th_userId :: jstr
  th_mounted :: bool
  th_gen :: nat
  th_loading :: bool
  th_visible :: bool
  th_typingAllowed :: bool
  th_online :: bool
  th_connections :: "connection list"
  th_search :: jstr
  th_items :: "message list"
  th_draft :: jstr
  th_status :: jstr
  th_sending :: bool
  th_typing :: bool
  th_readId :: nat
  th_deliveredId :: nat
  th_hasOlder :: bool
  th_olderExhausted :: bool
  th_skipScroll :: bool
  th_stickToBottom :: bool
  th_lastTyping :: nat
  th_retry :: "pending option"
  th_timer :: bool
  th_tasks :: "th_cont pool"
  th_next :: nat
  th_log :: "th_fx list"

definition th_do :: "th_fx \<Rightarrow> thread \<Rightarrow> thread" where
  "th_do f s = s\<lparr>th_log := th_log s @ [f]\<rparr>"

definition th_await :: "th_cont \<Rightarrow> thread \<Rightarrow> thread" where
  "th_await k s = s\<lparr>th_tasks := th_tasks s @ [(th_next s, k)], th_next := Suc (th_next s)\<rparr>"

definition person_of :: "thread \<Rightarrow> connection option" where
  "person_of s = find (\<lambda>c. co_id c = th_selected s) (th_connections s)"

text \<open>\<open>setItems\<close> with the scroll effect on \<open>items.length\<close>.\<close>

definition set_items :: "message list \<Rightarrow> thread \<Rightarrow> thread" where
  "set_items ms s =
     (let changed = length ms \<noteq> length (th_items s); s = s\<lparr>th_items := ms\<rparr> in
      if \<not> changed then s
      else if th_skipScroll s then s\<lparr>th_skipScroll := False\<rparr>
      else if th_stickToBottom s \<and> th_mounted s then th_do ScrollDown s else s)"

section \<open>Loading\<close>

definition load_connections :: "thread \<Rightarrow> thread" where
  "load_connections s = th_await TkConv (th_do GetConversations s)"

definition load_thread :: "thread \<Rightarrow> thread" where
  "load_thread s = (if th_loading s then s
     else th_await (TkLoad (th_gen s) (th_userId s)) (th_do (GetMessages 0) (s\<lparr>th_loading := True\<rparr>)))"

definition live_run :: "nat \<Rightarrow> thread \<Rightarrow> bool" where
  "live_run g s \<longleftrightarrow> th_mounted s \<and> g = th_gen s"

text \<open>\<open>finally { loading = false; }\<close>; the variable belongs to one run of the effect.\<close>

definition load_done :: "nat \<Rightarrow> thread \<Rightarrow> thread" where
  "load_done g s = (if g = th_gen s then s\<lparr>th_loading := False\<rparr> else s)"

definition load_catch :: "nat \<Rightarrow> thread \<Rightarrow> thread" where
  "load_catch g s = load_done g (if live_run g s
     then s\<lparr>th_status := lit ''Connection interrupted. Your messages are saved.''\<rparr> else s)"

definition load_refused :: "nat \<Rightarrow> nat \<Rightarrow> thread \<Rightarrow> thread" where
  "load_refused g n s = load_done g (if live_run g s
     then set_items [] (s\<lparr>th_status := (if n = 403 then lit ''This connection is no longer available.''
       else lit ''Could not load messages.'')\<rparr>) else s)"

definition last_incoming :: "jstr \<Rightarrow> message list \<Rightarrow> message option" where
  "last_incoming u ms = (case filter (\<lambda>m. me_senderId m \<noteq> u) ms of [] \<Rightarrow> None | xs \<Rightarrow> Some (last xs))"

definition got_page :: "nat \<Rightarrow> jstr \<Rightarrow> message list \<Rightarrow> nat \<Rightarrow> nat \<Rightarrow> thread \<Rightarrow> thread" where
  "got_page g u page delivered_id read_id s =
     (if \<not> live_run g s then load_done g s
      else let next = rev page;
        s = (set_items (merge_messages (th_items s) next) s)
          \<lparr>th_hasOlder := \<not> th_olderExhausted s \<and> length page = 60,
           th_readId := read_id, th_deliveredId := delivered_id, th_status := []\<rparr>
      in case last_incoming u next of
          Some m \<Rightarrow> if u \<noteq> [] then th_await (TkReceipt g) (th_do (SendReceipt (me_id m) (th_visible s)) s)
            else load_done g s
        | None \<Rightarrow> load_done g s)"

section \<open>Sending\<close>

text \<open>\<open>send\<close>; \<open>uuid\<close> is what \<open>crypto.randomUUID()\<close> would return.\<close>

definition next_pending :: "jstr \<Rightarrow> thread \<Rightarrow> pending" where
  "next_pending uuid s = (case th_retry s of
       Some p \<Rightarrow> if pd_body p = trim (th_draft s) then p else \<lparr>pd_body = trim (th_draft s), pd_clientId = uuid\<rparr>
     | None \<Rightarrow> \<lparr>pd_body = trim (th_draft s), pd_clientId = uuid\<rparr>)"

definition send :: "jstr \<Rightarrow> thread \<Rightarrow> thread" where
  "send uuid s =
     (if blank (th_draft s) \<or> th_sending s \<or> th_selected s = [] then s
      else let p = next_pending uuid s in
        th_await TkSend (th_do (SendMessage (pd_body p) (pd_clientId p))
          (s\<lparr>th_sending := True, th_retry := Some p\<rparr>)))"

definition send_failed :: "thread \<Rightarrow> thread" where
  "send_failed s = s\<lparr>th_status := lit ''Not sent. Your draft is safe. Tap Send to retry.'', th_sending := False\<rparr>"

definition send_done :: "message \<Rightarrow> thread \<Rightarrow> thread" where
  "send_done m s =
     (let s = set_items (merge_messages (th_items s) [m]) (s\<lparr>th_stickToBottom := True\<rparr>)
      in (th_do GetNotices s)\<lparr>th_draft := [], th_retry := None, th_status := [], th_sending := False\<rparr>)"

section \<open>Earlier messages, calls, typing\<close>

definition older :: "thread \<Rightarrow> thread" where
  "older s = (case th_items s of [] \<Rightarrow> s
     | m # _ \<Rightarrow> th_await (TkOlder (me_id m)) (th_do (GetMessages (me_id m)) s))"

definition got_older :: "message list \<Rightarrow> thread \<Rightarrow> thread" where
  "got_older page s =
     (let s = s\<lparr>th_skipScroll := True, th_olderExhausted := length page < 60\<rparr>
      in (set_items (rev page @ th_items s) s)\<lparr>th_hasOlder := length page = 60\<rparr>)"

definition call_person :: "bool \<Rightarrow> thread \<Rightarrow> thread" where
  "call_person video s = (case person_of s of None \<Rightarrow> s
     | Some c \<Rightarrow> if th_online s then th_await TkCall (th_do (RequestCall (co_displayName c) video) s) else s)"

text \<open>The textarea's \<open>onChange\<close>; \<open>now\<close> is \<open>Date.now()\<close>.\<close>

definition edit_draft :: "jstr \<Rightarrow> nat \<Rightarrow> thread \<Rightarrow> thread" where
  "edit_draft text now s =
     (let s = s\<lparr>th_draft := text\<rparr> in
      if th_typingAllowed s \<and> now - th_lastTyping s > 2000
      then th_do (SendTyping now) (s\<lparr>th_lastTyping := now\<rparr>) else s)"

text \<open>The label under a message the user sent.\<close>

datatype receipt = Sent | Delivered | Read

definition receipt_label :: "thread \<Rightarrow> message \<Rightarrow> receipt" where
  "receipt_label s m = (if me_id m \<le> th_readId s then Read
     else if me_id m \<le> th_deliveredId s then Delivered else Sent)"

text \<open>The search box; \<open>lower\<close> is \<open>toLocaleLowerCase\<close>.\<close>

definition found_connections :: "(jstr \<Rightarrow> jstr) \<Rightarrow> thread \<Rightarrow> connection list" where
  "found_connections lower s =
     filter (\<lambda>c. sublist (lower (th_search s)) (lower (co_displayName c))) (th_connections s)"

section \<open>Resuming\<close>

fun th_resume :: "th_cont \<Rightarrow> th_outcome \<Rightarrow> thread \<Rightarrow> thread" where
  "th_resume TkConv out s = (case out of
       ThStatus n \<Rightarrow> if n = 401 then th_do GoHome s
         else if ok_status n then th_await TkConvJson s
         else if th_mounted s then s\<lparr>th_status := lit ''Could not load connections. Please refresh.''\<rparr> else s
     | _ \<Rightarrow> if th_mounted s then s\<lparr>th_status := lit ''Could not load connections. Please refresh.''\<rparr> else s)"
| "th_resume TkConvJson out s = (case out of
       ThConversations cs \<Rightarrow> if th_mounted s then s\<lparr>th_connections := cs, th_status := []\<rparr> else s
     | _ \<Rightarrow> if th_mounted s then s\<lparr>th_status := lit ''Could not load connections. Please refresh.''\<rparr> else s)"
| "th_resume (TkLoad g u) out s = (case out of
       ThStatus n \<Rightarrow> if ok_status n then th_await (TkLoadJson g u) s else load_refused g n s
     | _ \<Rightarrow> load_catch g s)"
| "th_resume (TkLoadJson g u) out s = (case out of
       ThPage page d r \<Rightarrow> got_page g u page d r s | _ \<Rightarrow> load_catch g s)"
| "th_resume (TkReceipt g) out s = (case out of
       ThFailed _ \<Rightarrow> load_catch g s | _ \<Rightarrow> load_done g s)"
| "th_resume TkSend out s = (case out of
       ThStatus n \<Rightarrow> if ok_status n then th_await TkSendJson s else send_failed s
     | _ \<Rightarrow> send_failed s)"
| "th_resume TkSendJson out s = (case out of ThMessage m \<Rightarrow> send_done m s | _ \<Rightarrow> send_failed s)"
| "th_resume (TkOlder b) out s = (case out of
       ThStatus n \<Rightarrow> if ok_status n then th_await (TkOlderJson b) s
         else s\<lparr>th_status := lit ''Could not load earlier messages.''\<rparr>
     | _ \<Rightarrow> s)"
| "th_resume (TkOlderJson b) out s = (case out of ThPage page d r \<Rightarrow> got_older page s | _ \<Rightarrow> s)"
| "th_resume TkCall out s = (case out of
       ThFailed e \<Rightarrow> s\<lparr>th_status := (case e of Some msg \<Rightarrow> msg | None \<Rightarrow> lit ''Could not call.'')\<rparr>
     | _ \<Rightarrow> s)"

section \<open>Events\<close>

datatype th_event =
    ThSettle nat th_outcome | ThPoll | ThConvPoll | ThVisible bool | ThLive live_event | ThTypingTimeout
  | ThDraft jstr nat | ThSubmit jstr | ThOlder | ThCall bool | ThChoose jstr | ThSearch jstr
  | ThScrolled bool | ThUser jstr | ThSettings settings | ThOnline bool | ThUnmount

definition start_effect :: "thread \<Rightarrow> thread" where
  "start_effect s = (if th_selected s = [] then s else load_thread s)"

definition on_live :: "live_event \<Rightarrow> thread \<Rightarrow> thread" where
  "on_live ev s =
     (let s = (if has_type ev ''message.created'' then load_connections s else s) in
      if th_selected s = [] \<or> ev_connection ev \<noteq> Some (th_selected s) then s
      else if has_type ev ''typing'' then s\<lparr>th_typing := True, th_timer := True\<rparr>
      else if has_type ev ''message.created'' \<or> has_type ev ''receipt'' then load_thread s else s)"

fun mounted_thread :: "thread \<Rightarrow> th_event \<Rightarrow> thread" where
  "mounted_thread s ThPoll = (if th_selected s = [] then s else load_thread s)"
| "mounted_thread s ThConvPoll = load_connections s"
| "mounted_thread s (ThVisible b) = (let s = s\<lparr>th_visible := b\<rparr> in
     if b \<and> th_selected s \<noteq> [] then load_thread s else s)"
| "mounted_thread s (ThLive ev) = on_live ev s"
| "mounted_thread s ThTypingTimeout = (if th_timer s then s\<lparr>th_typing := False, th_timer := False\<rparr> else s)"
| "mounted_thread s (ThDraft text now) = (if person_of s = None then s else edit_draft text now s)"
| "mounted_thread s (ThSubmit uuid) = (if person_of s = None then s else send uuid s)"
| "mounted_thread s ThOlder = (if person_of s \<noteq> None \<and> th_hasOlder s then older s else s)"
| "mounted_thread s (ThCall video) = call_person video s"
| "mounted_thread s (ThChoose i) = th_do (GoTo i) s"
| "mounted_thread s (ThSearch q) = s\<lparr>th_search := q\<rparr>"
| "mounted_thread s (ThScrolled near) = s\<lparr>th_stickToBottom := near\<rparr>"
| "mounted_thread s (ThUser u) = (if u = th_userId s then s
     else start_effect (s\<lparr>th_userId := u, th_gen := Suc (th_gen s), th_loading := False, th_timer := False\<rparr>))"
| "mounted_thread s (ThSettings se) = s\<lparr>th_typingAllowed := se_typing se\<rparr>"
| "mounted_thread s (ThOnline b) = s\<lparr>th_online := b\<rparr>"
| "mounted_thread s ThUnmount = s\<lparr>th_mounted := False, th_timer := False\<rparr>"
| "mounted_thread s _ = s"

fun thread_step :: "thread \<Rightarrow> th_event \<Rightarrow> thread" where
  "thread_step s (ThSettle i out) = (case take_task i (th_tasks s) of None \<Rightarrow> s
     | Some (k, rest) \<Rightarrow> th_resume k out (s\<lparr>th_tasks := rest\<rparr>))"
| "thread_step s e = (if th_mounted s then mounted_thread s e else s)"

definition thread_init :: "jstr \<Rightarrow> jstr \<Rightarrow> thread" where
  "thread_init selected user = start_effect (load_connections
     \<lparr>th_selected = selected, th_userId = user, th_mounted = True, th_gen = 0, th_loading = False,
      th_visible = True, th_typingAllowed = True, th_online = False, th_connections = [], th_search = [],
      th_items = [], th_draft = [], th_status = lit ''Loading connections...'', th_sending = False,
      th_typing = False, th_readId = 0, th_deliveredId = 0, th_hasOlder = False,
      th_olderExhausted = False, th_skipScroll = False, th_stickToBottom = True, th_lastTyping = 0,
      th_retry = None, th_timer = False, th_tasks = [], th_next = 0, th_log = []\<rparr>)"

end
