(* ===== verification/Message_Guarantees.thy ===== *)
theory Message_Guarantees
  imports Message_Thread
begin

text \<open>
  What the conversation view guarantees: loads do not overlap, a repeated send is the same send
  for the server, the list shows each message once, typing signals are throttled, and a read
  receipt is only sent for what the user can see.
\<close>

section \<open>Selectors of the operations\<close>

lemma set_items_sel [simp]:
  "th_items (set_items ms s) = ms" "th_tasks (set_items ms s) = th_tasks s" "th_next (set_items ms s) = th_next s"
  "th_gen (set_items ms s) = th_gen s" "th_loading (set_items ms s) = th_loading s"
  "th_retry (set_items ms s) = th_retry s" "th_draft (set_items ms s) = th_draft s"
  "th_mounted (set_items ms s) = th_mounted s" "th_visible (set_items ms s) = th_visible s"
  "th_lastTyping (set_items ms s) = th_lastTyping s" "th_sending (set_items ms s) = th_sending s"
  "th_selected (set_items ms s) = th_selected s" "th_hasOlder (set_items ms s) = th_hasOlder s"
  "th_olderExhausted (set_items ms s) = th_olderExhausted s" "th_userId (set_items ms s) = th_userId s"
  by (simp_all add: set_items_def Let_def th_do_def)

lemma log_set_items:
  "th_log (set_items ms s) = th_log s \<or> th_log (set_items ms s) = th_log s @ [ScrollDown]"
  by (simp add: set_items_def Let_def th_do_def)

lemma thread_effect_sel [simp]:
  "th_items (th_do f s) = th_items s" "th_tasks (th_do f s) = th_tasks s" "th_gen (th_do f s) = th_gen s"
  "th_loading (th_do f s) = th_loading s" "th_retry (th_do f s) = th_retry s" "th_draft (th_do f s) = th_draft s"
  "th_lastTyping (th_do f s) = th_lastTyping s" "th_log (th_do f s) = th_log s @ [f]"
  "th_mounted (th_do f s) = th_mounted s" "th_selected (th_do f s) = th_selected s"
  "th_items (th_await k s) = th_items s" "th_tasks (th_await k s) = th_tasks s @ [(th_next s, k)]"
  "th_gen (th_await k s) = th_gen s" "th_loading (th_await k s) = th_loading s" "th_retry (th_await k s) = th_retry s"
  "th_draft (th_await k s) = th_draft s" "th_lastTyping (th_await k s) = th_lastTyping s"
  "th_log (th_await k s) = th_log s" "th_mounted (th_await k s) = th_mounted s" "th_selected (th_await k s) = th_selected s"
  by (simp_all add: th_do_def th_await_def)

section \<open>Loads do not overlap\<close>

fun is_load :: "nat \<Rightarrow> th_cont \<Rightarrow> bool" where
  "is_load g (TkLoad h _) = (h = g)"
| "is_load g (TkLoadJson h _) = (h = g)"
| "is_load g (TkReceipt h) = (h = g)"
| "is_load g _ = False"

fun cont_gen :: "th_cont \<Rightarrow> nat" where
  "cont_gen (TkLoad h _) = h"
| "cont_gen (TkLoadJson h _) = h"
| "cont_gen (TkReceipt h) = h"
| "cont_gen _ = 0"

definition load_inv :: "thread \<Rightarrow> bool" where
  "load_inv s \<longleftrightarrow> length (tasks_of (is_load (th_gen s)) (th_tasks s)) = (if th_loading s then 1 else 0)
     \<and> (\<forall>k \<in> conts (th_tasks s). cont_gen k \<le> th_gen s)"

lemma load_frame [simp]:
  "load_inv (s\<lparr>th_userId := u\<rparr>) = load_inv s"
  "load_inv (s\<lparr>th_mounted := b\<rparr>) = load_inv s"
  "load_inv (s\<lparr>th_visible := b\<rparr>) = load_inv s"
  "load_inv (s\<lparr>th_typingAllowed := b\<rparr>) = load_inv s"
  "load_inv (s\<lparr>th_online := b\<rparr>) = load_inv s"
  "load_inv (s\<lparr>th_connections := cs\<rparr>) = load_inv s"
  "load_inv (s\<lparr>th_search := q\<rparr>) = load_inv s"
  "load_inv (s\<lparr>th_draft := d\<rparr>) = load_inv s"
  "load_inv (s\<lparr>th_status := m\<rparr>) = load_inv s"
  "load_inv (s\<lparr>th_sending := b\<rparr>) = load_inv s"
  "load_inv (s\<lparr>th_typing := b\<rparr>) = load_inv s"
  "load_inv (s\<lparr>th_readId := n\<rparr>) = load_inv s"
  "load_inv (s\<lparr>th_deliveredId := n\<rparr>) = load_inv s"
  "load_inv (s\<lparr>th_hasOlder := b\<rparr>) = load_inv s"
  "load_inv (s\<lparr>th_olderExhausted := b\<rparr>) = load_inv s"
  "load_inv (s\<lparr>th_skipScroll := b\<rparr>) = load_inv s"
  "load_inv (s\<lparr>th_stickToBottom := b\<rparr>) = load_inv s"
  "load_inv (s\<lparr>th_lastTyping := n\<rparr>) = load_inv s"
  "load_inv (s\<lparr>th_retry := r\<rparr>) = load_inv s"
  "load_inv (s\<lparr>th_timer := b\<rparr>) = load_inv s"
  "load_inv (set_items ms s) = load_inv s" "load_inv (th_do f s) = load_inv s"
  "\<not> is_load (th_gen s) k \<Longrightarrow> cont_gen k \<le> th_gen s \<Longrightarrow> load_inv (th_await k s) = load_inv s"
  by (simp_all add: load_inv_def)

lemma load_thread_inv [simp]: "load_inv s \<Longrightarrow> load_inv (load_thread s)"
  by (auto simp: load_thread_def load_inv_def)

lemma load_effects:
  "load_inv s \<Longrightarrow> load_inv (start_effect s)" "load_inv (load_connections s) = load_inv s"
  by (simp_all add: start_effect_def load_connections_def)

text \<open>The current run's own load has just been resumed.\<close>

definition load_free :: "nat \<Rightarrow> thread \<Rightarrow> bool" where
  "load_free g s \<longleftrightarrow> g \<le> th_gen s \<and> (\<forall>k \<in> conts (th_tasks s). cont_gen k \<le> th_gen s)
     \<and> length (tasks_of (is_load (th_gen s)) (th_tasks s)) = (if th_loading s \<and> g \<noteq> th_gen s then 1 else 0)
     \<and> (g = th_gen s \<longrightarrow> th_loading s)"

lemma load_free_frame [simp]:
  "load_free g (s\<lparr>th_status := m\<rparr>) = load_free g s"
  "load_free g (s\<lparr>th_hasOlder := b\<rparr>) = load_free g s"
  "load_free g (s\<lparr>th_readId := n\<rparr>) = load_free g s"
  "load_free g (s\<lparr>th_deliveredId := n\<rparr>) = load_free g s"
  "load_free g (set_items ms s) = load_free g s" "load_free g (th_do f s) = load_free g s"
  by (simp_all add: load_free_def)

lemma load_free_done: "load_free g s \<Longrightarrow> load_inv (load_done g s)"
  by (auto simp: load_done_def load_free_def load_inv_def)

lemma load_free_await: "load_free g s \<Longrightarrow> (\<And>h. is_load h k \<longleftrightarrow> h = g) \<Longrightarrow> cont_gen k = g \<Longrightarrow> load_inv (th_await k s)"
  by (auto simp: load_free_def load_inv_def)

lemma load_free_taken:
  assumes "load_inv s" and taken: "take_task i (th_tasks s) = Some (k, rest)"
    and "is_load g k"
  shows "load_free g (s\<lparr>th_tasks := rest\<rparr>)"
proof -
  have len: "length (tasks_of (is_load (th_gen s)) (th_tasks s)) \<le> 1" using assms(1) by (auto simp: load_inv_def)
  have g: "g \<le> th_gen s" "cont_gen k = g" "is_load h k \<longleftrightarrow> h = g" for h
    using assms(1,3) take_task_cont [OF taken] by (cases k; auto simp: load_inv_def)+
  then show ?thesis
    using take_task_single [OF taken len] take_task_sub [OF taken] assms(1)
    by (cases "g = th_gen s") (auto simp: load_free_def load_inv_def split: if_splits)
qed

lemma load_other_taken:
  assumes "load_inv s" and taken: "take_task i (th_tasks s) = Some (k, rest)" and "\<And>g. \<not> is_load g k"
  shows "load_inv (s\<lparr>th_tasks := rest\<rparr>)"
proof -
  have len: "length (tasks_of (is_load (th_gen s)) (th_tasks s)) \<le> 1" using assms(1) by (auto simp: load_inv_def)
  then show ?thesis using take_task_single [OF taken len] take_task_sub [OF taken] assms(1,3)
    by (auto simp: load_inv_def)
qed

lemma load_free_catch: "load_free g s \<Longrightarrow> load_inv (load_catch g s)"
  by (auto simp: load_catch_def intro!: load_free_done)

lemma load_free_page: "load_free g s \<Longrightarrow> load_inv (got_page g u page d r s)"
  by (auto simp: got_page_def Let_def intro!: load_free_done load_free_await split: option.split)

lemma load_resume:
  assumes "load_inv s" and taken: "take_task i (th_tasks s) = Some (k, rest)"
  shows "load_inv (th_resume k out (s\<lparr>th_tasks := rest\<rparr>))"
proof (cases "\<exists>g. is_load g k")
  case True
  then obtain g where g: "is_load g k" by blast
  note free = load_free_taken [OF assms g]
  show ?thesis using g free
    by (cases k) (auto simp: load_refused_def intro!: load_free_done load_free_await load_free_catch load_free_page
        split: th_outcome.split)
next
  case False
  then have "load_inv (s\<lparr>th_tasks := rest\<rparr>)" using load_other_taken [OF assms] by blast
  with False show ?thesis
    by (cases k) (auto simp: send_failed_def send_done_def got_older_def Let_def split: th_outcome.split option.split)
qed

interpretation loads: machine thread_step "\<lambda>_ _. True" load_inv
proof unfold_locales
  fix s e assume inv: "load_inv s"
  show "load_inv (thread_step s e)"
  proof (cases e)
    case (ThSettle i out)
    with inv load_resume show ?thesis by (auto split: option.split)
  next
    case (ThUser u)
    have "tasks_of (is_load (Suc (th_gen s))) (th_tasks s) = []"
      using inv by (auto simp: load_inv_def tasks_of_def filter_empty_conv conts_def elim!: is_load.elims)
    then have "load_inv (s\<lparr>th_userId := u, th_gen := Suc (th_gen s), th_loading := False, th_timer := False\<rparr>)"
      using inv by (auto simp: load_inv_def)
    with ThUser inv show ?thesis by (simp add: start_effect_def)
  qed (use inv in \<open>auto simp: load_connections_def on_live_def edit_draft_def send_def older_def call_person_def Let_def
      split: list.split option.split\<close>)
qed

section \<open>Posts and their client ids\<close>

fun posts :: "th_fx list \<Rightarrow> (jstr \<times> jstr) list" where
  "posts [] = []"
| "posts (SendMessage b c # fs) = (b, c) # posts fs"
| "posts (_ # fs) = posts fs"

fun typing_times :: "th_fx list \<Rightarrow> nat list" where
  "typing_times [] = []"
| "typing_times (SendTyping t # fs) = t # typing_times fs"
| "typing_times (_ # fs) = typing_times fs"

lemma log_readers_append [simp]:
  "posts (fs @ gs) = posts fs @ posts gs" "typing_times (fs @ gs) = typing_times fs @ typing_times gs"
  by (induction fs rule: posts.induct) simp_all

text \<open>\<open>crypto.randomUUID()\<close> gives an id that no earlier post has.\<close>

definition fresh_uuid :: "thread \<Rightarrow> th_event \<Rightarrow> bool" where
  "fresh_uuid s e = (case e of ThSubmit uuid \<Rightarrow> uuid \<notin> snd ` set (posts (th_log s)) | _ \<Rightarrow> True)"

definition post_inv :: "thread \<Rightarrow> bool" where
  "post_inv s \<longleftrightarrow>
     (\<forall>b c b'. (b, c) \<in> set (posts (th_log s)) \<longrightarrow> (b', c) \<in> set (posts (th_log s)) \<longrightarrow> b' = b)
   \<and> (\<forall>b c. (b, c) \<in> set (posts (th_log s)) \<longrightarrow> b = trim b \<and> b \<noteq> [])
   \<and> (\<forall>p. th_retry s = Some p \<longrightarrow> (pd_body p, pd_clientId p) \<in> set (posts (th_log s)))
   \<and> sorted_wrt (\<lambda>t u. t + 2000 < u) (typing_times (th_log s))
   \<and> (\<forall>t \<in> set (typing_times (th_log s)). t \<le> th_lastTyping s)"

definition quiet_fx :: "th_fx \<Rightarrow> bool" where
  "quiet_fx f \<longleftrightarrow> posts [f] = [] \<and> typing_times [f] = []"

lemma quiet_fx_simps [simp]:
  "quiet_fx GetConversations" "quiet_fx (GetMessages n)" "quiet_fx GetNotices" "quiet_fx (SendReceipt n b)"
  "quiet_fx (RequestCall c b)" "quiet_fx GoHome" "quiet_fx (GoTo c)" "quiet_fx ScrollDown"
  by (simp_all add: quiet_fx_def)

lemma quiet_do [simp]: "quiet_fx f \<Longrightarrow> posts (th_log (th_do f s)) = posts (th_log s)"
  "quiet_fx f \<Longrightarrow> typing_times (th_log (th_do f s)) = typing_times (th_log s)"
  by (auto simp: quiet_fx_def)

lemma quiet_items: "posts (th_log (set_items ms s)) = posts (th_log s)"
  "typing_times (th_log (set_items ms s)) = typing_times (th_log s)"
  using log_set_items [of ms s] by auto

lemma post_frame [simp]:
  "post_inv (s\<lparr>th_userId := u\<rparr>) = post_inv s"
  "post_inv (s\<lparr>th_mounted := b\<rparr>) = post_inv s"
  "post_inv (s\<lparr>th_gen := n\<rparr>) = post_inv s"
  "post_inv (s\<lparr>th_loading := b\<rparr>) = post_inv s"
  "post_inv (s\<lparr>th_visible := b\<rparr>) = post_inv s"
  "post_inv (s\<lparr>th_typingAllowed := b\<rparr>) = post_inv s"
  "post_inv (s\<lparr>th_online := b\<rparr>) = post_inv s"
  "post_inv (s\<lparr>th_connections := cs\<rparr>) = post_inv s"
  "post_inv (s\<lparr>th_search := q\<rparr>) = post_inv s"
  "post_inv (s\<lparr>th_draft := d\<rparr>) = post_inv s"
  "post_inv (s\<lparr>th_status := m\<rparr>) = post_inv s"
  "post_inv (s\<lparr>th_sending := b\<rparr>) = post_inv s"
  "post_inv (s\<lparr>th_typing := b\<rparr>) = post_inv s"
  "post_inv (s\<lparr>th_readId := n\<rparr>) = post_inv s"
  "post_inv (s\<lparr>th_deliveredId := n\<rparr>) = post_inv s"
  "post_inv (s\<lparr>th_hasOlder := b\<rparr>) = post_inv s"
  "post_inv (s\<lparr>th_olderExhausted := b\<rparr>) = post_inv s"
  "post_inv (s\<lparr>th_skipScroll := b\<rparr>) = post_inv s"
  "post_inv (s\<lparr>th_stickToBottom := b\<rparr>) = post_inv s"
  "post_inv (s\<lparr>th_timer := b\<rparr>) = post_inv s"
  "post_inv (s\<lparr>th_tasks := ts\<rparr>) = post_inv s"
  "post_inv (set_items ms s) = post_inv s" "post_inv (th_await k s) = post_inv s"
  "quiet_fx f \<Longrightarrow> post_inv (th_do f s) = post_inv s"
  by (simp_all add: post_inv_def quiet_items quiet_do del: thread_effect_sel(8))

lemma post_retry_None: "post_inv s \<Longrightarrow> post_inv (s\<lparr>th_retry := None\<rparr>)"
  by (simp add: post_inv_def)

lemma post_load: "post_inv (load_thread s) = post_inv s" "post_inv (load_done g s) = post_inv s"
  "post_inv (load_catch g s) = post_inv s" "post_inv (load_refused g n s) = post_inv s"
  "post_inv (got_page g u page d r s) = post_inv s" "post_inv (load_connections s) = post_inv s"
  by (simp_all add: load_thread_def load_done_def load_catch_def load_refused_def got_page_def
      load_connections_def Let_def split: option.split)

lemma post_resume: "post_inv s \<Longrightarrow> post_inv (th_resume k out s)"
  by (cases k) (auto simp: post_load send_failed_def send_done_def got_older_def Let_def
      intro!: post_retry_None split: th_outcome.split option.split)

lemma post_send:
  assumes "post_inv s" and "uuid \<notin> snd ` set (posts (th_log s))"
  shows "post_inv (send uuid s)"
proof -
  let ?p = "next_pending uuid s"
  have p: "pd_body ?p = trim (th_draft s)"
    "(pd_body ?p, pd_clientId ?p) \<in> set (posts (th_log s)) \<or> pd_clientId ?p \<notin> snd ` set (posts (th_log s))"
    using assms by (auto simp: next_pending_def post_inv_def split: option.split)
  show ?thesis
  proof (cases "blank (th_draft s) \<or> th_sending s \<or> th_selected s = []")
    case False
    then have "post_inv (th_do (SendMessage (pd_body ?p) (pd_clientId ?p)) (s\<lparr>th_sending := True, th_retry := Some ?p\<rparr>))"
      using assms(1) p by (auto simp: post_inv_def blank_def image_iff)
    with False show ?thesis by (simp add: send_def Let_def)
  qed (use assms in \<open>simp add: send_def\<close>)
qed

lemma post_edit: "post_inv s \<Longrightarrow> post_inv (edit_draft text now s)"
  by (auto simp: edit_draft_def Let_def) (auto simp: post_inv_def sorted_wrt_append less_diff_conv)

interpretation post: machine thread_step fresh_uuid post_inv
proof unfold_locales
  fix s e assume "post_inv s" and "fresh_uuid s e"
  then show "post_inv (thread_step s e)"
    by (cases e) (auto simp: fresh_uuid_def post_load post_edit post_send post_resume on_live_def start_effect_def
      older_def call_person_def Let_def split: option.split list.split)
qed

lemma post_init: "post_inv (thread_init selected user)"
  by (simp add: thread_init_def start_effect_def post_load) (simp add: post_inv_def)

section \<open>The list stays sorted\<close>

text \<open>Older pages that lie below the list as it is when they arrive, as the server's pages do while only
  one request for them is on its way.\<close>

definition orderly :: "thread \<Rightarrow> th_event \<Rightarrow> bool" where
  "orderly s e = (case e of ThSettle i (ThPage page d r) \<Rightarrow> (case take_task i (th_tasks s) of
       Some (TkOlderJson b, _) \<Rightarrow> thread_sorted (rev page)
         \<and> (\<forall>m \<in> set page. \<forall>n \<in> set (th_items s). me_id m < me_id n)
     | _ \<Rightarrow> True) | _ \<Rightarrow> True)"

definition sorted_inv :: "thread \<Rightarrow> bool" where
  "sorted_inv s \<longleftrightarrow> thread_sorted (th_items s)"

lemma sorted_sel [simp]:
  "th_items (load_thread s) = th_items s" "th_items (load_done g s) = th_items s"
  "th_items (load_catch g s) = th_items s" "th_items (load_connections s) = th_items s"
  "th_items (send_failed s) = th_items s" "th_items (send uuid s) = th_items s"
  "th_items (edit_draft text now s) = th_items s" "th_items (older s) = th_items s"
  "th_items (call_person video s) = th_items s" "th_items (start_effect s) = th_items s"
  "th_items (on_live ev s) = th_items s"
  by (simp_all add: load_thread_def load_done_def load_catch_def load_connections_def send_failed_def send_def
      edit_draft_def older_def call_person_def start_effect_def on_live_def Let_def split: list.split option.split)

lemma sorted_items:
  "sorted_inv s \<Longrightarrow> sorted_inv (load_refused g n s)" "sorted_inv s \<Longrightarrow> sorted_inv (got_page g u page d r s)"
  "sorted_inv (send_done m s)"
  by (simp_all add: sorted_inv_def load_refused_def got_page_def send_done_def Let_def merge_sorted split: option.split)

lemma sorted_older:
  "sorted_inv s \<Longrightarrow> thread_sorted (rev page) \<Longrightarrow> (\<forall>m \<in> set page. \<forall>n \<in> set (th_items s). me_id m < me_id n)
    \<Longrightarrow> sorted_inv (got_older page s)"
  by (auto simp: sorted_inv_def got_older_def Let_def thread_sorted_def sorted_wrt_append)

interpretation sorted: machine thread_step orderly sorted_inv
proof unfold_locales
  fix s e assume inv: "sorted_inv s" and ok: "orderly s e"
  show "sorted_inv (thread_step s e)"
  proof (cases e)
    case (ThSettle i out)
    show ?thesis
    proof (cases "take_task i (th_tasks s)")
      case (Some kr)
      obtain k rest where kr: "kr = (k, rest)" by fastforce
      have "sorted_inv (s\<lparr>th_tasks := rest\<rparr>)" using inv by (simp add: sorted_inv_def)
      moreover have "sorted_inv (th_resume k out u)"
        if "sorted_inv u" "th_items u = th_items s" for u
        using that ok ThSettle Some kr
        by (cases k) (auto simp: orderly_def sorted_items intro: sorted_older split: th_outcome.split,
          auto simp: sorted_inv_def)
      ultimately show ?thesis using ThSettle Some kr by simp
    qed (use inv ThSettle in simp)
  qed (use inv in \<open>auto simp: sorted_inv_def Let_def\<close>)
qed

lemma sorted_init: "sorted_inv (thread_init selected user)"
  by (simp add: sorted_inv_def thread_init_def thread_sorted_def)

section \<open>Pages and the whole conversation\<close>

text \<open>Merging the newest page into an up-to-date end of the conversation gives the end of the longer
  conversation.\<close>

lemma merge_suffix:
  assumes sorted: "thread_sorted H" and H: "H = H0 @ N" and "suffix items H0" and "length N \<le> n"
  shows "suffix (merge_messages items (drop (length H - n) H)) H
    \<and> length items + length N \<le> length (merge_messages items (drop (length H - n) H))"
proof -
  obtain pre where pre: "H0 = pre @ items" using assms(3) by (auto simp: suffix_def)
  let ?page = "drop (length H - n) H"
  let ?k = "min (length pre) (length H - n)"
  have page: "?page = drop (length H0 - (n - length N)) H0 @ N"
    using assms(4) by (simp add: H)
  have "set (drop ?k H) = set items \<union> set ?page"
  proof (cases "length pre \<le> length H - n")
    case True
    then have "?k = length pre" by simp
    then have "drop ?k H = items @ N" by (simp add: H pre)
    moreover have "set (drop (length H0 - (n - length N)) H0) \<subseteq> set items"
    proof -
      have "length pre \<le> length H0 - (n - length N)" using True assms(4) by (simp add: H)
      then show ?thesis by (simp add: pre set_drop_subset)
    qed
    ultimately show ?thesis using page by auto
  next
    case False
    then have "?k = length H - n" by simp
    moreover have "set items \<subseteq> set ?page"
      using False by (auto simp: page pre H drop_append)
    ultimately show ?thesis by auto
  qed
  moreover have ids: "distinct (map me_id ?page)"
    unfolding drop_map [symmetric] by (rule distinct_drop [OF thread_sorted_distinct [OF sorted]])
  have items: "thread_sorted items" using sorted by (simp add: H pre thread_sorted_append)
  have "set (merge_messages items ?page) = set items \<union> set ?page"
  proof -
    have "inj_on me_id (set H)" using thread_sorted_distinct [OF sorted] by (simp add: distinct_map)
    then have "m \<in> set ?page" if "m \<in> set items" "me_id m \<in> me_id ` set ?page" for m
      using that in_set_dropD [of _ "length H - n" H] by (auto simp: H pre dest!: inj_onD)
    then show ?thesis using merge_set [OF items ids] by blast
  qed
  moreover have "thread_sorted (drop ?k H)" using sorted
    by (metis append_take_drop_id thread_sorted_append)
  ultimately have merge: "merge_messages items ?page = drop ?k H"
    by (intro thread_sorted_unique [OF merge_sorted]) simp_all
  show ?thesis by (simp add: merge suffix_drop) (simp add: H pre)
qed

definition press_older :: "jstr \<Rightarrow> store \<Rightarrow> thread \<Rightarrow> thread" where
  "press_older conn st s = (case th_items s of [] \<Rightarrow> s
     | m # _ \<Rightarrow> got_older (page_before conn (me_id m) st) s)"

lemma press_older_items:
  assumes "store_inv st" and "rows_of conn st = pre @ th_items s" and "th_items s \<noteq> []"
  shows "rows_of conn st = take (length pre - page_size) pre @ th_items (press_older conn st s)"
    and "th_items (press_older conn st s) \<noteq> []"
    and "th_hasOlder (press_older conn st s) \<longleftrightarrow> page_size \<le> length pre"
proof -
  obtain m ms where items: "th_items s = m # ms" using assms(3) by (cases "th_items s") auto
  note page = page_older [OF assms(1) assms(2) [unfolded items]]
  have "length (page_before conn (me_id m) st) = min page_size (length pre)"
    using arg_cong [OF page, of length] by simp
  then show "th_hasOlder (press_older conn st s) \<longleftrightarrow> page_size \<le> length pre"
    by (auto simp: press_older_def items got_older_def page_size_def Let_def)
  show "rows_of conn st = take (length pre - page_size) pre @ th_items (press_older conn st s)"
    using assms(2) by (simp add: press_older_def items got_older_def Let_def page)
  show "th_items (press_older conn st s) \<noteq> []"
    by (simp add: press_older_def items got_older_def Let_def)
qed

lemma press_older_reaches:
  assumes "store_inv st" and "rows_of conn st = pre @ th_items s" and "th_items s \<noteq> []"
  shows "\<exists>pre'. rows_of conn st = pre' @ th_items ((press_older conn st ^^ n) s)
    \<and> length pre' = length pre - page_size * n \<and> th_items ((press_older conn st ^^ n) s) \<noteq> []"
proof (induction n)
  case 0
  then show ?case using assms by auto
next
  case (Suc n)
  then obtain pre' where pre': "rows_of conn st = pre' @ th_items ((press_older conn st ^^ n) s)"
    "length pre' = length pre - page_size * n" "th_items ((press_older conn st ^^ n) s) \<noteq> []" by blast
  note step = press_older_items [OF assms(1) pre'(1,3)]
  then show ?case using pre'(2)
    by (intro exI [of _ "take (length pre' - page_size) pre'"]) (simp add: algebra_simps)
qed

section \<open>Samples\<close>

definition sample_message :: "nat \<Rightarrow> string \<Rightarrow> message" where
  "sample_message i body = \<lparr>me_id = i, me_clientId = lit ''m'', me_senderId = lit ''bob'', me_body = lit body, me_createdAt = []\<rparr>"

definition sample_connection :: connection where
  "sample_connection = \<lparr>co_id = lit ''n1'', co_preview = [], co_unread = 0, co_person = lit ''bob'',
     co_displayName = lit ''Bob'', co_avatarUrl = []\<rparr>"

text \<open>The conversation is loaded with two messages.\<close>

definition opened :: "th_event list" where
  "opened = [ThSettle 0 (ThStatus 200), ThSettle 2 (ThConversations [sample_connection]),
     ThSettle 1 (ThStatus 200), ThSettle 3 (ThPage [sample_message 8 ''b'', sample_message 7 ''a''] 0 0), ThSettle 4 ThOk]"

definition ada_thread :: "th_event list \<Rightarrow> thread" where
  "ada_thread es = run thread_step (thread_init (lit ''n1'') (lit ''ada'')) es"

lemma ada_reachable:
  "admissible thread_step ok (thread_init (lit ''n1'') (lit ''ada'')) es \<Longrightarrow>
    reachable thread_step ok (thread_init (lit ''n1'') (lit ''ada'')) (ada_thread es)"
  unfolding ada_thread_def by (rule admissible_reachable)

section \<open>Properties\<close>



definition lost_reply :: "th_outcome \<Rightarrow> bool" where
  "lost_reply out = (case out of ThStatus n \<Rightarrow> \<not> ok_status n | _ \<Rightarrow> True)"

text \<open>A send that fails, at whatever point, keeps the draft, and pressing Send again posts the same
  text under the same client id.\<close>

theorem retry_is_the_same_send:
  assumes "\<not> blank (th_draft s)" and "\<not> th_sending s" and "th_selected s \<noteq> []"
    and "lost_reply out"
  shows "let s1 = th_resume TkSend out (send uuid s) in th_draft s1 = th_draft s \<and> \<not> th_sending s1
    \<and> (\<exists>c. posts (th_log (send uuid' s1)) = posts (th_log s) @ [(trim (th_draft s), c), (trim (th_draft s), c)])"
proof -
  define s1 where "s1 = th_resume TkSend out (send uuid s)"
  let ?p = "next_pending uuid s"
  have p: "pd_body ?p = trim (th_draft s)" by (simp add: next_pending_def split: option.split)
  have s1: "s1 = send_failed (send uuid s)"
    using assms(4) by (auto simp: s1_def lost_reply_def split: th_outcome.splits)
  have retry: "th_retry s1 = Some ?p" "th_draft s1 = th_draft s" "\<not> th_sending s1" "th_selected s1 = th_selected s"
    "posts (th_log s1) = posts (th_log s) @ [(trim (th_draft s), pd_clientId ?p)]"
    using assms(1-3) p by (simp_all add: s1 send_failed_def send_def Let_def th_await_def th_do_def)
  then have "next_pending uuid' s1 = ?p" by (simp add: next_pending_def [of uuid' s1] p)
  then show ?thesis using assms(1,3) retry p unfolding s1_def [symmetric] by (simp add: send_def Let_def)
qed

theorem retry_is_the_same_send_witness:
  "\<exists>c. posts (th_log (send (lit ''u2'') (th_resume TkSend (ThStatus 500)
      (send (lit ''u1'') (ada_thread (opened @ [ThDraft (lit ''hi '') 5000]))))))
    = [(lit ''hi'', c), (lit ''hi'', c)]"
proof -
  define t where "t = ada_thread (opened @ [ThDraft (lit ''hi '') 5000])"
  have t: "th_draft t = lit ''hi '' \<and> \<not> th_sending t \<and> th_selected t \<noteq> [] \<and> posts (th_log t) = []
      \<and> \<not> blank (th_draft t) \<and> trim (th_draft t) = lit ''hi''"
    unfolding t_def by code_simp
  have "lost_reply (ThStatus 500)" by (simp add: lost_reply_def ok_status_def)
  from retry_is_the_same_send [OF _ _ _ this, of t "lit ''u1''" "lit ''u2''"] t
  have "\<exists>c. posts (th_log (send (lit ''u2'') (th_resume TkSend (ThStatus 500) (send (lit ''u1'') t))))
    = posts (th_log t) @ [(trim (th_draft t), c), (trim (th_draft t), c)]"
    unfolding Let_def by blast
  moreover have "trim (lit ''hi '') = lit ''hi''" by code_simp
  ultimately show ?thesis using t unfolding t_def [symmetric] by (simp del: th_resume.simps)
qed

definition store_posts :: "jstr \<Rightarrow> jstr \<Rightarrow> (jstr \<times> jstr) list \<Rightarrow> store" where
  "store_posts conn sender ds =
     foldl (\<lambda>st (b, c). snd (insert_message conn sender c b [] st)) empty_store ds"

definition row_pair :: "row \<Rightarrow> jstr \<times> jstr" where
  "row_pair r = (me_body (ro_message r), me_clientId (ro_message r))"

lemma store_posts_rows:
  assumes "\<forall>b c b'. (b, c) \<in> set ds \<longrightarrow> (b', c) \<in> set ds \<longrightarrow> b' = b"
  shows "row_pair ` set (st_rows (store_posts conn sender ds)) = set ds
    \<and> distinct (map (\<lambda>r. me_clientId (ro_message r)) (st_rows (store_posts conn sender ds)))
    \<and> (\<forall>r \<in> set (st_rows (store_posts conn sender ds)). me_senderId (ro_message r) = sender)"
  using assms
proof (induction ds rule: rev_induct)
  case Nil
  then show ?case by (simp add: store_posts_def empty_store_def)
next
  case (snoc d ds)
  obtain b c where d: "d = (b, c)" by fastforce
  let ?st = "store_posts conn sender ds"
  have IH: "row_pair ` set (st_rows ?st) = set ds" "distinct (map (\<lambda>r. me_clientId (ro_message r)) (st_rows ?st))"
    "\<forall>r \<in> set (st_rows ?st). me_senderId (ro_message r) = sender"
    using snoc by auto
  have st: "store_posts conn sender (ds @ [(b, c)]) = snd (insert_message conn sender c b [] ?st)"
    by (simp add: store_posts_def)
  show ?case
  proof (cases "find (same_key sender c) (st_rows ?st)")
    case None
    then have "\<forall>r \<in> set (st_rows ?st). me_clientId (ro_message r) \<noteq> c"
      using IH(3) by (auto simp: find_None_iff same_key_def)
    with None IH show ?thesis
      by (auto simp: st d insert_message_def Let_def row_pair_def)
  next
    case (Some r)
    then have r: "r \<in> set (st_rows ?st)" "me_clientId (ro_message r) = c"
      by (auto simp: find_Some_iff same_key_def)
    then have "(me_body (ro_message r), c) \<in> set ds"
      using IH(1) by (auto simp: row_pair_def)
    then have "(b, c) \<in> set ds" using snoc.prems by (auto simp: d)
    then show ?thesis using Some IH by (auto simp: st d insert_message_def Let_def)
  qed
qed


definition retried :: "th_event list" where
  "retried = opened @ [ThDraft (lit ''hi'') 5000, ThSubmit (lit ''u1''), ThSettle 5 (ThFailed None), ThSubmit (lit ''u2'')]"



definition overlapping_pages :: "th_event list" where
  "overlapping_pages = opened @ [ThPoll, ThSettle 5 (ThStatus 200),
     ThSettle 6 (ThPage [sample_message 9 ''c'', sample_message 8 ''b''] 0 0)]"


text \<open>C20: The view has no holes: a list that shows an end of the conversation still does after a poll,
  if at most one page of messages was added since, and every message added is then shown.\<close>

theorem poll_leaves_no_hole:
  assumes "store_inv st" and "rows_of conn st = H\<^sub>0 @ new" and "suffix (th_items s) H\<^sub>0"
    and "length new \<le> page_size" and "live_run g s"
  shows "let s' = got_page g u (page_before conn 0 st) d r s in
    suffix (th_items s') (rows_of conn st) \<and> length (th_items s) + length new \<le> length (th_items s')"
proof -
  have "th_items (got_page g u page d r s) = merge_messages (th_items s) (rev page)" for page
    using assms(5) by (simp add: got_page_def Let_def split: option.split)
  then show ?thesis
    using merge_suffix [OF rows_of_sorted [OF assms(1)] assms(2,3,4)] by (simp add: page_newest Let_def)
qed

definition sample_store :: store where
  "sample_store = store_posts (lit ''n1'') (lit ''bob'') [(lit ''a'', lit ''k1''), (lit ''b'', lit ''k2''), (lit ''c'', lit ''k3'')]"

lemma sample_store_inv: "store_inv sample_store"
  by code_simp

theorem poll_leaves_no_hole_witness:
  "map me_id (th_items (got_page 0 (lit ''ada'') (page_before (lit ''n1'') 0 sample_store) 0 0
     (thread_init (lit ''n1'') (lit ''ada'')))) \<noteq> []"
proof -
  let ?s = "thread_init (lit ''n1'') (lit ''ada'')"
  have live: "live_run 0 ?s" and "th_items ?s = []" by code_simp+
  then have suf: "suffix (th_items ?s) []" by simp
  have "length (rows_of (lit ''n1'') sample_store) = 3" by code_simp
  then have short: "length (rows_of (lit ''n1'') sample_store) \<le> page_size" by (simp add: page_size_def)
  from poll_leaves_no_hole [OF sample_store_inv _ suf short live, of "lit ''n1''" "lit ''ada''" 0 0]
  show ?thesis using \<open>length (rows_of (lit ''n1'') sample_store) = 3\<close> by (auto simp: Let_def)
qed



lemma last_incoming_sender: "last_incoming u ms = Some m \<Longrightarrow> me_senderId m \<noteq> u"
proof -
  let ?F = "filter (\<lambda>m. me_senderId m \<noteq> u) ms"
  have "last_incoming u ms = (if ?F = [] then None else Some (last ?F))"
    unfolding last_incoming_def by (cases ?F) simp_all
  moreover assume "last_incoming u ms = Some m"
  ultimately have "m \<in> set ?F" using last_in_set [of ?F] by (simp split: if_splits)
  then show ?thesis by simp
qed

lemma receipt_of_page:
  assumes "SendReceipt i b \<in> set (th_log (got_page g u page d r t))" and "SendReceipt i b \<notin> set (th_log t)"
  shows "b = th_visible t \<and> (\<exists>m. last_incoming u (rev page) = Some m \<and> me_id m = i \<and> me_senderId m \<noteq> u)"
proof -
  let ?t = "set_items (merge_messages (th_items t) (rev page)) t"
  have log: "SendReceipt i b \<notin> set (th_log ?t)" using assms(2) log_set_items [of "merge_messages (th_items t) (rev page)" t] by auto
  have keep: "th_log (load_done g v) = th_log v" for v by (simp add: load_done_def)
  have live: "live_run g t" using assms by (auto simp: got_page_def keep split: if_splits)
  show ?thesis
  proof (cases "last_incoming u (rev page)")
    case None
    then show ?thesis using assms(1) live log by (simp add: got_page_def Let_def keep)
  next
    case (Some m)
    then show ?thesis using assms(1) live log last_incoming_sender [OF Some]
      by (auto simp: got_page_def Let_def keep split: if_splits)
  qed
qed



section \<open>Runs that go wrong\<close>

text \<open>Two clicks on \<^emph>\<open>Earlier messages\<close> before the first answer ask for the same page twice, and
  \<open>older\<close> prepends both answers.\<close>

lemma double_older_duplicates:
  "let page = ThPage [sample_message 6 ''z''] 0 0;
       s = (ada_thread opened)\<lparr>th_hasOlder := True\<rparr>;
       s = run thread_step s [ThOlder, ThOlder, ThSettle 5 (ThStatus 200), ThSettle 6 (ThStatus 200), ThSettle 7 page, ThSettle 8 page]
   in map me_id (th_items s) = [6, 6, 7, 8]"
  by code_simp

text \<open>What the user types while a send is on its way is thrown away when it succeeds.\<close>

lemma typed_text_is_lost:
  "th_draft (ada_thread (opened @ [ThDraft (lit ''hi'') 5000, ThSubmit (lit ''u1''), ThDraft (lit ''hi and more'') 6000,
     ThSettle 5 (ThStatus 200), ThSettle 6 (ThMessage (sample_message 9 ''hi''))])) = []"
  by code_simp

text \<open>After the last older page was loaded, one refused poll empties the list, and \<open>olderExhausted\<close>
  keeps the button away although only the newest page is shown again.\<close>

lemma refused_poll_hides_history:
  "let s = ada_thread opened; s = s\<lparr>th_hasOlder := True\<rparr>;
       s = run thread_step s [ThOlder, ThSettle 5 (ThStatus 200), ThSettle 6 (ThPage [sample_message 6 ''z''] 0 0),
         ThPoll, ThSettle 7 (ThStatus 500)]
   in th_items s = [] \<and> th_olderExhausted s"
  "th_olderExhausted s \<Longrightarrow> live_run g s \<Longrightarrow> \<not> th_hasOlder (got_page g u page d r s)"
proof -
  show "let s = ada_thread opened; s = s\<lparr>th_hasOlder := True\<rparr>;
       s = run thread_step s [ThOlder, ThSettle 5 (ThStatus 200), ThSettle 6 (ThPage [sample_message 6 ''z''] 0 0),
         ThPoll, ThSettle 7 (ThStatus 500)]
   in th_items s = [] \<and> th_olderExhausted s" by code_simp
qed (auto simp: got_page_def load_done_def Let_def th_await_def th_do_def split: option.split)

end
