(* ===== verification/App_Shell.thy ===== *)
theory App_Shell
  imports Call_Session Message_Guarantees
begin

text \<open>
  The two places where React replaces a whole part of the application by a fresh one, because its
  \<open>key\<close> changes: \<open>CommunicationProvider\<close> of \<open>runtime.tsx\<close>, which starts another runtime when the user
  enters or leaves the signed-in area, and \<open>Messages\<close> of \<open>messages.tsx\<close>, which starts another
  conversation view when the selected connection changes. What is replaced is unmounted, but its
  promises may still settle.
\<close>

section \<open>The signed-in area\<close>

text \<open>\<open>pathname.startsWith("/app/") || pathname === "/onboarding"\<close>\<close>

definition authenticated_area :: "jstr \<Rightarrow> bool" where
  "authenticated_area path \<longleftrightarrow> take 5 path = lit ''/app/'' \<or> path = lit ''/onboarding''"

record provider =
  pv_path :: jstr
  pv_now :: session
  pv_gone :: "session list"

definition provider_init :: "jstr \<Rightarrow> bool \<Rightarrow> provider" where
  "provider_init path dark = \<lparr>pv_path = path, pv_now = session_init (authenticated_area path) dark, pv_gone = []\<rparr>"

text \<open>React unmounts the runtime with the overlay it renders.\<close>

definition unmount_all :: "session \<Rightarrow> session" where
  "unmount_all s = runtime_apply Dispose (if current s = None then s else unmount_overlay (length (ss_overlays s) - 1) s)"

text \<open>The user goes to another page; something happens in the runtime that is mounted, or in one that was.\<close>

datatype provider_event = Visits jstr | Inside session_event | Outlived nat session_event

fun provider_step :: "provider \<Rightarrow> provider_event \<Rightarrow> provider" where
  "provider_step s (Visits path) = (if authenticated_area path = authenticated_area (pv_path s) then s\<lparr>pv_path := path\<rparr>
     else s\<lparr>pv_path := path, pv_gone := pv_gone s @ [unmount_all (pv_now s)],
       pv_now := session_init (authenticated_area path) (rt_dark (ss_runtime (pv_now s)))\<rparr>)"
| "provider_step s (Inside e) = s\<lparr>pv_now := session_step (pv_now s) e\<rparr>"
| "provider_step s (Outlived i e) = (if i < length (pv_gone s)
     then s\<lparr>pv_gone := (pv_gone s)[i := session_step (pv_gone s ! i) e]\<rparr> else s)"

text \<open>What is unmounted is not rendered any more, and the effect that disposes runs once.\<close>

fun provider_ok :: "provider \<Rightarrow> provider_event \<Rightarrow> bool" where
  "provider_ok s (Visits path) = True"
| "provider_ok s (Inside e) = (session_ok (pv_now s) e \<and> e \<noteq> Page Dispose)"
| "provider_ok s (Outlived i e) = (case e of Rendered rtc \<Rightarrow> False | _ \<Rightarrow> session_ok (pv_gone s ! i) e)"

section \<open>What stays of a runtime\<close>

definition lifetime :: "runtime \<Rightarrow> bool \<times> bool" where
  "lifetime r = (rt_auth r, rt_disposed r)"

lemma lifetime_frame [simp]:
  "lifetime (r\<lparr>rt_userId := u\<rparr>) = lifetime r" "lifetime (r\<lparr>rt_online := b\<rparr>) = lifetime r"
  "lifetime (r\<lparr>rt_settings := se\<rparr>) = lifetime r" "lifetime (r\<lparr>rt_notices := ns\<rparr>) = lifetime r"
  "lifetime (r\<lparr>rt_call := c\<rparr>) = lifetime r" "lifetime (r\<lparr>rt_ice := i\<rparr>) = lifetime r"
  "lifetime (r\<lparr>rt_listeners := ls\<rparr>) = lifetime r" "lifetime (r\<lparr>rt_activeCall := c\<rparr>) = lifetime r"
  "lifetime (r\<lparr>rt_settingsRef := se\<rparr>) = lifetime r" "lifetime (r\<lparr>rt_shownOnline := b\<rparr>) = lifetime r"
  "lifetime (r\<lparr>rt_dark := b\<rparr>) = lifetime r" "lifetime (r\<lparr>rt_dataTheme := th\<rparr>) = lifetime r"
  "lifetime (r\<lparr>rt_identity := u\<rparr>) = lifetime r" "lifetime (r\<lparr>rt_socket := b\<rparr>) = lifetime r"
  "lifetime (r\<lparr>rt_retry := rt\<rparr>) = lifetime r" "lifetime (r\<lparr>rt_delay := n\<rparr>) = lifetime r"
  "lifetime (r\<lparr>rt_failures := n\<rparr>) = lifetime r" "lifetime (r\<lparr>rt_tasks := ts\<rparr>) = lifetime r"
  "lifetime (rt_do f r) = lifetime r" "lifetime (rt_await k r) = lifetime r" "lifetime (deliver ev r) = lifetime r"
  by (simp_all add: lifetime_def rt_do_def rt_await_def deliver_def)

lemma lifetime_parts [simp]:
  "lifetime (set_identity ev r) = lifetime r" "lifetime (take_config ev r) = lifetime r"
  "lifetime (refresh r) = lifetime r" "lifetime (receipt_step ev r) = lifetime r"
  "lifetime (native_step env ev r) = lifetime r" "lifetime (settings_step ev r) = lifetime r"
  "lifetime (invite_step ev r) = lifetime r"
  by (simp_all add: set_identity_def take_config_def refresh_def receipt_step_def native_step_def
      settings_step_def invite_step_def split: option.split)

lemma lifetime_on_event [simp]: "lifetime (on_event env ev r) = lifetime r"
  by (simp add: on_event_def ready_step_def on_ready_def activity_step_def)

lemma lifetime_resume [simp]: "lifetime (rt_resume k out r) = lifetime r"
  by (cases k) (auto split: rt_outcome.split)

lemma lifetime_step: "e \<noteq> Dispose \<Longrightarrow> lifetime (runtime_step r e) = lifetime r"
  by (cases e) (auto simp: on_close_def connect_def start_call_def save_settings_def refresh_notices_def Let_def split: option.split)

lemma auth_kept: "rt_auth (runtime_step r e) = rt_auth r"
  using lifetime_step [of e r] by (cases "e = Dispose") (simp_all add: lifetime_def rt_do_def)

section \<open>Invariants of the runtime in a session\<close>

text \<open>What the events of a runtime keep is kept by those of a session that reach it. \<open>okr\<close> allows at least
  the events that rendering and the overlays cause.\<close>

locale runtime_family = machine runtime_step okr inv
  for okr :: "runtime \<Rightarrow> rt_event \<Rightarrow> bool" and inv :: "runtime \<Rightarrow> bool" +
  assumes ok_caused: "okr r CloseCall" "okr r (Subscribe l)" "okr r (Unsubscribe l)" "okr r Commit"
begin

definition inside :: "session \<Rightarrow> bool" where
  "inside s \<longleftrightarrow> inv (ss_runtime s)"

fun ok_inside :: "session \<Rightarrow> session_event \<Rightarrow> bool" where
  "ok_inside s (Page e) = okr (ss_runtime s) e"
| "ok_inside s _ = True"

lemma inside_apply: "inside s \<Longrightarrow> inside (overlay_apply i e s)"
  by (auto simp: overlay_apply_def inside_def Let_def intro!: inv_step ok_caused simp del: runtime_step.simps)

lemma inside_feed: "inside s \<Longrightarrow> inside (feed ds s)"
  by (induction ds s rule: feed.induct) (simp_all add: inside_apply)

lemma inside_runtime: "inside s \<Longrightarrow> okr (ss_runtime s) e \<Longrightarrow> inside (runtime_apply e s)"
  unfolding runtime_apply_def Let_def by (rule inside_feed) (simp add: inside_def inv_step del: runtime_step.simps)

lemma inside_unmount: "inside s \<Longrightarrow> inside (unmount_overlay i s)"
  using inside_apply [of s i Unmount]
  by (simp add: unmount_overlay_def inside_def Let_def inv_step ok_caused del: runtime_step.simps)

lemma inside_render: "inside s \<Longrightarrow> inside (render_call rtc s)"
proof -
  assume s: "inside s"
  have mount: "inside (mount_overlay rtc c t)" if "inside t" for c t
    using that by (simp add: mount_overlay_def inside_def inv_step ok_caused del: runtime_step.simps)
  show ?thesis using s mount inside_unmount [OF s] unfolding render_call_def Let_def by (simp split: option.split)
qed

sublocale in_session: machine session_step ok_inside inside
proof
  show "inside s \<Longrightarrow> ok_inside s e \<Longrightarrow> inside (session_step s e)" for s e
    by (cases e) (simp_all add: inside_apply inside_runtime inside_render ok_caused)
qed

end

text \<open>A runtime that ended: it was disposed, or had nothing to dispose of.\<close>

definition ended_runtime :: "runtime \<Rightarrow> bool" where
  "ended_runtime r \<longleftrightarrow> conn_inv r \<and> (rt_auth r \<longrightarrow> rt_disposed r)"

interpretation alive: runtime_family "\<lambda>_ e. e \<noteq> Dispose" "\<lambda>r. lifetime r = b" for b
  by unfold_locales (simp_all add: lifetime_step)

interpretation connected: runtime_family "\<lambda>_ _. True" conn_inv
  by unfold_locales simp_all

interpretation over: runtime_family "\<lambda>_ _. True" ended_runtime
proof unfold_locales
  fix r e assume r: "ended_runtime r"
  have "rt_disposed (runtime_step r e)" if "rt_disposed r"
    using that lifetime_step [of e r] by (cases "e = Dispose") (simp_all add: lifetime_def rt_do_def)
  then show "ended_runtime (runtime_step r e)"
    using r conn.inv_step [of r e] auth_kept [of r e] by (simp add: ended_runtime_def)
qed simp_all

section \<open>One runtime at a time\<close>

lemma apply_unmounted:
  "\<forall>v \<in> set (ss_overlays s). \<not> ov_mounted v \<Longrightarrow> e \<noteq> Unmount \<Longrightarrow> \<forall>v \<in> set (ss_overlays (overlay_apply i e s)). \<not> ov_mounted v"
  by (auto simp: overlay_apply_def Let_def mounted_frame dest!: subsetD [OF set_update_subset_insert] simp del: overlay_step.simps)

lemma feed_unmounted:
  "\<forall>v \<in> set (ss_overlays s). \<not> ov_mounted v \<Longrightarrow> \<forall>v \<in> set (ss_overlays (feed ds s)). \<not> ov_mounted v"
proof (induction ds s rule: feed.induct)
  case (2 i ev ds s)
  have "overlay_event_of ev \<noteq> Unmount" by (simp add: overlay_event_of_def)
  then show ?case using 2 apply_unmounted [OF 2(2)] by simp
qed simp_all

definition left_session :: "session \<Rightarrow> bool" where
  "left_session s \<longleftrightarrow> over.inside s \<and> gone_family.all_inv s \<and> (\<forall>v \<in> set (ss_overlays s). \<not> ov_mounted v)"

lemma left_step:
  assumes "left_session s" and "session_ok s e" and "\<forall>rtc. e \<noteq> Rendered rtc"
  shows "left_session (session_step s e)"
proof -
  have ok: "over.ok_inside s e" "gone_family.ok_session s e" by (cases e; simp)+
  have "over.inside (session_step s e) \<and> gone_family.all_inv (session_step s e)"
    using assms(1) over.in_session.inv_step [OF _ ok(1)] gone_family.family.inv_step [OF _ ok(2)] by (simp add: left_session_def)
  moreover have "\<forall>v \<in> set (ss_overlays (session_step s e)). \<not> ov_mounted v"
  proof (cases e)
    case (Page pe)
    have "\<forall>v \<in> set (ss_overlays (runtime_apply pe s)). \<not> ov_mounted v"
      unfolding runtime_apply_def Let_def using assms(1) by (intro feed_unmounted) (simp add: left_session_def)
    then show ?thesis using Page by simp
  next
    case (Overlay i oe)
    then have "oe \<noteq> Unmount" using assms(2) by auto
    then have "\<forall>v \<in> set (ss_overlays (overlay_apply i oe s)). \<not> ov_mounted v"
      using assms(1) by (intro apply_unmounted) (simp_all add: left_session_def)
    then show ?thesis using Overlay by simp
  qed (use assms(3) in simp)
  ultimately show ?thesis by (simp add: left_session_def)
qed

text \<open>Unmounting leaves such a session behind.\<close>

lemma unmount_all_left:
  assumes slots: "slots_inv s" and gone: "gone_family.all_inv s" and conn: "connected.inside s"
  shows "left_session (unmount_all s)"
proof -
  let ?t = "if current s = None then s else unmount_overlay (length (ss_overlays s) - 1) s"
  have c: "connected.inside ?t" using conn connected.inside_unmount by simp
  have d: "unmount_all s = feed (delivered (drop (length (rt_log (ss_runtime ?t))) (rt_log (runtime_step (ss_runtime ?t) Dispose))))
      (?t\<lparr>ss_runtime := runtime_step (ss_runtime ?t) Dispose\<rparr>)"
    unfolding unmount_all_def runtime_apply_def Let_def by (rule refl)
  have "ended_runtime (runtime_step (ss_runtime ?t) Dispose)"
    using c conn.inv_step [of "ss_runtime ?t" Dispose] unfolding connected.inside_def ended_runtime_def by (simp add: rt_do_def)
  then have "over.inside (unmount_all s)" unfolding d by (intro over.inside_feed) (simp add: over.inside_def del: runtime_step.simps)
  moreover have "gone_family.all_inv ?t"
    using gone gone_family.all_apply [OF gone] by (simp add: unmount_overlay_def gone_family.all_inv_def Let_def)
  then have "gone_family.all_inv (unmount_all s)" unfolding unmount_all_def by (rule gone_family.all_runtime)
  moreover have "\<forall>v \<in> set (ss_overlays ?t). \<not> ov_mounted v"
  proof (cases "current s")
    case None
    have "\<not> ov_mounted (ss_overlays s ! i)" if i: "i < length (ss_overlays s)" for i
    proof
      assume m: "ov_mounted (ss_overlays s ! i)"
      then have "Suc i = length (ss_overlays s)" using slots i by (simp add: slots_inv_def shape_def slots_of_def)
      then have "i = length (ss_overlays s) - 1" and "ss_overlays s \<noteq> []" by auto
      then have "current s = Some (ss_overlays s ! i)" using m by (simp add: current_def last_conv_nth)
      with None show False by simp
    qed
    then show ?thesis using None by (auto simp: in_set_conv_nth)
  next
    case (Some v)
    have "\<not> ov_mounted (ss_overlays ?t ! i)" if "i < length (ss_overlays s)" for i
      using slots that Some by (auto simp: slots_inv_def shape_def slots_of_def unmount_overlay_def overlay_apply_def Let_def
        nth_list_update simp del: overlay_step.simps)
    moreover have "length (ss_overlays ?t) = length (ss_overlays s)" by (simp add: unmount_overlay_def Let_def)
    ultimately show ?thesis by (metis in_set_conv_nth)
  qed
  then have "\<forall>v \<in> set (ss_overlays (unmount_all s)). \<not> ov_mounted v" unfolding d by (intro feed_unmounted) simp
  ultimately show ?thesis by (simp add: left_session_def)
qed

lemma left_is_inert:
  assumes "left_session s"
  shows "\<not> rt_socket (ss_runtime s) \<and> rt_retry (ss_runtime s) = None \<and> (\<forall>v \<in> set (ss_overlays s). ov_dead v)"
  using assms by (auto simp: left_session_def over.inside_def ended_runtime_def conn_inv_def gone_family.all_inv_def gone_inv_def
    split: if_splits)

definition provider_inv :: "provider \<Rightarrow> bool" where
  "provider_inv s \<longleftrightarrow> alive.inside (authenticated_area (pv_path s), False) (pv_now s) \<and> connected.inside (pv_now s)
     \<and> slots_inv (pv_now s) \<and> gone_family.all_inv (pv_now s) \<and> (\<forall>g \<in> set (pv_gone s). left_session g)"

lemma fresh_session:
  "alive.inside (auth, False) (session_init auth dark)" "connected.inside (session_init auth dark)"
  "gone_family.all_inv (session_init auth dark)"
proof -
  show "connected.inside (session_init auth dark)" by (simp add: connected.inside_def session_init_def conn_init)
  show "alive.inside (auth, False) (session_init auth dark)"
  proof -
    have "lifetime (runtime_init auth dark) = (auth, False)" by (simp add: runtime_init_def connect_def lifetime_def rt_do_def Let_def)
    then show ?thesis unfolding alive.inside_def session_init_def session.simps .
  qed
  show "gone_family.all_inv (session_init auth dark)" by (simp add: gone_family.all_inv_def session_init_def)
qed

interpretation shell: machine provider_step provider_ok provider_inv
proof unfold_locales
  fix s e assume inv: "provider_inv s" and ok: "provider_ok s e"
  show "provider_inv (provider_step s e)"
  proof (cases e)
    case (Visits path)
    have "left_session (unmount_all (pv_now s))" using inv by (intro unmount_all_left) (simp_all add: provider_inv_def)
    then show ?thesis using inv Visits by (auto simp: provider_inv_def fresh_session slots_init)
  next
    case (Inside se)
    then have oks: "session_ok (pv_now s) se" and d: "se \<noteq> Page Dispose" using ok by simp_all
    have any: "connected.ok_inside (pv_now s) se" "gone_family.ok_session (pv_now s) se" by (cases se; simp)+
    have alive: "alive.ok_inside (pv_now s) se" using d by (cases se) simp_all
    show ?thesis using inv Inside connected.in_session.inv_step [OF _ any(1)] gone_family.family.inv_step [OF _ any(2)]
        alive.in_session.inv_step [OF _ alive] slots.inv_step [OF _ oks] by (simp add: provider_inv_def del: session_step.simps)
  next
    case (Outlived i se)
    show ?thesis
    proof (cases "i < length (pv_gone s)")
      case True
      have "left_session (session_step (pv_gone s ! i) se)"
        using inv ok Outlived True by (intro left_step) (auto simp: provider_inv_def split: session_event.splits)
      then show ?thesis using inv Outlived True
        by (auto simp: provider_inv_def dest!: subsetD [OF set_update_subset_insert] simp del: session_step.simps)
    qed (use inv Outlived in simp)
  qed
qed

lemma provider_invs:
  assumes "reachable provider_step provider_ok (provider_init path dark) s"
  shows "provider_inv s" and "lifetime (ss_runtime (pv_now s)) = (authenticated_area (pv_path s), False)"
proof -
  have "provider_inv (provider_init path dark)" by (simp add: provider_inv_def provider_init_def fresh_session slots_init)
  then show "provider_inv s" by (rule shell.inv_reachable [OF assms])
  then show "lifetime (ss_runtime (pv_now s)) = (authenticated_area (pv_path s), False)" by (simp add: provider_inv_def alive.inside_def)
qed

lemma area_is_signed_in:
  "reachable provider_step provider_ok (provider_init path dark) s \<Longrightarrow> rt_auth (ss_runtime (pv_now s)) = authenticated_area (pv_path s)"
  using provider_invs(2) by (simp add: lifetime_def)


definition sign_out_run :: "provider_event list" where
  "sign_out_run = [Inside (Page (SocketMessage sample_page (Some sample_invite))), Inside (Rendered True),
     Visits (lit ''/app/messages''), Visits (lit ''/''), Outlived 0 (Page SocketClosed)]"


section \<open>The conversation on screen\<close>

text \<open>\<open>Messages\<close>: the conversation view has the selected connection as its key.\<close>

record messages_page =
  mg_now :: thread
  mg_gone :: "thread list"

definition messages_init :: "jstr \<Rightarrow> jstr \<Rightarrow> messages_page" where
  "messages_init selected user = \<lparr>mg_now = thread_init selected user, mg_gone = []\<rparr>"

text \<open>A fresh view gets the context of the runtime (user, settings, \<open>online\<close>) that the old one had.\<close>

definition next_thread :: "jstr \<Rightarrow> thread \<Rightarrow> thread" where
  "next_thread selected t = (thread_init selected (th_userId t))
     \<lparr>th_online := th_online t, th_typingAllowed := th_typingAllowed t, th_visible := th_visible t\<rparr>"

datatype messages_event = Selects jstr | InThread th_event | LeftThread nat th_event

fun messages_step :: "messages_page \<Rightarrow> messages_event \<Rightarrow> messages_page" where
  "messages_step s (Selects c) = (if c = th_selected (mg_now s) then s
     else \<lparr>mg_now = next_thread c (mg_now s), mg_gone = mg_gone s @ [thread_step (mg_now s) ThUnmount]\<rparr>)"
| "messages_step s (InThread e) = (if e = ThUnmount then s else s\<lparr>mg_now := thread_step (mg_now s) e\<rparr>)"
| "messages_step s (LeftThread i e) = (if i < length (mg_gone s)
     then s\<lparr>mg_gone := (mg_gone s)[i := thread_step (mg_gone s ! i) e]\<rparr> else s)"

text \<open>What a conversation asks of others: receipts, messages, typing signals, calls, pages of messages.\<close>

fun asks :: "th_fx \<Rightarrow> bool" where
  "asks (SendReceipt i r) = True" | "asks (SendMessage b c) = True" | "asks (SendTyping n) = True"
| "asks (RequestCall n v) = True" | "asks (GetMessages b) = True" | "asks _ = False"

definition asked_of :: "thread \<Rightarrow> th_fx list" where
  "asked_of t = filter asks (th_log t)"

lemma outgoing_frame [simp]:
  "asked_of (th_do f t) = asked_of t @ (if asks f then [f] else [])" "asked_of (th_await k t) = asked_of t"
  "asked_of (set_items ms t) = asked_of t" "asked_of (load_done g t) = asked_of t"
  by (simp_all add: asked_of_def th_do_def th_await_def set_items_def load_done_def Let_def)

lemma outgoing_fields [simp]:
  "asked_of (t\<lparr>th_status := m\<rparr>) = asked_of t" "asked_of (t\<lparr>th_connections := cs\<rparr>) = asked_of t"
  "asked_of (t\<lparr>th_tasks := q\<rparr>) = asked_of t" "asked_of (t\<lparr>th_loading := b\<rparr>) = asked_of t" "asked_of (t\<lparr>th_sending := b\<rparr>) = asked_of t"
  "asked_of (t\<lparr>th_stickToBottom := b\<rparr>) = asked_of t" "asked_of (t\<lparr>th_hasOlder := b\<rparr>) = asked_of t" "asked_of (t\<lparr>th_draft := d\<rparr>) = asked_of t"
  "asked_of (t\<lparr>th_skipScroll := b\<rparr>) = asked_of t" "asked_of (t\<lparr>th_olderExhausted := b\<rparr>) = asked_of t" "asked_of (t\<lparr>th_retry := p\<rparr>) = asked_of t"
  by (simp_all add: asked_of_def)

lemma left_thread_asks_nothing:
  assumes "\<not> th_mounted t"
  shows "asked_of (thread_step t e) = asked_of t" and "\<not> th_mounted (thread_step t e)"
proof -
  have "asked_of (th_resume k out u) = asked_of u \<and> th_mounted (th_resume k out u) = th_mounted u" if "\<not> th_mounted u" for k out u
    using that by (cases k) (auto simp: load_refused_def load_catch_def got_page_def send_failed_def send_done_def got_older_def
      live_run_def load_done_def Let_def th_do_def th_await_def set_items_def asked_of_def split: th_outcome.split)
  then have "asked_of (thread_step t e) = asked_of t \<and> \<not> th_mounted (thread_step t e)"
    using assms by (cases e) (auto split: option.split)
  then show "asked_of (thread_step t e) = asked_of t" and "\<not> th_mounted (thread_step t e)" by simp_all
qed

definition messages_inv :: "messages_page \<Rightarrow> bool" where
  "messages_inv s \<longleftrightarrow> th_mounted (mg_now s) \<and> (\<forall>t \<in> set (mg_gone s). \<not> th_mounted t)"

lemma mounted_stays:
  assumes "e \<noteq> ThUnmount"
  shows "th_mounted (thread_step t e) = th_mounted t"
proof -
  have resume: "th_mounted (th_resume k out u) = th_mounted u" for k out u
    by (cases k) (auto simp: load_refused_def load_catch_def got_page_def send_failed_def send_done_def got_older_def
      load_done_def Let_def th_do_def th_await_def set_items_def split: th_outcome.split option.split)
  have send: "th_mounted (load_thread u) = th_mounted u" "th_mounted (load_connections u) = th_mounted u"
    "th_mounted (send i u) = th_mounted u" "th_mounted (older u) = th_mounted u" "th_mounted (call_person v u) = th_mounted u"
    "th_mounted (edit_draft d n u) = th_mounted u" for u i v d n
    by (simp_all add: load_thread_def load_connections_def send_def older_def call_person_def edit_draft_def Let_def
      th_do_def th_await_def split: list.split option.split)
  show ?thesis using assms
    by (cases e) (auto simp: resume send on_live_def start_effect_def th_do_def Let_def split: option.split)
qed

lemma fresh_mounted: "th_mounted (thread_init c u)" "th_mounted (next_thread c t)"
  by (simp_all add: thread_init_def next_thread_def start_effect_def load_thread_def load_connections_def th_do_def th_await_def)

interpretation messages: machine messages_step "\<lambda>_ _. True" messages_inv
proof unfold_locales
  fix s e assume inv: "messages_inv s"
  show "messages_inv (messages_step s e)"
  proof (cases e)
    case (LeftThread i te)
    have "\<not> th_mounted (thread_step (mg_gone s ! i) te)" if "i < length (mg_gone s)"
      using inv that by (intro left_thread_asks_nothing) (simp add: messages_inv_def)
    then show ?thesis using inv LeftThread
      by (auto simp: messages_inv_def dest!: subsetD [OF set_update_subset_insert] simp del: thread_step.simps)
  qed (use inv mounted_stays fresh_mounted in \<open>auto simp: messages_inv_def\<close>)
qed

text \<open>C18: A conversation that is not on screen any more asks nothing of anybody: whatever its pending requests
  bring, it sends no receipt, no message and no typing signal, starts no call and loads no page. Only the
  conversation on screen does.\<close>

theorem left_conversation_is_quiet:
  assumes "reachable messages_step (\<lambda>_ _. True) (messages_init selected user) s" and "t \<in> set (mg_gone s)"
  shows "asked_of (run thread_step t es) = asked_of t"
proof -
  have "messages_inv (messages_init selected user)" by (simp add: messages_inv_def messages_init_def fresh_mounted)
  then have "messages_inv s" by (rule messages.inv_reachable [OF assms(1)])
  then have "\<not> th_mounted t" using assms(2) by (simp add: messages_inv_def)
  then show ?thesis
  proof (induction es arbitrary: t)
    case (Cons e es)
    then show ?case using left_thread_asks_nothing [of t e] by (simp del: thread_step.simps)
  qed simp
qed

definition switching_run :: "messages_event list" where
  "switching_run = [InThread (ThSettle 0 (ThStatus 200)), InThread (ThSettle 1 (ThStatus 200)), Selects (lit ''c2'')]"

text \<open>The page of messages of the first conversation arrives after the second one was opened.\<close>

definition late_page :: "th_event list" where
  "late_page = [ThSettle 3 (ThPage [\<lparr>me_id = 7, me_clientId = lit ''k'', me_senderId = lit ''bob'', me_body = lit ''hello'', me_createdAt = []\<rparr>] 0 0)]"

theorem left_conversation_is_quiet_witness:
  "let s = run messages_step (messages_init (lit ''c1'') (lit ''ada'')) switching_run
   in asked_of (run thread_step (mg_gone s ! 0) late_page) = [GetMessages 0]
     \<and> asked_of (run thread_step (run thread_step (thread_init (lit ''c1'') (lit ''ada'')) [ThSettle 0 (ThStatus 200), ThSettle 1 (ThStatus 200)]) late_page)
       = [GetMessages 0, SendReceipt 7 True]"
proof -
  let ?s = "run messages_step (messages_init (lit ''c1'') (lit ''ada'')) switching_run"
  have r: "reachable messages_step (\<lambda>_ _. True) (messages_init (lit ''c1'') (lit ''ada'')) ?s"
    by (rule admissible_reachable) (rule admissible_True)
  have l: "length (mg_gone ?s) = 1 \<and> asked_of (mg_gone ?s ! 0) = [GetMessages 0]" by code_simp
  then have "mg_gone ?s ! 0 \<in> set (mg_gone ?s)" by (intro nth_mem) simp
  from left_conversation_is_quiet [OF r this, of late_page] l
  have "asked_of (run thread_step (mg_gone ?s ! 0) late_page) = [GetMessages 0]" by simp
  moreover have "asked_of (run thread_step (run thread_step (thread_init (lit ''c1'') (lit ''ada'')) [ThSettle 0 (ThStatus 200), ThSettle 1 (ThStatus 200)]) late_page)
       = [GetMessages 0, SendReceipt 7 True]" by code_simp
  ultimately show ?thesis unfolding Let_def by blast
qed

section \<open>The box of the draft\<close>

text \<open>\<open>resizeDraft\<close>: the computed style (\<open>None\<close> is \<open>NaN\<close>, a line height that is no length) and the height
  of the text; the box becomes at most five lines high and scrolls only beyond.\<close>

record draft_style =
  ds_lineHeight :: "rat option"
  ds_padding :: "rat \<times> rat"
  ds_borders :: "rat \<times> rat"
  ds_scrollHeight :: rat

definition draft_limit :: "draft_style \<Rightarrow> rat" where
  "draft_limit d = (case ds_lineHeight d of None \<Rightarrow> 24 | Some h \<Rightarrow> if h = 0 then 24 else h) * 5
     + (fst (ds_padding d) + snd (ds_padding d)) + (fst (ds_borders d) + snd (ds_borders d))"

definition resize_draft :: "draft_style \<Rightarrow> rat \<times> bool" where
  "resize_draft d = (min (ds_scrollHeight d) (draft_limit d), ds_scrollHeight d > draft_limit d + 1)"

lemma draft_box: "resize_draft d = (h, scrolls) \<Longrightarrow> h \<le> draft_limit d \<and> (\<not> scrolls \<longrightarrow> ds_scrollHeight d \<le> h + 1)"
  by (auto simp: resize_draft_def)

section \<open>What the pages see of the runtime\<close>

text \<open>The context value, without the functions, and the hook that reads it; there is none outside the provider.\<close>

record runtime_context =
  rc_userId :: jstr
  rc_online :: bool
  rc_settings :: settings
  rc_notices :: "notice list"

definition context_of :: "runtime \<Rightarrow> runtime_context" where
  "context_of r = \<lparr>rc_userId = rt_userId r, rc_online = rt_online r, rc_settings = rt_settings r, rc_notices = rt_notices r\<rparr>"

definition use_communication :: "runtime_context option \<Rightarrow> jstr + runtime_context" where
  "use_communication c = (case c of None \<Rightarrow> Inl (lit ''Communication provider required'') | Some v \<Rightarrow> Inr v)"

text \<open>A page that is told it is online has a socket.\<close>

lemma online_means_socket:
  assumes "reachable provider_step provider_ok (provider_init path dark) s"
    and "use_communication (Some (context_of (ss_runtime (pv_now s)))) = Inr c" and "rc_online c"
  shows "rt_socket (ss_runtime (pv_now s))"
proof -
  have "conn_inv (ss_runtime (pv_now s))" and "lifetime (ss_runtime (pv_now s)) = (authenticated_area (pv_path s), False)"
    using provider_invs [OF assms(1)] by (simp_all add: provider_inv_def connected.inside_def)
  then have "conn_inv (ss_runtime (pv_now s)) \<and> \<not> rt_disposed (ss_runtime (pv_now s))" by (simp add: lifetime_def)
  then show ?thesis using assms(2,3) by (auto simp: use_communication_def context_of_def conn_inv_def)
qed

end
