(* ===== verification/Conversation_Screen.thy ===== *)
theory Conversation_Screen
  imports Message_Guarantees
begin

text \<open>
  What the conversation page shows (\<open>components/communication/messages.tsx\<close>, its markup), as a
  function of the state of \<open>Message_Thread\<close>: the header, the list of conversations, the chat panel
  with its bubbles and receipts, and the composer. A control of the screen that is not offered
  has no effect on the state.
\<close>

section \<open>The screen\<close>

text \<open>The header: \<open>sh_calls\<close> is \<open>None\<close> where the call buttons are missing, else whether they are enabled.\<close>

record screen_header =
  sh_title :: jstr
  sh_subtitle :: "jstr option"
  sh_calls :: "bool option"

definition show_header :: "thread \<Rightarrow> screen_header" where
  "show_header s = (case person_of s of
     None \<Rightarrow> \<lparr>sh_title = lit ''Messages'', sh_subtitle = None, sh_calls = None\<rparr>
   | Some c \<Rightarrow> \<lparr>sh_title = (if co_displayName c = [] then lit ''Messages'' else co_displayName c),
       sh_subtitle = Some (if th_typing s then lit ''Typing...'' else lit ''Your connection''),
       sh_calls = Some (th_online s)\<rparr>)"

record conversation_item =
  ci_selected :: bool
  ci_picture :: "jstr option"
  ci_name :: jstr
  ci_preview :: jstr
  ci_unread :: "nat option"

definition show_conversation :: "thread \<Rightarrow> connection \<Rightarrow> conversation_item" where
  "show_conversation s c = \<lparr>ci_selected = (co_id c = th_selected s),
     ci_picture = (if co_avatarUrl c = [] then None else Some (co_avatarUrl c)),
     ci_name = co_displayName c,
     ci_preview = (if co_preview c = [] then lit ''Say hello'' else co_preview c),
     ci_unread = (if 0 < co_unread c then Some (co_unread c) else None)\<rparr>"

text \<open>The list on the left: hint, status (only while no conversation is open), entries, and whether the
  invitation to meet someone is shown.\<close>

record conversation_list =
  cl_hint :: jstr
  cl_status :: "jstr option"
  cl_items :: "conversation_item list"
  cl_invite :: bool

definition show_conversations :: "(jstr \<Rightarrow> jstr) \<Rightarrow> thread \<Rightarrow> conversation_list" where
  "show_conversations lower s = \<lparr>cl_hint = (if th_online s then lit ''The people you chose to keep.'' else lit ''Reconnecting...''),
     cl_status = (if th_selected s = [] then Some (th_status s) else None),
     cl_items = map (show_conversation s) (found_connections lower s),
     cl_invite = (th_connections s = [])\<rparr>"

record bubble =
  bb_sent :: bool
  bb_body :: jstr
  bb_time :: jstr
  bb_receipt :: "receipt option"

definition show_bubble :: "thread \<Rightarrow> message \<Rightarrow> bubble" where
  "show_bubble s m = (let own = (me_senderId m = th_userId s) in
     \<lparr>bb_sent = own, bb_body = me_body m, bb_time = me_createdAt m,
      bb_receipt = (if own then Some (receipt_label s m) else None)\<rparr>)"

record chat_view =
  cv_older :: bool
  cv_empty :: bool
  cv_bubbles :: "bubble list"
  cv_status :: jstr
  cv_draft :: jstr
  cv_send :: bool
  cv_label :: jstr

definition show_chat :: "thread \<Rightarrow> chat_view" where
  "show_chat s = \<lparr>cv_older = th_hasOlder s, cv_empty = (th_items s = []), cv_bubbles = map (show_bubble s) (th_items s),
     cv_status = th_status s, cv_draft = th_draft s, cv_send = (\<not> th_sending s \<and> \<not> blank (th_draft s)),
     cv_label = (if th_sending s then lit ''Sending...'' else lit ''Send'')\<rparr>"

datatype chat_panel = NoPanel | ChooseSomeone jstr | Chat chat_view

definition show_panel :: "thread \<Rightarrow> chat_panel" where
  "show_panel s = (if th_selected s = [] then NoPanel
     else if person_of s = None then ChooseSomeone (th_status s) else Chat (show_chat s))"

text \<open>\<open>onKeyDown\<close> of the draft: Enter submits the form, with Shift or inside an input method it is a key.\<close>

definition draft_key :: "jstr \<Rightarrow> bool \<Rightarrow> bool \<Rightarrow> jstr \<Rightarrow> thread \<Rightarrow> thread" where
  "draft_key key shift composing uuid s = (if key = lit ''Enter'' \<and> \<not> shift \<and> \<not> composing
     then thread_step s (ThSubmit uuid) else s)"

section \<open>Screen and steps agree\<close>

definition chat_of :: "thread \<Rightarrow> chat_view option" where
  "chat_of s = (case show_panel s of Chat v \<Rightarrow> Some v | _ \<Rightarrow> None)"

lemma chat_of_iff: "chat_of s = Some v \<longleftrightarrow> th_selected s \<noteq> [] \<and> person_of s \<noteq> None \<and> v = show_chat s"
  by (auto simp: chat_of_def show_panel_def split: if_splits)

lemma send_needs_button:
  assumes "thread_step s (ThSubmit uuid) \<noteq> s"
  shows "\<exists>v. chat_of s = Some v \<and> cv_send v \<and> cv_label v = lit ''Send''"
proof -
  have "person_of s \<noteq> None" "th_selected s \<noteq> []" "\<not> th_sending s" "\<not> blank (th_draft s)"
    using assms by (auto simp: send_def split: if_splits)
  then show ?thesis by (auto simp: chat_of_iff) (simp_all add: show_chat_def)
qed

lemma older_needs_button:
  assumes "thread_step s ThOlder \<noteq> s" and "th_selected s \<noteq> []"
  shows "\<exists>v. chat_of s = Some v \<and> cv_older v \<and> \<not> cv_empty v"
proof -
  have "person_of s \<noteq> None" "th_hasOlder s" "th_items s \<noteq> []"
    using assms(1) by (auto simp: older_def split: if_splits list.splits)
  then show ?thesis using assms(2) by (auto simp: chat_of_iff) (simp_all add: show_chat_def)
qed

lemma call_needs_button: "thread_step s (ThCall video) \<noteq> s \<Longrightarrow> sh_calls (show_header s) = Some True"
  by (auto simp: call_person_def show_header_def split: if_splits option.splits)

section \<open>Receipts\<close>

text \<open>The labels, from sent to read.\<close>

fun receipt_rank :: "receipt \<Rightarrow> nat" where
  "receipt_rank Sent = 0"
| "receipt_rank Delivered = 1"
| "receipt_rank Read = 2"

instantiation receipt :: linorder
begin

definition less_eq_receipt :: "receipt \<Rightarrow> receipt \<Rightarrow> bool" where
  "less_eq_receipt a b \<longleftrightarrow> receipt_rank a \<le> receipt_rank b"

definition less_receipt :: "receipt \<Rightarrow> receipt \<Rightarrow> bool" where
  "less_receipt a b \<longleftrightarrow> receipt_rank a < receipt_rank b"

instance
proof
  show "a \<le> b \<Longrightarrow> b \<le> a \<Longrightarrow> a = b" for a b :: receipt
    by (cases a; cases b) (simp_all add: less_eq_receipt_def)
qed (auto simp: less_eq_receipt_def less_receipt_def)

end

lemma receipt_antimono: "me_id m \<le> me_id n \<Longrightarrow> receipt_label s n \<le> receipt_label s m"
  by (auto simp: receipt_label_def less_eq_receipt_def)

text \<open>The receipts of the bubbles from top to bottom.\<close>

definition shown_receipts :: "chat_view \<Rightarrow> receipt list" where
  "shown_receipts v = concat (map (\<lambda>b. case bb_receipt b of None \<Rightarrow> [] | Some r \<Rightarrow> [r]) (cv_bubbles v))"

lemma receipts_of_items: "shown_receipts (show_chat s) = map (receipt_label s) (filter (\<lambda>m. me_senderId m = th_userId s) (th_items s))"
proof -
  have "concat (map (\<lambda>b. case bb_receipt b of None \<Rightarrow> [] | Some r \<Rightarrow> [r]) (map (show_bubble s) ms))
    = map (receipt_label s) (filter (\<lambda>m. me_senderId m = th_userId s) ms)" for ms
    by (induction ms) (simp_all add: show_bubble_def Let_def)
  then show ?thesis by (simp add: shown_receipts_def show_chat_def)
qed

lemma sorted_receipts:
  assumes "thread_sorted ms"
  shows "sorted_wrt (\<ge>) (map (receipt_label s) ms)"
  using assms
proof (induction ms)
  case (Cons m ms)
  then have "\<forall>n \<in> set ms. me_id m < me_id n" by (simp add: thread_sorted_def)
  then show ?case using Cons by (auto simp: thread_sorted_def intro!: receipt_antimono [OF less_imp_le])
qed simp

text \<open>Going down the conversation a receipt never gets better: no message is shown as read below one
  that is not, none as delivered below one that is only sent.\<close>

lemma receipts_go_down:
  assumes "reachable thread_step orderly (thread_init selected user) s"
  shows "sorted_wrt (\<ge>) (shown_receipts (show_chat s))"
proof -
  have "sorted_inv s" using assms sorted_init by (rule sorted.inv_reachable)
  then have "thread_sorted (filter P (th_items s))" for P
    by (simp add: sorted_inv_def thread_sorted_def sorted_wrt_map sorted_wrt_filter)
  then show ?thesis unfolding receipts_of_items by (rule sorted_receipts)
qed

end
