(* ===== verification/Json_Text.thy ===== *)
theory Json_Text
  imports Web_Prelude
begin

text \<open>
  \<open>JSON.stringify\<close> and \<open>JSON.parse\<close>, which every signal of the lab and of discovery passes
  through. Numbers are integers: no signal carries any other. A numeral with a fraction or
  an exponent is kept as its text (\<open>JFrac\<close>). An object is its list of members; where a key
  is repeated, the last one counts, as in JavaScript.

  The parser recurses with fuel; \<open>parse_json\<close> starts it with twice the length of the text
  and two more, and \<open>parse_value_enough\<close> shows that more fuel never changes its answer.
\<close>

section \<open>Values\<close>

datatype json = JNull | JBool bool | JNum int | JFrac jstr | JStr jstr
  | JArr "json list" | JObj "(jstr \<times> json) list"

definition member :: "jstr \<Rightarrow> json \<Rightarrow> json option" where
  "member k v = (case v of JObj fs \<Rightarrow> map_of (rev fs) k | _ \<Rightarrow> None)"

text \<open>JavaScript's \<open>Boolean(v)\<close>; \<open>None\<close> is \<open>undefined\<close>.\<close>

fun truthy :: "json option \<Rightarrow> bool" where
  "truthy None = False"
| "truthy (Some JNull) = False"
| "truthy (Some (JBool b)) = b"
| "truthy (Some (JNum n)) = (n \<noteq> 0)"
| "truthy (Some (JStr s)) = (s \<noteq> [])"
| "truthy (Some _) = True"

section \<open>Text\<close>

definition chr :: "char \<Rightarrow> code_unit" where
  "chr c = of_char c"

definition digit :: "nat \<Rightarrow> code_unit" where
  "digit d = word_of_nat (48 + d)"

fun decimal :: "nat \<Rightarrow> jstr" where
  "decimal n = (if n < 10 then [digit n] else decimal (n div 10) @ [digit (n mod 10)])"

declare decimal.simps [simp del]

definition hex_digit :: "nat \<Rightarrow> code_unit" where
  "hex_digit d = word_of_nat (if d < 10 then 48 + d else 87 + d)"

definition hex4 :: "code_unit \<Rightarrow> jstr" where
  "hex4 u = (let n = unat u in
     [hex_digit (n div 4096), hex_digit (n div 256 mod 16), hex_digit (n div 16 mod 16), hex_digit (n mod 16)])"

definition high_surrogate :: "code_unit \<Rightarrow> bool" where
  "high_surrogate u \<longleftrightarrow> 0xD800 \<le> u \<and> u \<le> 0xDBFF"

definition low_surrogate :: "code_unit \<Rightarrow> bool" where
  "low_surrogate u \<longleftrightarrow> 0xDC00 \<le> u \<and> u \<le> 0xDFFF"

text \<open>One code unit inside a quoted string; a lone surrogate is written as an escape.\<close>

definition escape1 :: "code_unit \<Rightarrow> jstr" where
  "escape1 u =
     (if u = 0x22 then [0x5C, 0x22] else if u = 0x5C then [0x5C, 0x5C]
      else if u = 0x08 then [0x5C, 0x62] else if u = 0x0C then [0x5C, 0x66]
      else if u = 0x0A then [0x5C, 0x6E] else if u = 0x0D then [0x5C, 0x72]
      else if u = 0x09 then [0x5C, 0x74]
      else if u < 0x20 \<or> high_surrogate u \<or> low_surrogate u then [0x5C, 0x75] @ hex4 u
      else [u])"

fun escape :: "jstr \<Rightarrow> jstr" where
  "escape [] = []"
| "escape [u] = escape1 u"
| "escape (u # v # s) = (if high_surrogate u \<and> low_surrogate v then u # v # escape s
     else escape1 u @ escape (v # s))"

definition quote :: "jstr \<Rightarrow> jstr" where
  "quote s = 0x22 # escape s @ [0x22]"

text \<open>\<open>JSON.stringify(v)\<close>\<close>

fun sep :: "jstr list \<Rightarrow> jstr" where
  "sep [] = []"
| "sep [t] = t"
| "sep (t # ts) = t @ 0x2C # sep ts"

fun stringify :: "json \<Rightarrow> jstr" where
  "stringify JNull = lit ''null''"
| "stringify (JBool b) = (if b then lit ''true'' else lit ''false'')"
| "stringify (JNum n) = (if n < 0 then 0x2D # decimal (nat (- n)) else decimal (nat n))"
| "stringify (JFrac t) = t"
| "stringify (JStr s) = quote s"
| "stringify (JArr vs) = 0x5B # sep (map stringify vs) @ [0x5D]"
| "stringify (JObj fs) = 0x7B # sep (map (\<lambda>(k, v). quote k @ 0x3A # stringify v) fs) @ [0x7D]"

section \<open>Parsing\<close>

definition json_space :: "code_unit \<Rightarrow> bool" where
  "json_space u \<longleftrightarrow> u = 0x20 \<or> u = 0x09 \<or> u = 0x0A \<or> u = 0x0D"

definition skip :: "jstr \<Rightarrow> jstr" where
  "skip s = dropWhile json_space s"

definition is_digit :: "code_unit \<Rightarrow> bool" where
  "is_digit u \<longleftrightarrow> 0x30 \<le> u \<and> u \<le> 0x39"

definition digit_value :: "code_unit \<Rightarrow> nat" where
  "digit_value u = unat u - 48"

definition number_of :: "jstr \<Rightarrow> nat" where
  "number_of ds = foldl (\<lambda>n u. 10 * n + digit_value u) 0 ds"

definition hex_value :: "code_unit \<Rightarrow> nat option" where
  "hex_value u = (if is_digit u then Some (unat u - 48)
     else if 0x61 \<le> u \<and> u \<le> 0x66 then Some (unat u - 87)
     else if 0x41 \<le> u \<and> u \<le> 0x46 then Some (unat u - 55) else None)"

definition hex_unit :: "code_unit \<Rightarrow> code_unit \<Rightarrow> code_unit \<Rightarrow> code_unit \<Rightarrow> code_unit option" where
  "hex_unit a b c d = (case (hex_value a, hex_value b, hex_value c, hex_value d) of
       (Some w, Some x, Some y, Some z) \<Rightarrow> Some (word_of_nat (4096 * w + 256 * x + 16 * y + z))
     | _ \<Rightarrow> None)"

definition short_escape :: "code_unit \<Rightarrow> code_unit option" where
  "short_escape u = (if u = 0x22 \<or> u = 0x5C \<or> u = 0x2F then Some u
     else if u = 0x62 then Some 0x08 else if u = 0x66 then Some 0x0C
     else if u = 0x6E then Some 0x0A else if u = 0x72 then Some 0x0D
     else if u = 0x74 then Some 0x09 else None)"

text \<open>One character of a string, plain or escaped, and the rest of the text.\<close>

definition unescape1 :: "code_unit \<Rightarrow> jstr \<Rightarrow> (code_unit \<times> jstr) option" where
  "unescape1 u s =
     (if u = 0x5C then
        (case s of [] \<Rightarrow> None
         | a # r \<Rightarrow>
           if a = 0x75 then
             (case r of b # c # d # e # q \<Rightarrow> map_option (\<lambda>w. (w, q)) (hex_unit b c d e) | _ \<Rightarrow> None)
           else map_option (\<lambda>w. (w, r)) (short_escape a))
      else if u < 0x20 then None
      else Some (u, s))"

lemma unescape1_shorter: "unescape1 u s = Some (w, q) \<Longrightarrow> length q \<le> length s"
  by (auto simp: unescape1_def split: if_splits list.splits)

text \<open>The characters up to the closing quote.\<close>

function unescape :: "jstr \<Rightarrow> (jstr \<times> jstr) option" where
  "unescape [] = None"
| "unescape (u # s) =
     (if u = 0x22 then Some ([], s)
      else (case unescape1 u s of None \<Rightarrow> None
        | Some (w, q) \<Rightarrow> map_option (\<lambda>(t, r). (w # t, r)) (unescape q)))"
  by pat_completeness auto

termination
  by (relation "measure length") (auto dest: unescape1_shorter)

text \<open>A numeral: the digits after an optional minus sign, without a leading zero.\<close>

definition frac_char :: "code_unit \<Rightarrow> bool" where
  "frac_char u \<longleftrightarrow> is_digit u \<or> u \<in> set [0x2B, 0x2D, 0x2E, 0x45, 0x65]"

text \<open>\<open>.d+\<close>, then \<open>(e|E)[+-]?d+\<close>, either part optional.\<close>

definition exponent_ok :: "jstr \<Rightarrow> bool" where
  "exponent_ok t = (case t of [] \<Rightarrow> True
     | e # r \<Rightarrow> e \<in> set [0x45, 0x65] \<and>
         (let ds = (case r of [] \<Rightarrow> [] | g # q \<Rightarrow> if g \<in> set [0x2B, 0x2D] then q else r)
          in ds \<noteq> [] \<and> list_all is_digit ds))"

definition frac_ok :: "jstr \<Rightarrow> bool" where
  "frac_ok t = (case t of [] \<Rightarrow> True
     | p # r \<Rightarrow> if p = 0x2E
         then takeWhile is_digit r \<noteq> [] \<and> exponent_ok (dropWhile is_digit r) else exponent_ok t)"

definition parse_number :: "bool \<Rightarrow> jstr \<Rightarrow> (json \<times> jstr) option" where
  "parse_number neg s =
     (let ds = takeWhile is_digit s; r = dropWhile is_digit s; t = takeWhile frac_char r in
      if ds = [] \<or> (hd ds = 0x30 \<and> length ds > 1) \<or> \<not> frac_ok t then None
      else if t = [] then Some (JNum ((if neg then - 1 else 1) * int (number_of ds)), r)
      else Some (JFrac ((if neg then [0x2D] else []) @ ds @ t), dropWhile frac_char r))"

definition keyword :: "string \<Rightarrow> json \<Rightarrow> jstr \<Rightarrow> (json \<times> jstr) option" where
  "keyword w v s = (if take (length w) s = lit w then Some (v, drop (length w) s) else None)"

text \<open>\<open>JSON.parse\<close>: values, the items of an array and the members of an object.\<close>

fun parse_value :: "nat \<Rightarrow> jstr \<Rightarrow> (json \<times> jstr) option"
  and parse_items :: "nat \<Rightarrow> jstr \<Rightarrow> (json list \<times> jstr) option"
  and parse_members :: "nat \<Rightarrow> jstr \<Rightarrow> ((jstr \<times> json) list \<times> jstr) option"
where
  "parse_value 0 s = None"
| "parse_value (Suc n) s =
     (case skip s of [] \<Rightarrow> None
      | u # r \<Rightarrow>
        if u = 0x22 then map_option (\<lambda>(t, q). (JStr t, q)) (unescape r)
        else if u = 0x5B then
          (case skip r of x # q \<Rightarrow> if x = 0x5D then Some (JArr [], q)
             else map_option (\<lambda>(vs, q). (JArr vs, q)) (parse_items n r) | [] \<Rightarrow> None)
        else if u = 0x7B then
          (case skip r of x # q \<Rightarrow> if x = 0x7D then Some (JObj [], q)
             else map_option (\<lambda>(fs, q). (JObj fs, q)) (parse_members n r) | [] \<Rightarrow> None)
        else if u = 0x6E then keyword ''null'' JNull (u # r)
        else if u = 0x74 then keyword ''true'' (JBool True) (u # r)
        else if u = 0x66 then keyword ''false'' (JBool False) (u # r)
        else if u = 0x2D then parse_number True r
        else parse_number False (u # r))"
| "parse_items 0 s = None"
| "parse_items (Suc n) s =
     (case parse_value n s of None \<Rightarrow> None
      | Some (v, r) \<Rightarrow>
        (case skip r of [] \<Rightarrow> None
         | u # q \<Rightarrow> if u = 0x5D then Some ([v], q)
             else if u = 0x2C then map_option (\<lambda>(vs, q'). (v # vs, q')) (parse_items n q)
             else None))"
| "parse_members 0 s = None"
| "parse_members (Suc n) s =
     (case skip s of [] \<Rightarrow> None
      | u # r \<Rightarrow> if u \<noteq> 0x22 then None
        else (case unescape r of None \<Rightarrow> None
          | Some (k, r1) \<Rightarrow>
            (case skip r1 of [] \<Rightarrow> None
             | c # r2 \<Rightarrow> if c \<noteq> 0x3A then None
               else (case parse_value n r2 of None \<Rightarrow> None
                 | Some (v, r3) \<Rightarrow>
                   (case skip r3 of [] \<Rightarrow> None
                    | x # q \<Rightarrow> if x = 0x7D then Some ([(k, v)], q)
                      else if x = 0x2C then map_option (\<lambda>(fs, q'). ((k, v) # fs, q')) (parse_members n q)
                      else None)))))"

text \<open>The whole text must be one value.\<close>

definition parse_json :: "jstr \<Rightarrow> json option" where
  "parse_json s = (case parse_value (2 * length s + 2) s of None \<Rightarrow> None
     | Some (v, r) \<Rightarrow> if skip r = [] then Some v else None)"

section \<open>Enough fuel\<close>

text \<open>Every parser returns a strictly shorter rest.\<close>

lemma skip_le: "length (skip s) \<le> length s"
  by (simp add: skip_def length_dropWhile_le)

lemma skip_shorter: "skip s = u # r \<Longrightarrow> length r < length s"
  using skip_le [of s] by simp

lemma unescape_shorter: "unescape s = Some (t, q) \<Longrightarrow> length q < length s"
  by (induction s arbitrary: t q rule: unescape.induct)
     (fastforce split: if_splits option.splits dest!: unescape1_shorter)+

lemma keyword_shorter: "keyword (c # w) v s = Some (x, q) \<Longrightarrow> length q < length s"
  by (cases s) (auto simp: keyword_def lit_def split: if_splits)

lemma parse_number_shorter:
  assumes "parse_number neg s = Some (v, q)"
  shows "length q < length s"
proof -
  have "length s = length (takeWhile is_digit s) + length (dropWhile is_digit s)"
    by (metis length_append takeWhile_dropWhile_id)
  moreover have "takeWhile is_digit s \<noteq> []" and "length q \<le> length (dropWhile is_digit s)"
    using assms by (auto simp: parse_number_def Let_def length_dropWhile_le split: if_splits)
  ultimately show ?thesis
    using length_greater_0_conv [of "takeWhile is_digit s"] by linarith
qed

lemma parse_shorter:
  shows "(\<forall>s v q. parse_value n s = Some (v, q) \<longrightarrow> length q < length s)
    \<and> (\<forall>s vs q. parse_items n s = Some (vs, q) \<longrightarrow> length q < length s)
    \<and> (\<forall>s fs q. parse_members n s = Some (fs, q) \<longrightarrow> length q < length s)"
proof (induction n)
  case (Suc n)
  then have rest: "parse_value n s = Some (v, q) \<Longrightarrow> length q < length s"
    "parse_items n s = Some (vs, q) \<Longrightarrow> length q < length s"
    "parse_members n s = Some (fs, q) \<Longrightarrow> length q < length s" for s v vs fs q
    by blast+
  note shorter = rest skip_shorter unescape_shorter keyword_shorter parse_number_shorter
  have "length q < length s" if "parse_value (Suc n) s = Some (v, q)" for s v q
    using that by (auto split: if_splits list.splits option.splits dest!: shorter)
  moreover have "length q < length s" if "parse_items (Suc n) s = Some (vs, q)" for s vs q
    using that by (auto split: if_splits list.splits option.splits dest!: shorter)
  moreover have "length q < length s" if "parse_members (Suc n) s = Some (fs, q)" for s fs q
    using that by (auto split: if_splits list.splits option.splits dest!: shorter)
  ultimately show ?case by blast
qed simp

text \<open>With fuel for the text, one more unit makes no difference.\<close>

lemma parse_fuel:
  shows "(2 * length s + 1 \<le> n \<longrightarrow> parse_value (Suc n) s = parse_value n s)
    \<and> (2 * length s + 2 \<le> n \<longrightarrow> parse_items (Suc n) s = parse_items n s)
    \<and> (2 * length s + 1 \<le> n \<longrightarrow> parse_members (Suc n) s = parse_members n s)"
proof (induction n arbitrary: s)
  case (Suc n)
  have sub: "length r < length s \<Longrightarrow> 2 * length s \<le> n \<Longrightarrow>
      parse_value (Suc n) r = parse_value n r \<and> parse_items (Suc n) r = parse_items n r
      \<and> parse_members (Suc n) r = parse_members n r" for r
    using Suc.IH [of r] by auto
  have value_eq: "parse_value (Suc (Suc n)) s = parse_value (Suc n) s" if fuel: "2 * length s \<le> n"
  proof -
    have inner: "parse_items (Suc n) r = parse_items n r" "parse_members (Suc n) r = parse_members n r"
      if "skip s = u # r" for u r
      using sub [of r] skip_shorter [OF that] fuel by simp_all
    show ?thesis
      by (subst (1 2) parse_value.simps(2))
         (simp add: inner del: parse_items.simps parse_members.simps split: list.splits)
  qed
  have items_eq: "parse_items (Suc (Suc n)) s = parse_items (Suc n) s" if fuel: "2 * length s < n"
  proof (cases "parse_value n s")
    case None
    then show ?thesis using Suc.IH [of s] fuel by simp
  next
    case (Some p)
    obtain v r where p: "p = (v, r)" by (cases p)
    then have r: "length r < length s" using Some parse_shorter by blast
    have same: "parse_value (Suc n) s = Some (v, r)"
      using Suc.IH [of s] fuel Some p by simp
    have q: "parse_items (Suc n) q = parse_items n q" if "skip r = u # q" for u q
      using sub [of q] skip_shorter [OF that] r fuel by simp
    show ?thesis
      by (subst (1 2) parse_items.simps(2))
         (simp add: same Some p q del: parse_value.simps parse_items.simps split: list.splits)
  qed
  have members_eq: "parse_members (Suc (Suc n)) s = parse_members (Suc n) s" if fuel: "2 * length s \<le> n"
  proof -
    have v: "parse_value (Suc n) r2 = parse_value n r2"
      if "skip s = u # r" "unescape r = Some (k, r1)" "skip r1 = c # r2" for u r k r1 c r2
      using sub [of r2] skip_shorter [OF that(1)] unescape_shorter [OF that(2)] skip_shorter [OF that(3)] fuel
      by simp
    have m: "parse_members (Suc n) q = parse_members n q"
      if "skip s = u # r" "unescape r = Some (k, r1)" "skip r1 = c # r2" "parse_value n r2 = Some (x, r3)"
        "skip r3 = y # q" for u r k r1 c r2 x r3 y q
    proof -
      have "length r3 < length r2" using that(4) parse_shorter by blast
      then show ?thesis
        using sub [of q] skip_shorter [OF that(1)] unescape_shorter [OF that(2)] skip_shorter [OF that(3)]
          skip_shorter [OF that(5)] fuel by simp
    qed
    show ?thesis
      by (subst (1 2) parse_members.simps(2))
         (simp add: v m del: parse_value.simps parse_members.simps split: list.splits option.splits)
  qed
  show ?case using value_eq items_eq members_eq by simp
qed simp

lemma parse_value_enough:
  "2 * length s + 2 \<le> n \<Longrightarrow> parse_value n s = parse_value (2 * length s + 2) s"
proof (induction n rule: nat_induct_at_least)
  case (Suc n)
  then show ?case using parse_fuel [of s n] by simp
qed simp

section \<open>Round trip\<close>

subsection \<open>Numerals\<close>

lemma unat_unit: "n < 65536 \<Longrightarrow> unat (word_of_nat n :: code_unit) = n"
  by (simp add: unsigned_of_nat take_bit_nat_eq_self)

lemma unat_digit [simp]: "d < 10 \<Longrightarrow> unat (digit d) = 48 + d"
  by (simp only: digit_def unat_unit)

lemma is_digit_unat: "is_digit u \<longleftrightarrow> 48 \<le> unat u \<and> unat u \<le> 57"
  by (simp add: is_digit_def word_le_nat_alt)

lemma is_digit_digit [simp]: "d < 10 \<Longrightarrow> is_digit (digit d)"
  by (simp add: is_digit_unat)

lemma decimal_digits: "list_all is_digit (decimal n)"
  by (induction n rule: decimal.induct) (subst decimal.simps, simp)

lemma decimal_nonempty: "decimal n \<noteq> []"
  by (subst decimal.simps) simp

lemma number_of_snoc: "number_of (ds @ [u]) = 10 * number_of ds + digit_value u"
  by (simp add: number_of_def)

lemma number_of_decimal [simp]: "number_of (decimal n) = n"
proof (induction n rule: decimal.induct)
  case (1 n)
  show ?case
  proof (cases "n < 10")
    case True
    then show ?thesis by (simp add: decimal.simps [of n] number_of_def digit_value_def)
  next
    case False
    then show ?thesis using 1
      by (simp add: decimal.simps [of n] number_of_snoc digit_value_def)
  qed
qed

lemma decimal_leading:
  "0 < n \<Longrightarrow> hd (decimal n) \<noteq> 0x30"
proof (induction n rule: decimal.induct)
  case (1 n)
  show ?case
  proof (cases "n < 10")
    case True
    then have "unat (hd (decimal n)) = 48 + n" by (simp add: decimal.simps [of n])
    then show ?thesis using \<open>0 < n\<close> by auto
  next
    case False
    then have "0 < n div 10" by (simp add: div_greater_zero_iff)
    then show ?thesis using 1 False by (simp add: decimal.simps [of n] decimal_nonempty)
  qed
qed

lemma decimal_zero: "decimal 0 = [0x30]"
  by (simp add: decimal.simps digit_def)

text \<open>A text that does not continue a numeral.\<close>

definition stops :: "jstr \<Rightarrow> bool" where
  "stops r \<longleftrightarrow> (case r of [] \<Rightarrow> True | u # _ \<Rightarrow> \<not> frac_char u)"

lemma takeWhile_digits:
  assumes "stops r"
  shows "takeWhile is_digit (decimal n @ r) = decimal n \<and> dropWhile is_digit (decimal n @ r) = r"
  using assms decimal_digits [of n]
  by (cases r) (auto simp: stops_def frac_char_def list_all_iff takeWhile_append dropWhile_append)

lemma takeWhile_stops: "stops r \<Longrightarrow> takeWhile frac_char r = []"
  by (cases r) (auto simp: stops_def)

lemma parse_number_decimal:
  assumes "stops r"
  shows "parse_number neg (decimal n @ r) = Some (JNum ((if neg then - 1 else 1) * int n), r)"
proof -
  have "\<not> (hd (decimal n) = 0x30 \<and> length (decimal n) > 1)"
    by (cases "n = 0") (use decimal_leading [of n] in \<open>auto simp: decimal_zero\<close>)
  then show ?thesis
    by (simp add: parse_number_def Let_def takeWhile_digits [OF assms] takeWhile_stops [OF assms]
        decimal_nonempty frac_ok_def)
qed

subsection \<open>Strings\<close>

lemma hex_value_hex_digit: "d < 16 \<Longrightarrow> hex_value (hex_digit d) = Some d"
proof -
  have "list_all (\<lambda>d. hex_value (hex_digit d) = Some d) [0..<16]" by code_simp
  then show "d < 16 \<Longrightarrow> hex_value (hex_digit d) = Some d" by (simp add: list_all_iff)
qed

lemma hex_sum:
  fixes n :: nat
  shows "4096 * (n div 4096) + 256 * (n div 256 mod 16) + 16 * (n div 16 mod 16) + n mod 16 = n"
proof -
  have "n div 16 div 16 = n div 256" and "n div 256 div 16 = n div 4096"
    by (simp_all add: div_mult2_eq [symmetric])
  then show ?thesis
    using div_mult_mod_eq [of n 16] div_mult_mod_eq [of "n div 16" 16] div_mult_mod_eq [of "n div 256" 16]
    by linarith
qed

lemma hex_unit_hex4:
  assumes "hex4 u = [a, b, c, d]"
  shows "hex_unit a b c d = Some u"
proof -
  let ?n = "unat u"
  have "?n < 2 ^ LENGTH(16)" by (rule unsigned_less)
  then have "?n div 4096 < 16" by (simp add: less_mult_imp_div_less)
  moreover have "?n div 256 mod 16 < 16" "?n div 16 mod 16 < 16" "?n mod 16 < 16" by simp_all
  ultimately have "hex_value a = Some (?n div 4096)" "hex_value b = Some (?n div 256 mod 16)"
    "hex_value c = Some (?n div 16 mod 16)" "hex_value d = Some (?n mod 16)"
    using assms by (auto simp only: hex4_def Let_def list.inject hex_value_hex_digit)
  then show ?thesis
    by (simp only: hex_unit_def hex_sum prod.case option.case of_nat_unat ucast_id)
qed

lemma unescape_escape1:
  "unescape (escape1 u @ s) = map_option (\<lambda>(t, q). (u # t, q)) (unescape s)"
proof -
  obtain a b c d where hex: "hex4 u = [a, b, c, d]" by (simp add: hex4_def Let_def)
  show ?thesis
    by (auto simp: escape1_def hex hex_unit_hex4 [OF hex] short_escape_def unescape1_def)
qed

lemma surrogate_plain:
  "high_surrogate u \<or> low_surrogate u \<Longrightarrow> u \<noteq> 0x22 \<and> u \<noteq> 0x5C \<and> \<not> u < 0x20"
  by (auto simp: high_surrogate_def low_surrogate_def word_le_nat_alt word_less_nat_alt)

lemma unescape_escape [simp]: "unescape (escape s @ 0x22 # r) = Some (s, r)"
proof (induction s rule: escape.induct)
  case 1
  then show ?case by simp
next
  case (2 u)
  then show ?case by (simp add: unescape_escape1)
next
  case (3 u v s)
  then show ?case
    using surrogate_plain [of u] surrogate_plain [of v] by (auto simp: unescape_escape1 unescape1_def)
qed

subsection \<open>Values\<close>

fun plain :: "json \<Rightarrow> bool" where
  "plain (JFrac t) = False"
| "plain (JArr vs) = list_all plain vs"
| "plain (JObj fs) = list_all (\<lambda>(k, v). plain v) fs"
| "plain _ = True"

lemma skip_id: "\<not> json_space u \<Longrightarrow> skip (u # s) = u # s"
  by (simp add: skip_def)

lemma digit_not_space: "is_digit u \<Longrightarrow> \<not> json_space u \<and> u \<notin> set [0x22, 0x5B, 0x5D, 0x7B, 0x7D, 0x6E, 0x74, 0x66, 0x2D]"
  by (auto simp: is_digit_def json_space_def)

lemma decimal_head: obtains u t where "decimal n = u # t" and "is_digit u"
  using decimal_digits [of n] decimal_nonempty [of n] by (cases "decimal n") auto

lemma stringify_head:
  assumes "plain v"
  obtains u t where "stringify v = u # t" and "\<not> json_space u" and "u \<noteq> 0x5D" and "u \<noteq> 0x7D"
proof -
  have "\<exists>u t. stringify v = u # t \<and> \<not> json_space u \<and> u \<noteq> 0x5D \<and> u \<noteq> 0x7D"
  proof (cases v)
    case (JNum n)
    obtain u t where "decimal (nat n) = u # t" and "is_digit u" by (rule decimal_head)
    then show ?thesis using JNum digit_not_space [of u] by (auto simp: json_space_def)
  qed (use assms in \<open>auto simp: json_space_def quote_def lit_def of_char_def\<close>)
  then show thesis using that by blast
qed

lemma stops_sep: "stops (0x2C # r)" "stops (0x5D # r)" "stops (0x7D # r)" "stops []"
  by (simp_all add: stops_def frac_char_def is_digit_def)

lemma keyword_lit: "w' = lit w \<Longrightarrow> keyword w v (w' @ r) = Some (v, r)"
  by (simp add: keyword_def)

text \<open>The contract of one value: with fuel for its text, the parser reads it back and stops
  where it ends.\<close>

definition reads_back :: "json \<Rightarrow> bool" where
  "reads_back v \<longleftrightarrow> (\<forall>n r. 2 * length (stringify v) + 1 \<le> n \<longrightarrow> stops r \<longrightarrow>
     parse_value n (stringify v @ r) = Some (v, r))"

lemma reads_backI:
  assumes "\<And>n r. 2 * length (stringify v) \<le> n \<Longrightarrow> stops r \<Longrightarrow>
      parse_value (Suc n) (stringify v @ r) = Some (v, r)"
  shows "reads_back v"
  unfolding reads_back_def
proof (intro allI impI)
  fix n r
  assume "2 * length (stringify v) + 1 \<le> n" and "stops r"
  then show "parse_value n (stringify v @ r) = Some (v, r)"
    using assms by (cases n) auto
qed

lemma reads_backD:
  "reads_back v \<Longrightarrow> 2 * length (stringify v) + 1 \<le> n \<Longrightarrow> stops r \<Longrightarrow>
   parse_value n (stringify v @ r) = Some (v, r)"
  by (simp add: reads_back_def)

lemma sep_Cons: "sep (t # ts) = (if ts = [] then t else t @ 0x2C # sep ts)"
  by (cases ts) simp_all

lemma sep_head: "\<exists>y. sep ((u # x) # ts) = u # y"
  by (simp add: sep_Cons)

lemma parse_items_back:
  assumes "vs \<noteq> []" and "\<forall>v \<in> set vs. reads_back v"
    and "2 * length (sep (map stringify vs)) + 2 \<le> n"
  shows "parse_items n (sep (map stringify vs) @ 0x5D # r) = Some (vs, r)"
  using assms
proof (induction vs arbitrary: n)
  case (Cons v vs)
  then obtain m where n: "n = Suc m" by (cases n) auto
  note vback = reads_backD [of v m]
  show ?case
  proof (cases "vs = []")
    case True
    then show ?thesis
      using Cons.prems by (simp add: n vback stops_sep skip_id json_space_def)
  next
    case False
    then have "parse_items m (sep (map stringify vs) @ 0x5D # r) = Some (vs, r)"
      using Cons by (simp add: n sep_Cons)
    then show ?thesis
      using Cons.prems False by (simp add: n sep_Cons vback stops_sep skip_id json_space_def)
  qed
qed simp

lemma parse_members_back:
  assumes "fs \<noteq> []" and "\<forall>(k, v) \<in> set fs. reads_back v"
    and "2 * length (sep (map (\<lambda>(k, v). quote k @ 0x3A # stringify v) fs)) + 2 \<le> n"
  shows "parse_members n (sep (map (\<lambda>(k, v). quote k @ 0x3A # stringify v) fs) @ 0x7D # r) = Some (fs, r)"
  using assms
proof (induction fs arbitrary: n)
  case (Cons f fs)
  obtain k v where f: "f = (k, v)" by (cases f)
  obtain m where n: "n = Suc m" using Cons.prems by (cases n) auto
  note vback = reads_backD [of v m]
  note space = stops_sep skip_id json_space_def quote_def
  show ?case
  proof (cases "fs = []")
    case True
    then show ?thesis
      using Cons.prems by (simp add: n f vback space)
  next
    case False
    then have "parse_members m (sep (map (\<lambda>(k, v). quote k @ 0x3A # stringify v) fs) @ 0x7D # r) = Some (fs, r)"
      using Cons by (simp add: n f sep_Cons)
    then show ?thesis
      using Cons.prems False by (simp add: n f sep_Cons vback space)
  qed
qed simp

lemma plain_reads_back: "plain v \<Longrightarrow> reads_back v"
proof (induction v)
  case JNull
  show ?case by (rule reads_backI) (simp add: skip_id json_space_def lit_def of_char_def keyword_def)
next
  case (JBool b)
  show ?case by (rule reads_backI) (simp add: skip_id json_space_def lit_def of_char_def keyword_def)
next
  case (JNum n)
  show ?case
  proof (rule reads_backI)
    fix m r
    assume "stops r"
    note number = parse_number_decimal [OF this]
    obtain u t where dec: "decimal (nat n) = u # t" and "is_digit u" by (rule decimal_head)
    then show "parse_value (Suc m) (stringify (JNum n) @ r) = Some (JNum n, r)"
      using digit_not_space [of u] number [of True "nat (- n)"] number [of False "nat n"]
      by (auto simp: skip_id json_space_def)
  qed
next
  case (JStr s)
  show ?case by (rule reads_backI) (simp add: quote_def skip_id json_space_def)
next
  case (JArr vs)
  show ?case
  proof (rule reads_backI)
    fix n r
    assume fuel: "2 * length (stringify (JArr vs)) \<le> n"
    show "parse_value (Suc n) (stringify (JArr vs) @ r) = Some (JArr vs, r)"
    proof (cases vs)
      case Nil
      then show ?thesis by (simp add: skip_id json_space_def)
    next
      case (Cons v vs')
      then have "plain v" using JArr.prems by simp
      then obtain u t where head: "stringify v = u # t" "\<not> json_space u" "u \<noteq> 0x5D" by (rule stringify_head)
      then obtain t' where "sep (map stringify vs) = u # t'" using Cons using sep_head [where u = u and x = t] by auto
      moreover have "parse_items n (sep (map stringify vs) @ 0x5D # r) = Some (vs, r)"
        using JArr fuel Cons by (intro parse_items_back) (auto simp: list_all_iff)
      ultimately show ?thesis using head by (simp add: skip_id json_space_def)
    qed
  qed
next
  case (JObj fs)
  show ?case
  proof (rule reads_backI)
    fix n r
    assume fuel: "2 * length (stringify (JObj fs)) \<le> n"
    have members: "\<forall>(k, v) \<in> set fs. reads_back v"
      using JObj by (fastforce simp: list_all_iff)
    show "parse_value (Suc n) (stringify (JObj fs) @ r) = Some (JObj fs, r)"
    proof (cases fs)
      case Nil
      then show ?thesis by (simp add: skip_id json_space_def)
    next
      case (Cons f fs')
      obtain k v where "f = (k, v)" by (cases f)
      with Cons obtain t where "sep (map (\<lambda>(k, v). quote k @ 0x3A # stringify v) fs) = 0x22 # t"
        using sep_head [where u = "0x22 :: code_unit" and x = "escape k @ 0x22 # 0x3A # stringify v"]
        by (auto simp: quote_def)
      moreover have "parse_members n (sep (map (\<lambda>(k, v). quote k @ 0x3A # stringify v) fs) @ 0x7D # r) = Some (fs, r)"
        using members fuel Cons by (intro parse_members_back) auto
      ultimately show ?thesis by (simp add: skip_id json_space_def)
    qed
  qed
qed simp

lemma parse_stringify: "plain v \<Longrightarrow> parse_json (stringify v) = Some v"
  using reads_backD [OF plain_reads_back, of v "2 * length (stringify v) + 2" "[]"]
  by (simp add: parse_json_def stops_sep skip_def)

end
