(* ===== verification/Signaling_Protocol.thy ===== *)
theory Signaling_Protocol
  imports Json_Text
begin

text \<open>
  The envelope in which the lab (\<open>lib/signaling/protocol.ts\<close>) and discovery (\<open>send\<close> and
  \<open>parse\<close> at the end of \<open>components/discovery/discovery.tsx\<close>) wrap every signal. Both sides
  check the version, the type and the payload of what they receive and nothing else: the
  match id is whatever JSON value the text holds.
\<close>

datatype event_type = RoomJoin | ConnectionReady | MatchFound | WebrtcOffer | WebrtcAnswer
  | WebrtcIce | PresenceHeartbeat | MatchLeave | MatchEnded | ErrorEvent

definition event_name :: "event_type \<Rightarrow> jstr" where
  "event_name t = (case t of RoomJoin \<Rightarrow> lit ''room.join'' | ConnectionReady \<Rightarrow> lit ''connection.ready''
     | MatchFound \<Rightarrow> lit ''match.found'' | WebrtcOffer \<Rightarrow> lit ''webrtc.offer''
     | WebrtcAnswer \<Rightarrow> lit ''webrtc.answer'' | WebrtcIce \<Rightarrow> lit ''webrtc.ice''
     | PresenceHeartbeat \<Rightarrow> lit ''presence.heartbeat'' | MatchLeave \<Rightarrow> lit ''match.leave''
     | MatchEnded \<Rightarrow> lit ''match.ended'' | ErrorEvent \<Rightarrow> lit ''error'')"

lemma event_name_inject [simp]: "event_name t = event_name u \<longleftrightarrow> t = u"
  by (cases t; cases u) (simp_all add: event_name_def)

record envelope =
  env_type :: jstr
  env_request :: "json option"
  env_match :: "json option"
  env_payload :: json

definition message :: "event_type \<Rightarrow> json \<Rightarrow> jstr option \<Rightarrow> jstr \<Rightarrow> envelope" where
  "message t payload matchId uuid = \<lparr>env_type = event_name t, env_request = Some (JStr uuid),
     env_match = map_option JStr matchId, env_payload = payload\<rparr>"

text \<open>The object that \<open>JSON.stringify\<close> writes: a member that is \<open>undefined\<close> is left out.\<close>

definition optional :: "string \<Rightarrow> json option \<Rightarrow> (jstr \<times> json) list" where
  "optional k v = (case v of None \<Rightarrow> [] | Some j \<Rightarrow> [(lit k, j)])"

definition envelope_json :: "envelope \<Rightarrow> json" where
  "envelope_json e = JObj ([(lit ''version'', JNum 1), (lit ''type'', JStr (env_type e))]
     @ optional ''requestId'' (env_request e) @ optional ''matchId'' (env_match e)
     @ [(lit ''payload'', env_payload e)])"

text \<open>The check of \<open>parse\<close>, and its cast to \<open>Envelope\<close>.\<close>

definition check_envelope :: "json \<Rightarrow> envelope option" where
  "check_envelope v = (case (member (lit ''version'') v, member (lit ''type'') v, member (lit ''payload'') v) of
       (Some n, Some (JStr t), Some p) \<Rightarrow> if n = JNum 1
          then Some \<lparr>env_type = t, env_request = member (lit ''requestId'') v,
            env_match = member (lit ''matchId'') v, env_payload = p\<rparr>
          else None
     | _ \<Rightarrow> None)"

definition parse_envelope :: "jstr \<Rightarrow> envelope option" where
  "parse_envelope data = Option.bind (parse_json data) check_envelope"

text \<open>Discovery's own pair. A missing member and a \<open>null\<close> one are both falsy to it.\<close>

definition discovery_text :: "jstr \<Rightarrow> json \<Rightarrow> jstr option \<Rightarrow> jstr \<Rightarrow> jstr" where
  "discovery_text t payload matchId uuid = stringify (envelope_json \<lparr>env_type = t,
     env_request = Some (JStr uuid), env_match = map_option JStr matchId, env_payload = payload\<rparr>)"

definition discovery_parse :: "jstr \<Rightarrow> envelope option" where
  "discovery_parse data = (case parse_json data of None \<Rightarrow> None
     | Some v \<Rightarrow>
       if member (lit ''version'') v \<noteq> Some (JNum 1) then None
       else (case member (lit ''type'') v of
          Some (JStr t) \<Rightarrow>
            (case member (lit ''payload'') v of
               Some p \<Rightarrow> if truthy (Some p)
                 then Some \<lparr>env_type = t, env_request = member (lit ''requestId'') v,
                   env_match = member (lit ''matchId'') v, env_payload = p\<rparr>
                 else None
             | None \<Rightarrow> None)
        | _ \<Rightarrow> None))"

text \<open>\<open>readyState\<close> of a socket and of a data channel, as far as the source looks at it.\<close>

datatype socket_state = SocketConnecting | SocketOpen | SocketClosed

datatype channel_state = ChannelConnecting | ChannelOpen | ChannelClosed

section \<open>What is sent is what is received\<close>

lemma check_envelope_json: "check_envelope (envelope_json e) = Some e"
  by (cases "env_request e"; cases "env_match e")
     (simp_all add: check_envelope_def envelope_json_def optional_def member_def)

definition plain_envelope :: "envelope \<Rightarrow> bool" where
  "plain_envelope e \<longleftrightarrow> list_all plain (env_payload e # case_option [] (\<lambda>v. [v]) (env_request e)
     @ case_option [] (\<lambda>v. [v]) (env_match e))"

lemma plain_envelope_json: "plain_envelope e \<Longrightarrow> plain (envelope_json e)"
  by (auto simp: plain_envelope_def envelope_json_def optional_def split: option.splits)

lemma parse_envelope_json: "plain_envelope e \<Longrightarrow> parse_envelope (stringify (envelope_json e)) = Some e"
  by (simp add: parse_envelope_def parse_stringify [OF plain_envelope_json] check_envelope_json)



section \<open>The two checks agree\<close>

lemma check_envelope_cases:
  "check_envelope v = Some e \<longleftrightarrow> member (lit ''version'') v = Some (JNum 1)
     \<and> member (lit ''type'') v = Some (JStr (env_type e)) \<and> member (lit ''payload'') v = Some (env_payload e)
     \<and> env_request e = member (lit ''requestId'') v \<and> env_match e = member (lit ''matchId'') v"
  by (cases e) (auto simp: check_envelope_def split: option.splits json.splits if_splits)

text \<open>Discovery accepts exactly the texts the lab's protocol accepts whose payload is not
  \<open>null\<close>, \<open>false\<close>, 0 or the empty string, and reads the same envelope from them.\<close>

theorem discovery_parse_agrees:
  "discovery_parse data = Some e \<longleftrightarrow> parse_envelope data = Some e \<and> truthy (Some (env_payload e))"
proof (cases "parse_json data")
  case None
  then show ?thesis by (simp add: discovery_parse_def parse_envelope_def)
next
  case (Some v)
  show ?thesis
    by (cases e) (auto simp: Some discovery_parse_def parse_envelope_def check_envelope_cases
        split: option.splits json.splits if_splits)
qed

end
