(* ===== verification/Lab_Media.thy ===== *)
theory Lab_Media
  imports Media_Devices
begin

text \<open>
  \<open>lib/webrtc/media.ts\<close>: where the networking lab gets its stream from, the camera and
  microphone or a drawn test pattern with a silent sound source. Besides the tracks, the
  pattern holds a drawing timer and an audio context; opening and closing those is logged
  (\<open>media_fx\<close>), so that a leak of either shows in the log.
\<close>

datatype media_source = CameraSource | TestSource

datatype media_fx = StartDrawing | ClearDrawing | OpenAudio | StopOscillator | CloseAudio

text \<open>What the browser decides: whether the user grants the devices, whether the canvas has a
  context, and how far the audio graph gets.\<close>

datatype audio_path = NoAudioContext | AudioGraphThrows | AudioOk

record media_env =
  me_granted :: bool
  me_context :: bool
  me_audio :: audio_path

record lab_capture =
  lc_source :: media_source
  lc_stream :: stream

definition acquire_media :: "media_source \<Rightarrow> media_env \<Rightarrow> devices \<Rightarrow> lab_capture option \<times> devices" where
  "acquire_media src env d =
     (case src of
        CameraSource \<Rightarrow>
          if me_granted env
          then (let (s, d') = both_tracks Audio Video d in (Some \<lparr>lc_source = src, lc_stream = s\<rparr>, d'))
          else (None, d)
      | TestSource \<Rightarrow>
          if \<not> me_context env then (None, d)
          else if me_audio env = AudioOk
          then (let (s, d') = both_tracks Video Audio d in (Some \<lparr>lc_source = src, lc_stream = s\<rparr>, d'))
          else (let (i, d') = open_track Video d in (None, stop_tracks [i] d')))"

definition acquire_fx :: "media_source \<Rightarrow> media_env \<Rightarrow> media_fx list" where
  "acquire_fx src env =
     (case src of CameraSource \<Rightarrow> []
      | TestSource \<Rightarrow>
          if \<not> me_context env then []
          else (case me_audio env of
             AudioOk \<Rightarrow> [StartDrawing, OpenAudio]
           | AudioGraphThrows \<Rightarrow> [StartDrawing, OpenAudio, ClearDrawing, CloseAudio]
           | NoAudioContext \<Rightarrow> [StartDrawing, ClearDrawing]))"

text \<open>The capture's \<open>stop\<close>.\<close>

definition release_fx :: "lab_capture \<Rightarrow> media_fx list" where
  "release_fx c = (case lc_source c of CameraSource \<Rightarrow> []
     | TestSource \<Rightarrow> [ClearDrawing, StopOscillator, CloseAudio])"

definition release_media :: "lab_capture option \<Rightarrow> devices \<Rightarrow> devices" where
  "release_media c d = (case c of None \<Rightarrow> d | Some c \<Rightarrow> stop_tracks (lc_stream c) d)"

definition capture_tracks :: "lab_capture option \<Rightarrow> nat set" where
  "capture_tracks c = (case c of None \<Rightarrow> {} | Some c \<Rightarrow> set (lc_stream c))"

lemma live_release_media [simp]: "live_set (release_media c d) = live_set d - capture_tracks c"
  by (simp add: release_media_def capture_tracks_def split: option.split)

lemma length_release_media [simp]: "length (release_media c d) = length d"
  by (simp add: release_media_def split: option.split)

lemma capture_tracks_simps [simp]: "capture_tracks None = {}" "capture_tracks (Some c) = set (lc_stream c)"
  by (simp_all add: capture_tracks_def)

lemma acquire_media_live:
  assumes "acquire_media src env d = (c, d')"
  shows "live_set d' = live_set d \<union> capture_tracks c \<and> length d \<le> length d'
    \<and> (\<forall>i \<in> capture_tracks c. length d \<le> i)"
  using assms live_set_bound [of "length d" d]
  by (cases src)
     (auto simp: acquire_media_def both_tracks_def open_track_def Let_def live_set_append
       numeral_2_eq_2 less_Suc_eq nth_Cons' split: if_splits)

interpretation lab_media: capture_source "acquire_media src env" release_media capture_tracks
  by unfold_locales (auto dest: acquire_media_live)

text \<open>Timers and audio contexts: what was opened less what was closed.\<close>

definition running :: "media_fx list \<Rightarrow> int \<times> int" where
  "running fs = (int (count_list fs StartDrawing) - int (count_list fs ClearDrawing),
     int (count_list fs OpenAudio) - int (count_list fs CloseAudio))"

lemma running_Nil [simp]: "running [] = (0, 0)"
  by (simp add: running_def)

lemma running_append: "running (fs @ gs) = (fst (running fs) + fst (running gs), snd (running fs) + snd (running gs))"
  by (simp add: running_def)

text \<open>What opening starts, stopping ends; a failed opening leaves nothing running.\<close>

lemma running_acquire_release:
  assumes "acquire_media src env d = (c, d')"
  shows "running (acquire_fx src env @ (case c of None \<Rightarrow> [] | Some c \<Rightarrow> release_fx c)) = (0, 0)"
  using assms
  by (cases src; cases "me_audio env")
     (auto simp: acquire_media_def acquire_fx_def release_fx_def running_def both_tracks_def Let_def
       split: if_splits prod.splits)

end
