(* ===== verification/Lab_Session.thy ===== *)
theory Lab_Session
  imports Signaling_Protocol Lab_Media
begin

text \<open>
  \<open>lib/webrtc/lab-session.ts\<close>: one session of the networking lab. The record \<open>lab\<close> holds the
  fields of the class \<open>LabSession\<close>, the view it updates through its callback, the tracks it
  can reach, the suspended \<open>async\<close> calls and a log of what it asks of the browser.

  The promise chain \<open>pending\<close> of \<open>socket.onmessage\<close> is \<open>la_queue\<close> and \<open>la_handling\<close>; an
  \<open>await\<close> is a constructor of \<open>lab_cont\<close>. Exceptions of the source are the value the
  handlers pass to \<open>lab_fail\<close>; the text of an exception the browser throws is \<open>EngineError\<close>.
\<close>

section \<open>State\<close>

datatype shown_error = NoError | Shown jstr | EngineError

datatype sender = You | Peer

record chat =
  ch_from :: sender
  ch_text :: jstr

datatype lab_phase = Idle | AcquiringMedia | ConnectingSignaling | WaitingForPeer | Negotiating
  | PeerPhase jstr | LabError | LabEnded

record lab_view =
  vw_phase :: lab_phase
  vw_error :: shown_error
  vw_local :: "stream option"
  vw_remote :: "stream option"
  vw_muted :: bool
  vw_cameraEnabled :: bool
  vw_channelReady :: bool
  vw_messages :: "chat list"
  vw_transport :: jstr
  vw_receivedBytes :: nat

definition initial_view :: lab_view where
  "initial_view = \<lparr>vw_phase = Idle, vw_error = NoError, vw_local = None, vw_remote = None,
     vw_muted = False, vw_cameraEnabled = True, vw_channelReady = False, vw_messages = [],
     vw_transport = lit ''Not connected'', vw_receivedBytes = 0\<rparr>"

record lab_peer =
  lp_remote :: bool   \<comment> \<open>\<open>remoteDescription\<close> is set\<close>

datatype lab_fx = Sent event_type json | OpenSocket | CloseSocket
  | NewLabPeer "json option" bool | CloseLabPeer | AddCaptureTracks stream
  | CreateChannel | CloseChannel | SendChat jstr
  | LabSetLocal jstr | LabSetRemote json | LabAddIce json
  | MediaFx media_fx

datatype frame = TextFrame jstr | BinaryFrame

datatype lab_cont = KAcquire
  | KLabOffer | KLabOfferLocal jstr
  | KLabRemote bool | KLabRemoteIce bool "json list" | KLabAnswer | KLabAnswerLocal jstr
  | KLabIce | KLabStats

record lab =
  la_stopped :: bool
  la_capture :: "lab_capture option"
  la_socket :: "socket_state option"
  la_peer :: "lab_peer option"
  la_channels :: "channel_state list"  \<comment> \<open>channels bound so far; \<open>this.channel\<close> is the last\<close>
  la_remote :: stream
  la_pendingICE :: "json list"
  la_heartbeat :: bool
  la_stats :: bool
  la_room :: jstr
  la_messages :: "chat list"
  la_source :: media_source
  la_relay :: bool
  la_url_ok :: bool   \<comment> \<open>\<open>new URL\<close> and \<open>new WebSocket\<close> accept the API address\<close>
  la_ice_ok :: bool   \<comment> \<open>\<open>new RTCPeerConnection\<close> accepts the configuration\<close>
  la_view :: lab_view
  la_devices :: devices
  la_tasks :: "lab_cont pool"
  la_next :: nat
  la_queue :: "frame list"
  la_handling :: bool
  la_received :: "json list"  \<comment> \<open>history: candidates taken from \<open>webrtc.ice\<close> signals\<close>
  la_log :: "lab_fx list"

definition lab_fx :: "lab_fx \<Rightarrow> lab \<Rightarrow> lab" where
  "lab_fx f s = s\<lparr>la_log := la_log s @ [f]\<rparr>"

definition lab_await :: "lab_cont \<Rightarrow> lab \<Rightarrow> lab" where
  "lab_await k s = s\<lparr>la_tasks := la_tasks s @ [(la_next s, k)], la_next := Suc (la_next s)\<rparr>"

definition update_view :: "(lab_view \<Rightarrow> lab_view) \<Rightarrow> lab \<Rightarrow> lab" where
  "update_view f s = s\<lparr>la_view := f (la_view s)\<rparr>"

definition lab_handled :: "lab \<Rightarrow> lab" where
  "lab_handled s = s\<lparr>la_handling := False\<rparr>"

section \<open>Sending and closing\<close>

definition lab_send :: "event_type \<Rightarrow> json \<Rightarrow> lab \<Rightarrow> lab" where
  "lab_send t payload s = (if \<not> la_stopped s \<and> la_socket s = Some SocketOpen
     then lab_fx (Sent t payload) s else s)"

text \<open>The frame a logged \<open>Sent\<close> puts on the wire.\<close>

definition wire :: "jstr \<Rightarrow> event_type \<Rightarrow> json \<Rightarrow> jstr \<Rightarrow> jstr" where
  "wire room t payload uuid = stringify (envelope_json (message t payload (Some room) uuid))"

definition close_socket :: "lab \<Rightarrow> lab" where
  "close_socket s = (case la_socket s of None \<Rightarrow> s
     | Some _ \<Rightarrow> (lab_fx CloseSocket s)\<lparr>la_socket := Some SocketClosed\<rparr>)"

definition close_channel :: "lab \<Rightarrow> lab" where
  "close_channel s = (if la_channels s = [] then s else (lab_fx CloseChannel s)\<lparr>la_channels :=
     butlast (la_channels s) @ [ChannelClosed]\<rparr>)"

text \<open>Closing the peer connection closes every channel of it.\<close>

definition close_peer :: "lab \<Rightarrow> lab" where
  "close_peer s = (case la_peer s of None \<Rightarrow> s
     | Some _ \<Rightarrow> (lab_fx CloseLabPeer s)\<lparr>la_channels := map (\<lambda>_. ChannelClosed) (la_channels s)\<rparr>)"

definition stop_lab_capture :: "lab \<Rightarrow> lab" where
  "stop_lab_capture s = (case la_capture s of None \<Rightarrow> s
     | Some c \<Rightarrow> s\<lparr>la_devices := release_media (Some c) (la_devices s),
         la_log := la_log s @ map MediaFx (release_fx c)\<rparr>)"

definition lab_close :: "lab \<Rightarrow> lab" where
  "lab_close s = (if la_stopped s then s else
     (let s = lab_send MatchLeave (JObj []) s;
          s = s\<lparr>la_stopped := True, la_heartbeat := False, la_stats := False\<rparr>;
          s = stop_lab_capture (close_peer (close_channel (close_socket s)));
          s = s\<lparr>la_devices := stop_tracks (la_remote s) (la_devices s), la_pendingICE := [], la_messages := []\<rparr>
      in update_view (\<lambda>_. initial_view\<lparr>vw_phase := LabEnded\<rparr>) s))"

definition lab_fail :: "shown_error \<Rightarrow> lab \<Rightarrow> lab" where
  "lab_fail e s = (if la_stopped s then s
     else update_view (\<lambda>v. v\<lparr>vw_phase := LabError, vw_error := e\<rparr>) (lab_close s))"

text \<open>The end of a queued handler that threw.\<close>

definition handler_throws :: "shown_error \<Rightarrow> lab \<Rightarrow> lab" where
  "handler_throws e s = lab_handled (lab_fail e s)"

section \<open>Starting\<close>

text \<open>\<open>start\<close> up to its first await; \<open>acquireMedia\<close> is what it awaits.\<close>

definition lab_start :: "jstr \<Rightarrow> media_source \<Rightarrow> bool \<Rightarrow> bool \<Rightarrow> bool \<Rightarrow> lab" where
  "lab_start room source relay url_ok ice_ok =
     \<lparr>la_stopped = False, la_capture = None, la_socket = None, la_peer = None, la_channels = [],
      la_remote = [], la_pendingICE = [], la_heartbeat = False, la_stats = False, la_room = room,
      la_messages = [], la_source = source, la_relay = relay, la_url_ok = url_ok, la_ice_ok = ice_ok,
      la_view = initial_view\<lparr>vw_phase := AcquiringMedia\<rparr>,
      la_devices = [], la_tasks = [(0, KAcquire)], la_next = 1, la_queue = [], la_handling = False,
      la_received = [], la_log = []\<rparr>"

definition got_media :: "media_env \<Rightarrow> lab \<Rightarrow> lab" where
  "got_media env s =
     (case acquire_media (la_source s) env (la_devices s) of
        (None, d) \<Rightarrow> lab_fail EngineError (s\<lparr>la_devices := d,
            la_log := la_log s @ map MediaFx (acquire_fx (la_source s) env)\<rparr>)
      | (Some c, d) \<Rightarrow>
          let s = s\<lparr>la_devices := d, la_log := la_log s @ map MediaFx (acquire_fx (la_source s) env)\<rparr> in
          if la_stopped s then s\<lparr>la_devices := release_media (Some c) (la_devices s),
              la_log := la_log s @ map MediaFx (release_fx c)\<rparr>
          else
            let s = update_view (\<lambda>v. v\<lparr>vw_local := Some (lc_stream c), vw_phase := ConnectingSignaling\<rparr>)
                      (s\<lparr>la_capture := Some c\<rparr>)
            in if \<not> la_url_ok s then lab_fail EngineError s
               else (lab_fx OpenSocket s)\<lparr>la_socket := Some SocketConnecting, la_heartbeat := True\<rparr>)"

section \<open>Signals\<close>

text \<open>\<open>this.channel = channel\<close>, with its handlers.\<close>

definition bind_channel :: "channel_state \<Rightarrow> lab \<Rightarrow> lab" where
  "bind_channel c s = s\<lparr>la_channels := la_channels s @ [c]\<rparr>"

text \<open>The handler of \<open>connection.ready\<close>; reading a member of \<open>null\<close> throws.\<close>

definition on_connection_ready :: "json \<Rightarrow> lab \<Rightarrow> lab" where
  "on_connection_ready payload s =
     (if payload = JNull \<or> \<not> la_ice_ok s then handler_throws EngineError s
      else let s = lab_fx (NewLabPeer (member (lit ''iceServers'') payload) (la_relay s)) s;
               s = s\<lparr>la_peer := Some \<lparr>lp_remote = False\<rparr>, la_stats := True\<rparr>;
               s = (case la_capture s of None \<Rightarrow> s | Some c \<Rightarrow> lab_fx (AddCaptureTracks (lc_stream c)) s)
           in lab_handled (update_view (\<lambda>v. v\<lparr>vw_phase := WaitingForPeer\<rparr>) s))"

definition no_peer :: shown_error where
  "no_peer = Shown (lit ''Peer is not initialized.'')"

definition on_match_found :: "json \<Rightarrow> lab \<Rightarrow> lab" where
  "on_match_found payload s =
     (let s = update_view (\<lambda>v. v\<lparr>vw_phase := Negotiating\<rparr>) s in
      if payload = JNull then handler_throws EngineError s
      else if \<not> truthy (member (lit ''offerer'') payload) then lab_handled s
      else if la_peer s = None then handler_throws no_peer s
      else lab_await KLabOffer (bind_channel ChannelConnecting (lab_fx CreateChannel s)))"

definition on_description :: "bool \<Rightarrow> json \<Rightarrow> lab \<Rightarrow> lab" where
  "on_description offer payload s =
     (if la_peer s = None then handler_throws no_peer s
      else lab_await (KLabRemote offer) (lab_fx (LabSetRemote payload) s))"

definition on_candidate :: "json \<Rightarrow> lab \<Rightarrow> lab" where
  "on_candidate c s =
     (case la_peer s of None \<Rightarrow> handler_throws no_peer s
      | Some p \<Rightarrow>
          if lp_remote p then lab_await KLabIce (lab_fx (LabAddIce c) (s\<lparr>la_received := la_received s @ [c]\<rparr>))
          else if length (la_pendingICE s) < 128
          then lab_handled (s\<lparr>la_received := la_received s @ [c], la_pendingICE := la_pendingICE s @ [c]\<rparr>)
          else handler_throws (Shown (lit ''Too many ICE candidates.'')) s)"

definition on_match_ended :: "lab \<Rightarrow> lab" where
  "on_match_ended s = lab_handled (update_view (\<lambda>v. v\<lparr>vw_phase := LabEnded, vw_error :=
     Shown (lit ''Your peer left or the room expired. Create a new room to reconnect.'')\<rparr>) (lab_close s))"

definition receive :: "envelope \<Rightarrow> lab \<Rightarrow> lab" where
  "receive e s =
     (if truthy (env_match e) \<and> env_match e \<noteq> Some (JStr (la_room s))
      then handler_throws (Shown (lit ''Unexpected room.'')) s
      else if env_type e = event_name ConnectionReady then on_connection_ready (env_payload e) s
      else if env_type e = event_name MatchFound then on_match_found (env_payload e) s
      else if env_type e = event_name WebrtcOffer then on_description True (env_payload e) s
      else if env_type e = event_name WebrtcAnswer then on_description False (env_payload e) s
      else if env_type e = event_name WebrtcIce then on_candidate (env_payload e) s
      else if env_type e = event_name MatchEnded then on_match_ended s
      else if env_type e = event_name ErrorEvent then handler_throws
        (Shown (lit ''Room unavailable or signaling rejected. Create a new room and try again.'')) s
      else lab_handled s)"

definition on_frame :: "frame \<Rightarrow> lab \<Rightarrow> lab" where
  "on_frame f s =
     (let s = s\<lparr>la_handling := True\<rparr> in
      if la_stopped s then lab_handled s
      else (case f of BinaryFrame \<Rightarrow> handler_throws (Shown (lit ''Invalid signaling frame.'')) s
        | TextFrame t \<Rightarrow> (case parse_envelope t of
              None \<Rightarrow> handler_throws (if parse_json t = None then EngineError
                else Shown (lit ''Invalid signaling event.'')) s
            | Some e \<Rightarrow> receive e s)))"

fun lab_drain :: "frame list \<Rightarrow> lab \<Rightarrow> lab" where
  "lab_drain [] s = s\<lparr>la_queue := []\<rparr>"
| "lab_drain (f # fs) s = (if la_handling s then s\<lparr>la_queue := f # fs\<rparr> else lab_drain fs (on_frame f s))"

section \<open>After an await\<close>

datatype lab_outcome = LabDone | LabMedia media_env | LabSdp jstr | LabStats "(jstr \<times> json) list" | LabFailed

text \<open>The candidates that waited for the remote description are added one by one.\<close>

fun add_candidates :: "bool \<Rightarrow> json list \<Rightarrow> lab \<Rightarrow> lab" where
  "add_candidates offer [] s = (if offer then lab_await KLabAnswer s else lab_handled s)"
| "add_candidates offer (c # cs) s = lab_await (KLabRemoteIce offer cs) (lab_fx (LabAddIce c) s)"

definition remote_set :: "bool \<Rightarrow> lab \<Rightarrow> lab" where
  "remote_set offer s = add_candidates offer (la_pendingICE s)
     (s\<lparr>la_peer := map_option (\<lambda>p. p\<lparr>lp_remote := True\<rparr>) (la_peer s), la_pendingICE := []\<rparr>)"

definition sdp_payload :: "string \<Rightarrow> jstr \<Rightarrow> json" where
  "sdp_payload kind sdp = JObj [(lit ''type'', JStr (lit kind)), (lit ''sdp'', JStr sdp)]"

fun lab_handler :: "lab_cont \<Rightarrow> lab_outcome \<Rightarrow> lab \<Rightarrow> lab" where
  "lab_handler KLabOffer out s = (case out of
     LabSdp o' \<Rightarrow> lab_await (KLabOfferLocal o') (lab_fx (LabSetLocal o') s)
   | _ \<Rightarrow> handler_throws EngineError s)"
| "lab_handler (KLabOfferLocal o') out s = (if out = LabFailed then handler_throws EngineError s
     else lab_handled (lab_send WebrtcOffer (sdp_payload ''offer'' o') s))"
| "lab_handler (KLabRemote offer) out s = (if out = LabFailed then handler_throws EngineError s
     else remote_set offer s)"
| "lab_handler (KLabRemoteIce offer cs) out s = (if out = LabFailed then handler_throws EngineError s
     else add_candidates offer cs s)"
| "lab_handler KLabAnswer out s = (case out of
     LabSdp a \<Rightarrow> lab_await (KLabAnswerLocal a) (lab_fx (LabSetLocal a) s)
   | _ \<Rightarrow> handler_throws EngineError s)"
| "lab_handler (KLabAnswerLocal a) out s = (if out = LabFailed then handler_throws EngineError s
     else lab_handled (lab_send WebrtcAnswer (sdp_payload ''answer'' a) s))"
| "lab_handler KLabIce out s = (if out = LabFailed then handler_throws EngineError s else lab_handled s)"
| "lab_handler _ out s = s"

subsection \<open>Statistics\<close>

text \<open>A report maps ids to entries; \<open>report.get(undefined)\<close> finds nothing.\<close>

definition report_get :: "(jstr \<times> json) list \<Rightarrow> json option \<Rightarrow> json option" where
  "report_get r k = (case k of Some (JStr i) \<Rightarrow> map_of r i | _ \<Rightarrow> None)"

definition stat_text :: "string \<Rightarrow> json \<Rightarrow> jstr" where
  "stat_text k v = (case member (lit k) v of Some (JStr t) \<Rightarrow> t | _ \<Rightarrow> lit ''undefined'')"

definition stat_bytes :: "json \<Rightarrow> nat" where
  "stat_bytes v = (case member (lit ''bytesReceived'') v of Some (JNum n) \<Rightarrow> nat n | _ \<Rightarrow> 0)"

definition pair_transport :: "(jstr \<times> json) list \<Rightarrow> json \<Rightarrow> jstr option" where
  "pair_transport r v =
     (let pair = report_get r (member (lit ''selectedCandidatePairId'') v);
          get = (\<lambda>k. report_get r (Option.bind pair (member (lit k))))
      in (case (get ''localCandidateId'', get ''remoteCandidateId'') of
            (Some l, Some m) \<Rightarrow> Some (stat_text ''candidateType'' l @ lit '' '' @ [0x2194] @ lit '' ''
               @ stat_text ''candidateType'' m @ lit '' ('' @ stat_text ''protocol'' l @ lit '')'')
          | _ \<Rightarrow> None))"

definition inspect_stat :: "(jstr \<times> json) list \<Rightarrow> json \<Rightarrow> nat \<times> lab \<Rightarrow> nat \<times> lab" where
  "inspect_stat r v a =
     (let n = fst a + (if stat_text ''type'' v = lit ''inbound-rtp'' then stat_bytes v else 0) in
      if stat_text ''type'' v = lit ''transport'' \<and> truthy (member (lit ''selectedCandidatePairId'') v)
      then (case pair_transport r v of None \<Rightarrow> (n, snd a)
        | Some t \<Rightarrow> (n, update_view (\<lambda>w. w\<lparr>vw_transport := t\<rparr>) (snd a)))
      else (n, snd a))"

definition inspect_report :: "(jstr \<times> json) list \<Rightarrow> lab \<Rightarrow> lab" where
  "inspect_report r s = (if la_stopped s then s
     else case fold (inspect_stat r) (map snd r) (0, s) of
       (n, s) \<Rightarrow> update_view (\<lambda>w. w\<lparr>vw_receivedBytes := n\<rparr>) s)"

definition lab_resume :: "lab_cont \<Rightarrow> lab_outcome \<Rightarrow> lab \<Rightarrow> lab" where
  "lab_resume k out s =
     (case k of
        KAcquire \<Rightarrow> (case out of LabMedia env \<Rightarrow> got_media env s | _ \<Rightarrow> lab_fail EngineError s)
      | KLabStats \<Rightarrow> (case out of LabStats r \<Rightarrow> inspect_report r s | _ \<Rightarrow> s)
      | _ \<Rightarrow> (let s = lab_handler k out s in if la_handling s then s else lab_drain (la_queue s) s))"

section \<open>Channel, controls and timers\<close>

definition take_last :: "nat \<Rightarrow> 'a list \<Rightarrow> 'a list" where
  "take_last n xs = drop (length xs - n) xs"

definition add_chat :: "chat \<Rightarrow> lab \<Rightarrow> lab" where
  "add_chat c s = (let ms = take_last 50 (la_messages s @ [c]) in
     update_view (\<lambda>v. v\<lparr>vw_messages := ms\<rparr>) (s\<lparr>la_messages := ms\<rparr>))"

definition channel_open :: "lab \<Rightarrow> bool" where
  "channel_open s \<longleftrightarrow> la_channels s \<noteq> [] \<and> last (la_channels s) = ChannelOpen"

text \<open>\<open>chat(text)\<close>; \<open>buffered\<close> is the channel's \<open>bufferedAmount\<close>.\<close>

definition lab_chat :: "jstr \<Rightarrow> nat \<Rightarrow> lab \<Rightarrow> lab" where
  "lab_chat text buffered s =
     (if blank text \<or> length text > 2000 \<or> \<not> channel_open s \<or> buffered > 65536 then s
      else add_chat \<lparr>ch_from = You, ch_text = text\<rparr> (lab_fx (SendChat text) s))"

text \<open>Flip the enabled flag of one kind of captured track; the answer is the new setting.\<close>

definition flip_tracks :: "track_kind \<Rightarrow> lab \<Rightarrow> (bool \<times> lab) option" where
  "flip_tracks k s =
     (let ts = (case la_capture s of None \<Rightarrow> [] | Some c \<Rightarrow> of_kind k (la_devices s) (lc_stream c)) in
      case ts of [] \<Rightarrow> None
      | t # _ \<Rightarrow> let enabled = \<not> tk_enabled (la_devices s ! t) in
          Some (enabled, s\<lparr>la_devices := enable_tracks enabled ts (la_devices s)\<rparr>))"

definition lab_mute :: "lab \<Rightarrow> lab" where
  "lab_mute s = (case flip_tracks Audio s of None \<Rightarrow> s
     | Some (e, s) \<Rightarrow> update_view (\<lambda>v. v\<lparr>vw_muted := \<not> e\<rparr>) s)"

definition lab_camera :: "lab \<Rightarrow> lab" where
  "lab_camera s = (case flip_tracks Video s of None \<Rightarrow> s
     | Some (e, s) \<Rightarrow> update_view (\<lambda>v. v\<lparr>vw_cameraEnabled := e\<rparr>) s)"

definition lab_inspect :: "lab \<Rightarrow> lab" where
  "lab_inspect s = (if la_peer s = None \<or> la_stopped s then s else lab_await KLabStats s)"

definition peer_state_changed :: "jstr \<Rightarrow> lab \<Rightarrow> lab" where
  "peer_state_changed st s =
     (let s = update_view (\<lambda>v. v\<lparr>vw_phase := PeerPhase st\<rparr>) s in
      if st = lit ''failed'' then lab_fail
        (Shown (lit ''ICE connection failed. Check TURN address and relay ports.'')) s
      else if st = lit ''disconnected'' then update_view (\<lambda>v. v\<lparr>vw_error :=
        Shown (lit ''Connection interrupted. Leave and create a new room if it does not recover.'')\<rparr>) s
      else if st = lit ''connected'' then update_view (\<lambda>v. v\<lparr>vw_error := NoError\<rparr>) s
      else s)"

definition remote_track :: "track_kind \<Rightarrow> lab \<Rightarrow> lab" where
  "remote_track k s = (let (i, d) = open_track k (la_devices s);
       s = s\<lparr>la_devices := d, la_remote := add_track i (la_remote s)\<rparr>
     in update_view (\<lambda>v. v\<lparr>vw_remote := Some (la_remote s)\<rparr>) s)"

datatype lab_event = LabResume nat lab_outcome
  | SocketOpened | SocketFrame frame | SocketFailed | SocketLost
  | HeartbeatTick | StatsTick
  | PeerCandidate json | PeerTrack track_kind | PeerChannel | PeerState jstr
  | ChannelOpened nat | ChannelGone nat | ChannelText nat jstr | ChannelBinary nat
  | ClickChat jstr nat | ClickMute | ClickCamera | ClickLeave

text \<open>The handlers of the socket, of the peer connection and of the channels are only called
  while the object is theirs and is not closed; \<open>close\<close> takes them away.\<close>

definition socket_step :: "lab_event \<Rightarrow> lab \<Rightarrow> lab" where
  "socket_step e s = (case e of
     SocketOpened \<Rightarrow> if la_socket s = Some SocketConnecting
       then lab_send RoomJoin (JObj [(lit ''roomId'', JStr (la_room s))]) (s\<lparr>la_socket := Some SocketOpen\<rparr>) else s
   | SocketFrame f \<Rightarrow> if la_socket s = Some SocketOpen then lab_drain (la_queue s @ [f]) s else s
   | SocketFailed \<Rightarrow> if la_stopped s \<or> la_socket s = None then s
       else lab_fail (Shown (lit ''Signaling connection failed.'')) (s\<lparr>la_socket := Some SocketClosed\<rparr>)
   | SocketLost \<Rightarrow> if la_stopped s \<or> la_socket s = None then s
       else lab_fail (Shown (lit ''Signaling disconnected. Create a new room to retry.''))
         (s\<lparr>la_socket := Some SocketClosed\<rparr>)
   | _ \<Rightarrow> s)"

definition peer_step :: "lab_event \<Rightarrow> lab \<Rightarrow> lab" where
  "peer_step e s = (if la_peer s = None \<or> la_stopped s then s else (case e of
     PeerCandidate c \<Rightarrow> lab_send WebrtcIce c s
   | PeerTrack k \<Rightarrow> remote_track k s
   | PeerChannel \<Rightarrow> bind_channel ChannelConnecting s
   | PeerState st \<Rightarrow> peer_state_changed st s
   | _ \<Rightarrow> s))"

definition channel_step :: "lab_event \<Rightarrow> lab \<Rightarrow> lab" where
  "channel_step e s = (case e of
     ChannelOpened i \<Rightarrow> if i < length (la_channels s) \<and> la_channels s ! i = ChannelConnecting
       then update_view (\<lambda>v. v\<lparr>vw_channelReady := True\<rparr>) (s\<lparr>la_channels := (la_channels s)[i := ChannelOpen]\<rparr>) else s
   | ChannelGone i \<Rightarrow> if i < length (la_channels s) \<and> la_channels s ! i \<noteq> ChannelClosed
       then update_view (\<lambda>v. v\<lparr>vw_channelReady := False\<rparr>) (s\<lparr>la_channels := (la_channels s)[i := ChannelClosed]\<rparr>) else s
   | ChannelText i t \<Rightarrow> if i < length (la_channels s) \<and> la_channels s ! i = ChannelOpen \<and> length t \<le> 2000
       then add_chat \<lparr>ch_from = Peer, ch_text = t\<rparr> s else s
   | _ \<Rightarrow> s)"

definition lab_step :: "lab \<Rightarrow> lab_event \<Rightarrow> lab" where
  "lab_step s e = (case e of
     LabResume i out \<Rightarrow> (case take_task i (la_tasks s) of None \<Rightarrow> s
       | Some (k, q) \<Rightarrow> lab_resume k out (s\<lparr>la_tasks := q\<rparr>))
   | HeartbeatTick \<Rightarrow> if la_heartbeat s then lab_send PresenceHeartbeat (JObj []) s else s
   | StatsTick \<Rightarrow> if la_stats s then lab_inspect s else s
   | ClickChat t b \<Rightarrow> lab_chat t b s
   | ClickMute \<Rightarrow> lab_mute s
   | ClickCamera \<Rightarrow> lab_camera s
   | ClickLeave \<Rightarrow> lab_close s
   | _ \<Rightarrow> channel_step e (peer_step e (socket_step e s)))"

end
