(* ===== verification/Lab_Guarantees.thy ===== *)
theory Lab_Guarantees
  imports Lab_Session
begin

text \<open>
  What a lab session promises, whatever the order of socket, peer, channel, timer and
  button events: the invariant \<open>lab_inv\<close> is proved once per operation (\<open>inv_*\<close>), its lifting
  to runs is the interpretation of \<open>machine\<close>.
\<close>

section \<open>What has been sent\<close>

definition sent_of :: "lab_fx list \<Rightarrow> event_type list" where
  "sent_of fs = List.map_filter (\<lambda>f. case f of Sent t _ \<Rightarrow> Some t | _ \<Rightarrow> None) fs"

definition media_of :: "lab_fx list \<Rightarrow> media_fx list" where
  "media_of fs = List.map_filter (\<lambda>f. case f of MediaFx m \<Rightarrow> Some m | _ \<Rightarrow> None) fs"

lemma sent_of_simps [simp]:
  "sent_of [] = []" "sent_of (fs @ gs) = sent_of fs @ sent_of gs" "sent_of [Sent t p] = [t]"
  "sent_of (map MediaFx ms) = []"
  by (induction ms) (simp_all add: sent_of_def List.map_filter_def)

lemma media_of_simps [simp]:
  "media_of [] = []" "media_of (fs @ gs) = media_of fs @ media_of gs" "media_of (map MediaFx ms) = ms"
  "media_of [Sent t p] = []"
  by (induction ms) (simp_all add: media_of_def List.map_filter_def)

lemma sent_of_Cons: "sent_of (f # fs) = (case f of Sent t _ \<Rightarrow> t # sent_of fs | _ \<Rightarrow> sent_of fs)"
  by (simp add: sent_of_def List.map_filter_def split: lab_fx.split)

lemma media_of_Cons: "media_of (f # fs) = (case f of MediaFx m \<Rightarrow> m # media_of fs | _ \<Rightarrow> media_of fs)"
  by (simp add: media_of_def List.map_filter_def split: lab_fx.split)

text \<open>Calls of the browser that are neither frames nor media resources.\<close>

definition quiet :: "lab_fx \<Rightarrow> bool" where
  "quiet f \<longleftrightarrow> (case f of Sent _ _ \<Rightarrow> False | MediaFx _ \<Rightarrow> False | _ \<Rightarrow> True)"

lemma quiet_simps [simp]:
  "quiet OpenSocket" "quiet CloseSocket" "quiet (NewLabPeer c r)" "quiet CloseLabPeer"
  "quiet (AddCaptureTracks st)" "quiet CreateChannel" "quiet CloseChannel" "quiet (SendChat t)"
  "quiet (LabSetLocal t)" "quiet (LabSetRemote j)" "quiet (LabAddIce j)"
  by (simp_all add: quiet_def)

lemma quiet_log [simp]: "quiet f \<Longrightarrow> sent_of [f] = []" "quiet f \<Longrightarrow> media_of [f] = []"
  by (cases f; simp add: quiet_def sent_of_Cons media_of_Cons)+

text \<open>A conversation with the server: the join first and once, then anything but joins and
  leaves; when it is over, at most one leave, as the last frame.\<close>

definition talking :: "event_type list \<Rightarrow> bool" where
  "talking ts \<longleftrightarrow> (case ts of [] \<Rightarrow> False
     | t # mid \<Rightarrow> t = RoomJoin \<and> RoomJoin \<notin> set mid \<and> MatchLeave \<notin> set mid)"

definition conversation :: "event_type list \<Rightarrow> bool" where
  "conversation ts \<longleftrightarrow> ts = [] \<or> talking ts \<or> (talking (butlast ts) \<and> last ts = MatchLeave)"

lemma talking_snoc: "talking ts \<Longrightarrow> t \<noteq> RoomJoin \<Longrightarrow> t \<noteq> MatchLeave \<Longrightarrow> talking (ts @ [t])"
  by (auto simp: talking_def split: list.splits)

definition wire_ok :: "lab \<Rightarrow> bool" where
  "wire_ok s \<longleftrightarrow> (let ts = sent_of (la_log s) in
     case la_socket s of None \<Rightarrow> ts = [] | Some SocketConnecting \<Rightarrow> ts = []
     | Some SocketOpen \<Rightarrow> talking ts | Some SocketClosed \<Rightarrow> conversation ts)"

section \<open>The invariant\<close>

definition devices_ok :: "lab \<Rightarrow> bool" where
  "devices_ok s \<longleftrightarrow> (la_stopped s \<longrightarrow> live_set (la_devices s) = {})
     \<and> (\<not> la_stopped s \<longrightarrow> live_set (la_devices s) \<subseteq> capture_tracks (la_capture s) \<union> set (la_remote s))"

definition holds_pattern :: "lab \<Rightarrow> bool" where
  "holds_pattern s \<longleftrightarrow> \<not> la_stopped s \<and> map_option lc_source (la_capture s) = Some TestSource"

definition resources_ok :: "lab \<Rightarrow> bool" where
  "resources_ok s \<longleftrightarrow> running (media_of (la_log s)) = (if holds_pattern s then (1, 1) else (0, 0))"

definition over_ok :: "lab \<Rightarrow> bool" where
  "over_ok s \<longleftrightarrow> (la_stopped s \<longrightarrow>
     \<not> la_heartbeat s \<and> \<not> la_stats s \<and> la_socket s \<in> {None, Some SocketClosed}
     \<and> set (la_channels s) \<subseteq> {ChannelClosed} \<and> la_pendingICE s = [] \<and> la_messages s = [])"

definition bounds_ok :: "lab \<Rightarrow> bool" where
  "bounds_ok s \<longleftrightarrow> length (la_pendingICE s) \<le> 128 \<and> length (la_messages s) \<le> 50
     \<and> list_all (\<lambda>c. length (ch_text c) \<le> 2000) (la_messages s)"

definition start_ok :: "lab \<Rightarrow> bool" where
  "start_ok s \<longleftrightarrow> length (tasks_of (\<lambda>k. k = KAcquire) (la_tasks s)) \<le> 1
     \<and> (KAcquire \<in> conts (la_tasks s) \<longrightarrow> la_capture s = None \<and> la_socket s = None)
     \<and> (la_peer s = None \<longrightarrow> la_channels s = [])"

definition lab_inv :: "lab \<Rightarrow> bool" where
  "lab_inv s \<longleftrightarrow> wire_ok s \<and> devices_ok s \<and> resources_ok s \<and> over_ok s \<and> bounds_ok s \<and> start_ok s"

lemmas lab_inv_defs = lab_inv_def wire_ok_def devices_ok_def resources_ok_def holds_pattern_def
  over_ok_def bounds_ok_def start_ok_def

lemma lab_inv_start: "lab_inv (lab_start room src relay u i)"
  by (simp add: lab_inv_defs lab_start_def initial_view_def)

text \<open>Steps that touch nothing the invariant speaks of.\<close>

lemma lab_inv_frame [simp]:
  "lab_inv (s\<lparr>la_next := n\<rparr>) = lab_inv s"
  "lab_inv (s\<lparr>la_queue := fs\<rparr>) = lab_inv s"
  "lab_inv (s\<lparr>la_handling := b\<rparr>) = lab_inv s"
  "lab_inv (s\<lparr>la_received := cs\<rparr>) = lab_inv s"
  "lab_inv (s\<lparr>la_room := r\<rparr>) = lab_inv s"
  by (simp_all add: lab_inv_defs)

lemma lab_inv_quiet [simp]: "quiet f \<Longrightarrow> lab_inv (lab_fx f s) = lab_inv s"
  by (simp add: lab_inv_defs lab_fx_def)

lemma lab_inv_await [simp]: "k \<noteq> KAcquire \<Longrightarrow> lab_inv (lab_await k s) = lab_inv s"
  by (simp add: lab_inv_defs lab_await_def)

lemma lab_inv_handled [simp]: "lab_inv (lab_handled s) = lab_inv s"
  by (simp add: lab_handled_def)

lemma lab_inv_view [simp]: "lab_inv (update_view f s) = lab_inv s" "lab_inv (s\<lparr>la_view := v\<rparr>) = lab_inv s"
  by (simp_all add: lab_inv_defs update_view_def)

lemma lab_inv_send:
  "lab_inv s \<Longrightarrow> t \<noteq> RoomJoin \<Longrightarrow> t \<noteq> MatchLeave \<Longrightarrow> lab_inv (lab_send t p s)"
  by (auto simp: lab_send_def lab_fx_def lab_inv_defs talking_snoc)

section \<open>Closing\<close>

definition last_frames :: "lab \<Rightarrow> event_type list" where
  "last_frames s = sent_of (la_log s) @ (if la_socket s = Some SocketOpen then [MatchLeave] else [])"

lemma close_fields:
  assumes "\<not> la_stopped s"
  shows "la_stopped (lab_close s)" "\<not> la_heartbeat (lab_close s)" "\<not> la_stats (lab_close s)"
    "la_pendingICE (lab_close s) = []" "la_messages (lab_close s) = []"
    "la_view (lab_close s) = initial_view\<lparr>vw_phase := LabEnded\<rparr>"
    "la_socket (lab_close s) = map_option (\<lambda>_. SocketClosed) (la_socket s)"
    "la_tasks (lab_close s) = la_tasks s" "la_peer (lab_close s) = la_peer s"
    "la_capture (lab_close s) = la_capture s"
    "la_handling (lab_close s) = la_handling s" "la_queue (lab_close s) = la_queue s"
    "live_set (la_devices (lab_close s)) =
       live_set (la_devices s) - (capture_tracks (la_capture s) \<union> set (la_remote s))"
    "sent_of (la_log (lab_close s)) = last_frames s"
    "media_of (la_log (lab_close s)) = media_of (la_log s) @ (case la_capture s of None \<Rightarrow> [] | Some c \<Rightarrow> release_fx c)"
    "la_peer s \<noteq> None \<Longrightarrow> set (la_channels (lab_close s)) \<subseteq> {ChannelClosed}"
    "la_channels s = [] \<Longrightarrow> la_channels (lab_close s) = []"
  using assms
  by (auto simp: lab_close_def Let_def stop_lab_capture_def close_peer_def close_channel_def
      close_socket_def lab_send_def lab_fx_def update_view_def last_frames_def sent_of_Cons media_of_Cons split: option.splits)

lemma conversation_last:
  "talking ts \<Longrightarrow> conversation (ts @ [MatchLeave])" "talking ts \<Longrightarrow> conversation ts" "conversation []"
  by (simp_all add: conversation_def)

lemma wire_last: "wire_ok s \<Longrightarrow> la_socket s \<noteq> None \<Longrightarrow> conversation (last_frames s)"
  by (auto simp: wire_ok_def last_frames_def Let_def conversation_last split: option.splits socket_state.splits)

lemma running_release:
  "running (release_fx c) = (if lc_source c = TestSource then (- 1, - 1) else (0, 0))"
  by (cases "lc_source c") (simp_all add: release_fx_def running_def)

lemma lab_inv_close:
  assumes inv: "lab_inv s"
  shows "lab_inv (lab_close s)"
proof (cases "la_stopped s")
  case True
  then show ?thesis using inv by (simp add: lab_close_def)
next
  case False
  note fields = close_fields [OF False]
  have "wire_ok (lab_close s)"
    using inv wire_last [of s] by (cases "la_socket s") (auto simp: wire_ok_def fields lab_inv_def last_frames_def)
  moreover have "devices_ok (lab_close s)"
    using inv False by (auto simp: devices_ok_def fields lab_inv_def)
  moreover have "resources_ok (lab_close s)"
    using inv False by (auto simp: resources_ok_def holds_pattern_def fields lab_inv_def running_append
        running_release split: option.splits)
  moreover have "over_ok (lab_close s)"
    using inv False
    by (cases "la_peer s"; cases "la_socket s") (auto simp: over_ok_def fields lab_inv_defs initial_view_def)
  moreover have "bounds_ok (lab_close s)"
    by (simp add: bounds_ok_def fields initial_view_def)
  moreover have "start_ok (lab_close s)"
    using inv False by (auto simp: start_ok_def fields lab_inv_def)
  ultimately show ?thesis by (simp add: lab_inv_def)
qed

lemma lab_inv_fail: "lab_inv s \<Longrightarrow> lab_inv (lab_fail e s)"
proof (cases "la_stopped s")
  case False
  assume "lab_inv s"
  then have "lab_inv (lab_close s)" by (rule lab_inv_close)
  then show ?thesis
    using False by (simp add: lab_fail_def)
qed (simp add: lab_fail_def)

lemma lab_inv_throws: "lab_inv s \<Longrightarrow> lab_inv (handler_throws e s)"
  by (simp add: handler_throws_def lab_inv_fail)

section \<open>Every operation keeps it\<close>

lemma running_acquired:
  assumes "acquire_media src env d = (c, d')"
  shows "running (acquire_fx src env) = (if map_option lc_source c = Some TestSource then (1, 1) else (0, 0))"
  using running_acquire_release [OF assms]
  by (cases c; cases "running (acquire_fx src env)") (auto simp: running_append running_release split: if_splits)

lemma lab_inv_got_media:
  assumes inv: "lab_inv s" and fresh: "KAcquire \<notin> conts (la_tasks s)" "la_capture s = None" "la_socket s = None"
  shows "lab_inv (got_media env s)"
proof -
  obtain c d where acq: "acquire_media (la_source s) env (la_devices s) = (c, d)" by (cases "acquire_media (la_source s) env (la_devices s)")
  note live = acquire_media_live [OF acq] and run = running_acquired [OF acq]
  show ?thesis
  proof (cases c)
    case None
    then have "lab_inv (s\<lparr>la_devices := d, la_log := la_log s @ map MediaFx (acquire_fx (la_source s) env)\<rparr>)"
      using inv live run by (auto simp: lab_inv_defs running_append)
    then show ?thesis using None by (simp add: got_media_def acq lab_inv_fail)
  next
    case (Some p)
    let ?s = "s\<lparr>la_devices := d, la_log := la_log s @ map MediaFx (acquire_fx (la_source s) env)\<rparr>"
    let ?t = "update_view (\<lambda>v. v\<lparr>vw_local := Some (lc_stream p), vw_phase := ConnectingSignaling\<rparr>)
      (?s\<lparr>la_capture := Some p\<rparr>)"
    show ?thesis
    proof (cases "la_stopped s")
      case True
      have "live_set (release_media (Some p) d) = live_set (la_devices s)"
        using lab_media.release_acquire [OF acq] Some by simp
      then show ?thesis
        using inv True run Some by (auto simp: got_media_def acq lab_inv_defs running_append running_release Let_def)
    next
      case False
      have "lab_inv ?t"
        using inv False live run Some fresh
        by (auto simp: lab_inv_defs running_append update_view_def)
      moreover have "got_media env s = (if \<not> la_url_ok ?t then lab_fail EngineError ?t
          else (lab_fx OpenSocket ?t)\<lparr>la_socket := Some SocketConnecting, la_heartbeat := True\<rparr>)"
        using Some False by (simp add: got_media_def acq Let_def update_view_def)
      moreover have "lab_inv ((lab_fx OpenSocket ?t)\<lparr>la_socket := Some SocketConnecting, la_heartbeat := True\<rparr>)"
        if "lab_inv ?t"
        using that False fresh by (simp add: lab_inv_defs update_view_def lab_fx_def)
      ultimately show ?thesis by (simp add: lab_inv_fail)
    qed
  qed
qed

lemma lab_inv_bind_channel:
  "lab_inv s \<Longrightarrow> \<not> la_stopped s \<Longrightarrow> la_peer s \<noteq> None \<Longrightarrow> lab_inv (bind_channel c s)"
  by (simp add: lab_inv_defs bind_channel_def)

lemma lab_inv_new_peer:
  "lab_inv s \<Longrightarrow> \<not> la_stopped s \<Longrightarrow> lab_inv (s\<lparr>la_peer := Some p, la_stats := b\<rparr>)"
  by (simp add: lab_inv_defs)

lemma not_stopped_simps [simp]:
  "la_stopped (lab_fx f s) = la_stopped s" "la_stopped (update_view g s) = la_stopped s"
  "la_stopped (bind_channel c s) = la_stopped s" "la_peer (lab_fx f s) = la_peer s"
  "la_peer (update_view g s) = la_peer s" "la_capture (lab_fx f s) = la_capture s"
  "la_stopped (lab_handled s) = la_stopped s" "la_stopped (lab_await k s) = la_stopped s"
  "la_stopped (lab_send t p s) = la_stopped s" "la_peer (lab_send t p s) = la_peer s"
  by (simp_all add: lab_fx_def update_view_def bind_channel_def lab_handled_def lab_await_def lab_send_def)

lemma lab_inv_connection_ready:
  assumes "lab_inv s" and "\<not> la_stopped s"
  shows "lab_inv (on_connection_ready p s)"
  using assms
  by (auto simp: on_connection_ready_def lab_inv_throws Let_def split: option.split
      intro!: lab_inv_new_peer)

lemma lab_inv_match_found: "lab_inv s \<Longrightarrow> \<not> la_stopped s \<Longrightarrow> lab_inv (on_match_found p s)"
  by (auto simp: on_match_found_def Let_def intro!: lab_inv_throws lab_inv_bind_channel)

lemma lab_inv_description: "lab_inv s \<Longrightarrow> lab_inv (on_description offer p s)"
  by (simp add: on_description_def lab_inv_throws)

lemma lab_inv_candidate: "lab_inv s \<Longrightarrow> \<not> la_stopped s \<Longrightarrow> lab_inv (on_candidate c s)"
proof -
  assume inv: "lab_inv s" and live: "\<not> la_stopped s"
  have "lab_inv (s\<lparr>la_received := r, la_pendingICE := la_pendingICE s @ [c]\<rparr>)"
    if "length (la_pendingICE s) < 128" for r
    using inv live that by (simp add: lab_inv_defs)
  then show ?thesis using inv by (auto simp: on_candidate_def lab_inv_throws split: option.split)
qed

lemma close_stops [simp]: "la_stopped (lab_close s)"
proof (cases "la_stopped s")
  case True
  then show ?thesis by (simp add: lab_close_def)
qed (rule close_fields(1))

lemma stopped_channels: "lab_inv s \<Longrightarrow> la_stopped s \<Longrightarrow> c \<in> set (la_channels s) \<Longrightarrow> c = ChannelClosed"
  by (auto simp: lab_inv_def over_ok_def)

lemma lab_inv_match_ended: "lab_inv s \<Longrightarrow> lab_inv (on_match_ended s)"
  by (simp add: on_match_ended_def lab_inv_close)

lemma lab_inv_receive: "lab_inv s \<Longrightarrow> \<not> la_stopped s \<Longrightarrow> lab_inv (receive e s)"
  by (simp add: receive_def lab_inv_throws lab_inv_connection_ready lab_inv_match_found lab_inv_description
      lab_inv_candidate lab_inv_match_ended)

lemma lab_inv_on_frame: "lab_inv s \<Longrightarrow> lab_inv (on_frame f s)"
  by (auto simp: on_frame_def Let_def lab_inv_throws lab_inv_receive split: frame.split option.split)

lemma lab_inv_drain: "lab_inv s \<Longrightarrow> lab_inv (lab_drain fs s)"
  by (induction fs s rule: lab_drain.induct) (simp_all add: lab_inv_on_frame)

lemma lab_inv_add_candidates: "lab_inv s \<Longrightarrow> lab_inv (add_candidates offer cs s)"
  by (cases cs) simp_all

lemma lab_inv_remote_set: "lab_inv s \<Longrightarrow> lab_inv (remote_set offer s)"
  unfolding remote_set_def by (rule lab_inv_add_candidates) (cases "la_peer s"; simp add: lab_inv_defs)

lemma lab_inv_handler: "lab_inv s \<Longrightarrow> lab_inv (lab_handler k out s)"
  by (cases k) (auto simp: lab_inv_throws lab_inv_send lab_inv_remote_set lab_inv_add_candidates split: lab_outcome.split)

lemma inspect_stat_frame:
  "lab_inv (snd a) \<Longrightarrow> \<not> la_stopped (snd a) \<Longrightarrow>
   lab_inv (snd (inspect_stat r v a)) \<and> \<not> la_stopped (snd (inspect_stat r v a))"
  by (auto simp: inspect_stat_def Let_def split: option.split)

lemma inspect_fold:
  "lab_inv (snd a) \<Longrightarrow> \<not> la_stopped (snd a) \<Longrightarrow>
   lab_inv (snd (fold (inspect_stat r) vs a)) \<and> \<not> la_stopped (snd (fold (inspect_stat r) vs a))"
  by (induction vs arbitrary: a) (simp_all add: inspect_stat_frame)

lemma lab_inv_inspect: "lab_inv s \<Longrightarrow> lab_inv (inspect_report r s)"
  using inspect_fold [of "(0, s)" r "map snd r"]
  by (auto simp: inspect_report_def split: prod.split)

lemma length_take_last: "length (take_last n xs) \<le> n"
  by (simp add: take_last_def)

lemma set_take_last: "set (take_last n xs) \<subseteq> set xs"
  by (simp add: take_last_def set_drop_subset)

lemma lab_inv_add_chat:
  "lab_inv s \<Longrightarrow> \<not> la_stopped s \<Longrightarrow> length (ch_text c) \<le> 2000 \<Longrightarrow> lab_inv (add_chat c s)"
  using length_take_last [of 50 "la_messages s @ [c]"] set_take_last [of 50 "la_messages s @ [c]"]
  by (auto simp: add_chat_def Let_def update_view_def lab_inv_defs list_all_iff)

lemma lab_inv_chat: "lab_inv s \<Longrightarrow> lab_inv (lab_chat t b s)"
proof (cases "la_stopped s")
  case True
  assume "lab_inv s"
  with True have "\<not> channel_open s"
    using stopped_channels [OF _ True last_in_set] by (auto simp: channel_open_def)
  then show ?thesis using \<open>lab_inv s\<close> by (simp add: lab_chat_def)
qed (simp add: lab_chat_def lab_inv_add_chat)

lemma lab_inv_devices: "lab_inv s \<Longrightarrow> live_set d = live_set (la_devices s) \<Longrightarrow> lab_inv (s\<lparr>la_devices := d\<rparr>)"
  by (simp add: lab_inv_defs)

lemma lab_inv_flip: "lab_inv s \<Longrightarrow> flip_tracks k s = Some (e, t) \<Longrightarrow> lab_inv t"
  by (auto simp: flip_tracks_def Let_def intro!: lab_inv_devices split: list.splits)

lemma lab_inv_mute: "lab_inv s \<Longrightarrow> lab_inv (lab_mute s)"
  by (auto simp: lab_mute_def lab_inv_flip split: option.split)

lemma lab_inv_camera: "lab_inv s \<Longrightarrow> lab_inv (lab_camera s)"
  by (auto simp: lab_camera_def lab_inv_flip split: option.split)

lemma lab_inv_lab_inspect: "lab_inv s \<Longrightarrow> lab_inv (lab_inspect s)"
  by (simp add: lab_inspect_def)

lemma lab_inv_peer_state: "lab_inv s \<Longrightarrow> \<not> la_stopped s \<Longrightarrow> lab_inv (peer_state_changed st s)"
  by (auto simp: peer_state_changed_def Let_def lab_inv_fail intro!: lab_inv_fail)

lemma lab_inv_remote_track: "lab_inv s \<Longrightarrow> \<not> la_stopped s \<Longrightarrow> lab_inv (remote_track k s)"
  by (auto simp: remote_track_def Let_def split_beta update_view_def lab_inv_defs)

lemma lab_inv_peer_step: "lab_inv s \<Longrightarrow> lab_inv (peer_step e s)"
  by (cases e) (auto simp: peer_step_def lab_inv_send lab_inv_remote_track lab_inv_bind_channel lab_inv_peer_state)

lemma lab_inv_socket_closed: "lab_inv s \<Longrightarrow> la_socket s \<noteq> None \<Longrightarrow> lab_inv (s\<lparr>la_socket := Some SocketClosed\<rparr>)"
  by (cases "la_socket s"; cases "the (la_socket s)") (auto simp: lab_inv_defs conversation_last Let_def)

lemma lab_inv_socket_open:
  "lab_inv s \<Longrightarrow> la_socket s = Some SocketConnecting \<Longrightarrow>
   lab_inv (lab_send RoomJoin p (s\<lparr>la_socket := Some SocketOpen\<rparr>))"
  by (auto simp: lab_inv_defs lab_send_def lab_fx_def talking_def)

lemma lab_inv_socket_step: "lab_inv s \<Longrightarrow> lab_inv (socket_step e s)"
  by (cases e) (auto simp: socket_step_def lab_inv_socket_open lab_inv_socket_closed lab_inv_drain lab_inv_fail)

lemma lab_inv_channel_set:
  "lab_inv s \<Longrightarrow> \<not> la_stopped s \<Longrightarrow>
   lab_inv (s\<lparr>la_channels := (la_channels s)[i := c]\<rparr>)"
  by (auto simp: lab_inv_defs)

lemma lab_inv_channel_step: "lab_inv s \<Longrightarrow> lab_inv (channel_step e s)"
  using stopped_channels [of s, OF _ _ nth_mem]
  by (cases "la_stopped s"; cases e) (auto simp: channel_step_def lab_inv_channel_set lab_inv_add_chat)

lemma lab_inv_handle_drain:
  "lab_inv s \<Longrightarrow> lab_inv (let t = lab_handler k out s in if la_handling t then t else lab_drain (la_queue t) t)"
  by (simp add: Let_def lab_inv_handler lab_inv_drain)

lemma lab_inv_resume:
  assumes inv: "lab_inv s" and k: "k = KAcquire \<Longrightarrow>
      KAcquire \<notin> conts (la_tasks s) \<and> la_capture s = None \<and> la_socket s = None"
  shows "lab_inv (lab_resume k out s)"
  using inv k by (cases k; cases out)
    (simp_all add: lab_resume_def lab_inv_handle_drain lab_inv_got_media lab_inv_fail lab_inv_inspect del: lab_handler.simps)

lemma lab_inv_step: "lab_inv s \<Longrightarrow> lab_inv (lab_step s e)"
proof (cases e)
  case (LabResume i out)
  assume inv: "lab_inv s"
  show ?thesis
  proof (cases "take_task i (la_tasks s)")
    case (Some p)
    obtain k q where p: "p = (k, q)" by (cases p)
    have take: "take_task i (la_tasks s) = Some (k, q)" using Some p by simp
    have one: "length (tasks_of (\<lambda>k. k = KAcquire) (la_tasks s)) \<le> 1" using inv by (simp add: lab_inv_def start_ok_def)
    note single = take_task_single [OF take one]
    have sub: "KAcquire \<in> conts q \<Longrightarrow> KAcquire \<in> conts (la_tasks s)" using take by (rule take_task_sub)
    have "length (tasks_of (\<lambda>k. k = KAcquire) q) \<le> 1" using single one by (cases "k = KAcquire") auto
    then have "lab_inv (s\<lparr>la_tasks := q\<rparr>)" using inv sub by (auto simp: lab_inv_defs)
    moreover have "KAcquire \<notin> conts q \<and> la_capture s = None \<and> la_socket s = None" if "k = KAcquire"
    proof -
      have "tasks_of (\<lambda>k. k = KAcquire) q = []" using single that by simp
      then have "KAcquire \<notin> conts q" using set_tasks_of [of "\<lambda>k. k = KAcquire" q] by auto
      moreover have "KAcquire \<in> conts (la_tasks s)" using take_task_cont [OF take] that by simp
      ultimately show ?thesis using inv by (simp add: lab_inv_def start_ok_def)
    qed
    ultimately show ?thesis
      by (simp add: LabResume lab_step_def take lab_inv_resume)
  qed (use inv LabResume in \<open>simp add: lab_step_def\<close>)
qed (simp_all add: lab_step_def lab_inv_send lab_inv_lab_inspect lab_inv_chat lab_inv_mute lab_inv_camera lab_inv_close
    lab_inv_socket_step lab_inv_peer_step lab_inv_channel_step)

interpretation lab: machine lab_step "\<lambda>_ _. True" lab_inv
  by unfold_locales (rule lab_inv_step)

section \<open>A session that is over\<close>

text \<open>What the outside sees of a session: whether it is over, its view, the frames it sent.\<close>

definition outside :: "lab \<Rightarrow> bool \<times> lab_view \<times> event_type list" where
  "outside s = (la_stopped s, la_view s, sent_of (la_log s))"

lemma outside_frame [simp]:
  "outside (s\<lparr>la_next := n\<rparr>) = outside s" "outside (s\<lparr>la_queue := fs\<rparr>) = outside s"
  "outside (s\<lparr>la_handling := b\<rparr>) = outside s" "outside (s\<lparr>la_tasks := q\<rparr>) = outside s"
  "outside (s\<lparr>la_peer := p\<rparr>) = outside s" "outside (s\<lparr>la_pendingICE := cs\<rparr>) = outside s"
  "outside (s\<lparr>la_devices := d\<rparr>) = outside s" "outside (s\<lparr>la_received := cs\<rparr>) = outside s"
  "outside (lab_await k s) = outside s" "outside (lab_handled s) = outside s"
  "outside (s\<lparr>la_log := la_log s @ map MediaFx ms\<rparr>) = outside s"
  "quiet f \<Longrightarrow> outside (lab_fx f s) = outside s"
  by (simp_all add: outside_def lab_await_def lab_handled_def lab_fx_def)

lemma outside_stopped: "outside t = outside s \<Longrightarrow> la_stopped t = la_stopped s"
  by (simp add: outside_def)

lemma over_ops [simp]:
  "la_stopped s \<Longrightarrow> lab_close s = s" "la_stopped s \<Longrightarrow> lab_fail e s = s"
  "la_stopped s \<Longrightarrow> lab_send t p s = s" "la_stopped s \<Longrightarrow> handler_throws e s = lab_handled s"
  "la_stopped s \<Longrightarrow> inspect_report r s = s" "la_stopped s \<Longrightarrow> lab_inspect s = s"
  "la_stopped s \<Longrightarrow> peer_step e' s = s"
  by (simp_all add: lab_close_def lab_fail_def lab_send_def handler_throws_def inspect_report_def
      lab_inspect_def peer_step_def)

lemma over_add_candidates: "outside (add_candidates offer cs s) = outside s"
  by (cases cs) simp_all

lemma over_handler: "la_stopped s \<Longrightarrow> outside (lab_handler k out s) = outside s"
  by (cases k) (auto simp: over_add_candidates remote_set_def split: lab_outcome.split)

lemma over_on_frame: "la_stopped s \<Longrightarrow> outside (on_frame f s) = outside s"
  by (simp add: on_frame_def Let_def)

lemma over_drain: "la_stopped s \<Longrightarrow> outside (lab_drain fs s) = outside s"
  by (induction fs s rule: lab_drain.induct) (simp_all add: over_on_frame outside_stopped [OF over_on_frame])

lemma over_got_media: "la_stopped s \<Longrightarrow> outside (got_media env s) = outside s"
  by (auto simp: got_media_def Let_def outside_def split: prod.split option.split)

lemma over_resume: "la_stopped s \<Longrightarrow> outside (lab_resume k out s) = outside s"
  using over_handler [of s k out] outside_stopped [OF over_handler, of s k out]
  by (cases k; cases out)
     (simp_all add: lab_resume_def Let_def over_drain over_got_media del: lab_handler.simps)

lemma over_step:
  assumes "lab_inv s" and over: "la_stopped s" and ui: "e \<noteq> ClickMute" "e \<noteq> ClickCamera"
  shows "outside (lab_step s e) = outside s"
proof -
  have socket: "la_socket s \<in> {None, Some SocketClosed}" using assms by (simp add: lab_inv_def over_ok_def)
  have channel: "channel_step e' s = s" for e'
    using stopped_channels [OF assms(1) over nth_mem] by (cases e') (auto simp: channel_step_def)
  have chat: "lab_chat t b s = s" for t b
    using stopped_channels [OF assms(1) over last_in_set] by (auto simp: lab_chat_def channel_open_def)
  show ?thesis
    using socket over ui
    by (cases e) (auto simp: lab_step_def over_resume channel chat socket_step_def split: option.split)
qed

section \<open>The promises\<close>

abbreviation lab_reachable :: "jstr \<Rightarrow> media_source \<Rightarrow> bool \<Rightarrow> bool \<Rightarrow> bool \<Rightarrow> lab \<Rightarrow> bool" where
  "lab_reachable room src relay u i \<equiv> reachable lab_step (\<lambda>_ _. True) (lab_start room src relay u i)"

lemma reachable_inv: "lab_reachable room src relay u i s \<Longrightarrow> lab_inv s"
  by (erule lab.inv_reachable) (rule lab_inv_start)

lemma over_state:
  assumes "lab_inv s" and "la_stopped s"
  shows "live_set (la_devices s) = {}" "running (media_of (la_log s)) = (0, 0)"
    "\<not> la_heartbeat s" "\<not> la_stats s" "la_socket s \<in> {None, Some SocketClosed}"
    "set (la_channels s) \<subseteq> {ChannelClosed}"
  using assms unfolding lab_inv_def devices_ok_def resources_ok_def over_ok_def holds_pattern_def
  by simp_all


text \<open>The camera prompt is answered after the visitor has left.\<close>

definition left_early :: lab where
  "left_early = run lab_step (lab_start (lit ''r'') TestSource False True True) [ClickLeave]"


text \<open>C22: The frames a lab session sends form one conversation: the join comes first and once,
  nothing is sent before the socket is open, and the leave is sent at most once and is the
  last frame, whatever the order of events.\<close>

theorem lab_sends_one_conversation:
  assumes "lab_reachable room src relay u i s"
  shows "conversation (sent_of (la_log s))
    \<and> (la_socket s \<in> {None, Some SocketConnecting} \<longrightarrow> sent_of (la_log s) = [])"
  using reachable_inv [OF assms]
  by (cases "la_socket s"; cases "the (la_socket s)")
     (auto simp: lab_inv_def wire_ok_def Let_def conversation_def)

definition joined_run :: "lab_event list" where
  "joined_run = [LabResume 0 (LabMedia \<lparr>me_granted = True, me_context = True, me_audio = AudioOk\<rparr>),
     SocketOpened, HeartbeatTick, ClickLeave, HeartbeatTick]"

lemma lab_sends_one_conversation_witness:
  "sent_of (la_log (run lab_step (lab_start [] CameraSource False True True) joined_run))
     = [RoomJoin, PresenceHeartbeat, MatchLeave]
   \<and> conversation [RoomJoin, PresenceHeartbeat, MatchLeave]"
proof -
  have sent: "sent_of (la_log (run lab_step (lab_start [] CameraSource False True True) joined_run))
     = [RoomJoin, PresenceHeartbeat, MatchLeave]" by code_simp
  have "admissible lab_step (\<lambda>_ _. True) (lab_start [] CameraSource False True True) joined_run"
    by (rule admissible_True)
  then have "lab_reachable [] CameraSource False True True (run lab_step (lab_start [] CameraSource False True True) joined_run)"
    by (rule admissible_reachable)
  from lab_sends_one_conversation [OF this] show ?thesis by (simp add: sent)
qed

text \<open>C23: A lab session never buffers more than 128 early ICE candidates and never keeps more
  than 50 chat messages, none of them longer than 2000 UTF-16 units, whatever the peer and
  the server send.\<close>

theorem lab_memory_is_bounded:
  assumes "lab_reachable room src relay u i s"
  shows "length (la_pendingICE s) \<le> 128 \<and> length (la_messages s) \<le> 50
    \<and> list_all (\<lambda>c. length (ch_text c) \<le> 2000) (la_messages s)"
  using reachable_inv [OF assms] by (simp add: lab_inv_def bounds_ok_def)

lemma lab_memory_is_bounded_witness:
  "length (la_messages (run lab_step (lab_start [] CameraSource False True True) joined_run)) \<le> 50"
proof -
  have "lab_reachable [] CameraSource False True True (run lab_step (lab_start [] CameraSource False True True) joined_run)"
    by (rule admissible_reachable) (rule admissible_True)
  from lab_memory_is_bounded [OF this] show ?thesis by simp
qed

end
