(* ===== verification/Networking_Lab.thy ===== *)
theory Networking_Lab
  imports Lab_Guarantees
begin

text \<open>
  \<open>components/video/lab.tsx\<close>: the networking lab page, which creates rooms and starts one
  \<open>LabSession\<close> after the other. The view is state of the page that its sessions patch, so a
  session's step runs on the page's view and gives it back. A click only has an effect
  where the button or field is enabled.
\<close>

section \<open>The page\<close>

record lab_page =
  pg_room :: jstr
  pg_source :: media_source
  pg_relay :: bool
  pg_view :: lab_view
  pg_text :: jstr
  pg_creating :: bool
  pg_sessions :: "lab list"  \<comment> \<open>started so far; \<open>session.current\<close> is the last\<close>
  pg_mounted :: bool

definition lab_page_init :: lab_page where
  "lab_page_init = \<lparr>pg_room = [], pg_source = CameraSource, pg_relay = False, pg_view = initial_view,
     pg_text = [], pg_creating = False, pg_sessions = [], pg_mounted = True\<rparr>"

definition lab_active :: "lab_page \<Rightarrow> bool" where
  "lab_active p \<longleftrightarrow> vw_phase (pg_view p) \<notin> {Idle, LabEnded, LabError}"

text \<open>\<open>/^[a-f0-9]{32}$/.test(room)\<close>\<close>

definition room_code :: "jstr \<Rightarrow> bool" where
  "room_code r \<longleftrightarrow> length r = 32 \<and> list_all (\<lambda>u. is_digit u \<or> (0x61 \<le> u \<and> u \<le> 0x66)) r"

text \<open>The answer to \<open>create\<close>: an error message wherever the source throws.\<close>

definition room_created :: "jstr reply \<Rightarrow> lab_page \<Rightarrow> lab_page" where
  "room_created r p =
     (let set_error = (\<lambda>e p. p\<lparr>pg_view := (pg_view p)\<lparr>vw_error := e\<rparr>\<rparr>) in
      (case r of
         NetworkError \<Rightarrow> set_error EngineError p
       | Response n b \<Rightarrow>
           if \<not> ok_status n then set_error
             (Shown (lit ''Could not create a room. Check the API or try again shortly.'')) p
           else (case b of None \<Rightarrow> set_error EngineError p
             | Some room \<Rightarrow> set_error NoError (p\<lparr>pg_room := room\<rparr>)))\<lparr>pg_creating := False\<rparr>)"

text \<open>An event of session \<open>i\<close>, run on the page's view.\<close>

definition session_at :: "nat \<Rightarrow> lab_event \<Rightarrow> lab_page \<Rightarrow> lab_page" where
  "session_at i e p = (if i < length (pg_sessions p)
     then (let s = lab_step ((pg_sessions p ! i)\<lparr>la_view := pg_view p\<rparr>) e in
       p\<lparr>pg_sessions := (pg_sessions p)[i := s], pg_view := la_view s\<rparr>) else p)"

text \<open>\<open>session.current?.close()\<close> and the other calls on the current session.\<close>

definition on_current :: "lab_event \<Rightarrow> lab_page \<Rightarrow> lab_page" where
  "on_current e p = (if pg_sessions p = [] then p else session_at (length (pg_sessions p) - 1) e p)"

definition lab_join :: "bool \<Rightarrow> bool \<Rightarrow> lab_page \<Rightarrow> lab_page" where
  "lab_join url_ok ice_ok p =
     (let p = on_current ClickLeave p;
          s = lab_start (pg_room p) (pg_source p) (pg_relay p) url_ok ice_ok
      in p\<lparr>pg_sessions := pg_sessions p @ [s], pg_view := la_view s\<rparr>)"

datatype page_event = PgCreate | PgCreated "jstr reply" | PgRoom jstr | PgSource media_source
  | PgRelay bool | PgJoin bool bool | PgMute | PgCamera | PgLeave
  | PgText jstr | PgSubmit nat | PgSession nat lab_event | PgUnmount

fun page_step :: "lab_page \<Rightarrow> page_event \<Rightarrow> lab_page" where
  "page_step p PgCreate = (if lab_active p \<or> pg_creating p then p else p\<lparr>pg_creating := True\<rparr>)"
| "page_step p (PgCreated r) = (if pg_creating p then room_created r p else p)"
| "page_step p (PgRoom t) = (if lab_active p then p else p\<lparr>pg_room := trim t\<rparr>)"
| "page_step p (PgSource src) = (if lab_active p then p else p\<lparr>pg_source := src\<rparr>)"
| "page_step p (PgRelay b) = (if lab_active p then p else p\<lparr>pg_relay := b\<rparr>)"
| "page_step p (PgJoin u i) = (if lab_active p \<or> \<not> room_code (pg_room p) then p else lab_join u i p)"
| "page_step p PgMute = (if lab_active p then on_current ClickMute p else p)"
| "page_step p PgCamera = (if lab_active p then on_current ClickCamera p else p)"
| "page_step p PgLeave = (if lab_active p then on_current ClickLeave p else p)"
| "page_step p (PgText t) = (if vw_channelReady (pg_view p) then p\<lparr>pg_text := t\<rparr> else p)"
| "page_step p (PgSubmit buffered) = (if \<not> vw_channelReady (pg_view p) \<or> blank (pg_text p) then p
     else (on_current (ClickChat (pg_text p) buffered) p)\<lparr>pg_text := []\<rparr>)"
| "page_step p (PgSession i e) = (if e \<in> {ClickMute, ClickCamera, ClickLeave} then p else session_at i e p)"
| "page_step p PgUnmount = (on_current ClickLeave p)\<lparr>pg_mounted := False\<rparr>"

text \<open>What can happen: no click on a page that is gone.\<close>

definition page_ok :: "lab_page \<Rightarrow> page_event \<Rightarrow> bool" where
  "page_ok p e \<longleftrightarrow> pg_mounted p \<or> (case e of PgSession _ _ \<Rightarrow> True | PgCreated _ \<Rightarrow> True | _ \<Rightarrow> False)"

section \<open>The phase a session shows\<close>

definition phase_ok :: "lab \<Rightarrow> bool" where
  "phase_ok s \<longleftrightarrow> vw_phase (la_view s) \<noteq> Idle
     \<and> (la_stopped s \<longleftrightarrow> vw_phase (la_view s) \<in> {LabEnded, LabError})"

lemma phase_frame [simp]:
  "phase_ok (s\<lparr>la_next := n\<rparr>) = phase_ok s" "phase_ok (s\<lparr>la_queue := fs\<rparr>) = phase_ok s"
  "phase_ok (s\<lparr>la_handling := b\<rparr>) = phase_ok s" "phase_ok (s\<lparr>la_tasks := q\<rparr>) = phase_ok s"
  "phase_ok (s\<lparr>la_peer := p, la_pendingICE := cs\<rparr>) = phase_ok s" "phase_ok (s\<lparr>la_received := cs\<rparr>) = phase_ok s"
  "phase_ok (s\<lparr>la_devices := d\<rparr>) = phase_ok s" "phase_ok (s\<lparr>la_socket := sk\<rparr>) = phase_ok s"
  "phase_ok (s\<lparr>la_socket := sk, la_heartbeat := h\<rparr>) = phase_ok s" "phase_ok (s\<lparr>la_capture := c\<rparr>) = phase_ok s"
  "phase_ok (s\<lparr>la_peer := p, la_stats := b\<rparr>) = phase_ok s" "phase_ok (s\<lparr>la_channels := ch\<rparr>) = phase_ok s"
  "phase_ok (s\<lparr>la_messages := ms\<rparr>) = phase_ok s" "phase_ok (s\<lparr>la_log := ls\<rparr>) = phase_ok s"
  "phase_ok (s\<lparr>la_devices := d, la_remote := r\<rparr>) = phase_ok s"
  "phase_ok (s\<lparr>la_devices := d, la_log := ls\<rparr>) = phase_ok s"
  "phase_ok (s\<lparr>la_received := cs, la_pendingICE := ps\<rparr>) = phase_ok s"
  "phase_ok (lab_fx f s) = phase_ok s" "phase_ok (lab_await k s) = phase_ok s"
  "phase_ok (lab_handled s) = phase_ok s" "phase_ok (bind_channel bc s) = phase_ok s"
  "phase_ok (lab_send t pl s) = phase_ok s"
  by (simp_all add: phase_ok_def lab_fx_def lab_await_def lab_handled_def bind_channel_def lab_send_def)

lemma phase_view: "vw_phase (f (la_view s)) = vw_phase (la_view s) \<Longrightarrow> phase_ok (update_view f s) = phase_ok s"
  by (simp add: phase_ok_def update_view_def)

lemma phase_set:
  "\<not> la_stopped s \<Longrightarrow> vw_phase (f (la_view s)) \<notin> {Idle, LabEnded, LabError} \<Longrightarrow> phase_ok (update_view f s)"
  by (simp add: phase_ok_def update_view_def)

lemma phase_close: "phase_ok s \<Longrightarrow> phase_ok (lab_close s)"
  by (cases "la_stopped s") (simp_all add: phase_ok_def close_fields)

lemma phase_fail: "phase_ok s \<Longrightarrow> phase_ok (lab_fail e s)"
  by (cases "la_stopped s") (simp_all add: lab_fail_def phase_ok_def update_view_def)

lemma phase_throws: "phase_ok s \<Longrightarrow> phase_ok (handler_throws e s)"
  by (simp add: handler_throws_def phase_fail)

lemma phase_got_media: "phase_ok s \<Longrightarrow> phase_ok (got_media env s)"
  by (auto simp: got_media_def Let_def phase_fail phase_set split: prod.split option.split)

lemma phase_match_ended: "phase_ok (on_match_ended s)"
  by (simp add: on_match_ended_def) (simp add: phase_ok_def update_view_def)

lemma phase_connection_ready: "phase_ok s \<Longrightarrow> \<not> la_stopped s \<Longrightarrow> phase_ok (on_connection_ready p s)"
  by (auto simp: on_connection_ready_def phase_throws Let_def phase_set split: option.split)

lemma phase_match_found: "phase_ok s \<Longrightarrow> \<not> la_stopped s \<Longrightarrow> phase_ok (on_match_found p s)"
  by (auto simp: on_match_found_def Let_def intro!: phase_throws phase_set)

lemma phase_receive: "phase_ok s \<Longrightarrow> \<not> la_stopped s \<Longrightarrow> phase_ok (receive e s)"
  by (auto simp: receive_def phase_throws phase_connection_ready phase_match_found on_description_def
      on_candidate_def phase_match_ended split: option.split)

lemma phase_on_frame: "phase_ok s \<Longrightarrow> phase_ok (on_frame f s)"
  by (auto simp: on_frame_def Let_def phase_throws phase_receive split: frame.split option.split)

lemma phase_drain: "phase_ok s \<Longrightarrow> phase_ok (lab_drain fs s)"
  by (induction fs s rule: lab_drain.induct) (simp_all add: phase_on_frame)

lemma phase_add_candidates: "phase_ok (add_candidates offer cs s) = phase_ok s"
  by (cases cs) simp_all

lemma phase_handler: "phase_ok s \<Longrightarrow> phase_ok (lab_handler k out s)"
  by (cases k) (auto simp: phase_throws phase_add_candidates remote_set_def split: lab_outcome.split)

lemma phase_inspect_stat: "phase_ok (snd (inspect_stat r v a)) = phase_ok (snd a)"
  by (auto simp: inspect_stat_def Let_def phase_view split: option.split)

lemma phase_inspect: "phase_ok s \<Longrightarrow> phase_ok (inspect_report r s)"
proof -
  have "phase_ok (snd (fold (inspect_stat r) vs a)) = phase_ok (snd a)" for vs a
    by (induction vs arbitrary: a) (simp_all add: phase_inspect_stat)
  from this [of "map snd r" "(0, s)"] show "phase_ok s \<Longrightarrow> phase_ok (inspect_report r s)"
    by (auto simp: inspect_report_def phase_view split: prod.split)
qed

lemma phase_resume: "phase_ok s \<Longrightarrow> phase_ok (lab_resume k out s)"
  by (cases k; cases out)
     (simp_all add: lab_resume_def Let_def phase_got_media phase_fail phase_inspect phase_drain phase_handler
       del: lab_handler.simps)

lemma phase_controls: "phase_ok s \<Longrightarrow> phase_ok (lab_mute s) \<and> phase_ok (lab_camera s)"
  by (auto simp: lab_mute_def lab_camera_def flip_tracks_def Let_def phase_view split: list.split)

lemma phase_add_chat: "phase_ok (add_chat c s) = phase_ok s"
  by (simp add: add_chat_def Let_def phase_view)

lemma phase_peer_state: "phase_ok s \<Longrightarrow> \<not> la_stopped s \<Longrightarrow> phase_ok (peer_state_changed st s)"
  by (auto simp: peer_state_changed_def Let_def phase_view intro!: phase_fail phase_set)

lemma phase_step: "phase_ok s \<Longrightarrow> phase_ok (lab_step s e)"
proof -
  assume ok: "phase_ok s"
  have socket: "phase_ok (socket_step e s)"
    using ok by (cases e) (auto simp: socket_step_def phase_drain phase_fail)
  have peer: "phase_ok t \<Longrightarrow> phase_ok (peer_step e t)" for t
    by (cases e) (auto simp: peer_step_def remote_track_def Let_def split_beta phase_view phase_peer_state)
  have channel: "phase_ok t \<Longrightarrow> phase_ok (channel_step e t)" for t
    by (cases e) (auto simp: channel_step_def phase_view phase_add_chat)
  show ?thesis
    using ok channel [OF peer [OF socket]]
    by (cases e) (auto simp: lab_step_def phase_resume lab_inspect_def lab_chat_def phase_add_chat
        phase_controls phase_close split: option.split)
qed

section \<open>One session at a time\<close>

definition is_off :: "lab \<Rightarrow> bool" where
  "is_off s \<longleftrightarrow> la_stopped s \<and> live_set (la_devices s) = {}"

definition page_inv :: "lab_page \<Rightarrow> bool" where
  "page_inv p \<longleftrightarrow> list_all lab_inv (pg_sessions p)
     \<and> list_all la_stopped (butlast (pg_sessions p))
     \<and> (if pg_sessions p = [] then vw_phase (pg_view p) = Idle
        else phase_ok (last (pg_sessions p)\<lparr>la_view := pg_view p\<rparr>))
     \<and> (pg_mounted p \<or> list_all la_stopped (pg_sessions p))"

lemma page_active:
  "page_inv p \<Longrightarrow> lab_active p \<longleftrightarrow> pg_sessions p \<noteq> [] \<and> \<not> la_stopped (last (pg_sessions p))"
  by (auto simp: page_inv_def lab_active_def phase_ok_def split: if_splits)

lemma page_fields [simp]:
  "page_inv (p\<lparr>pg_creating := b\<rparr>) = page_inv p" "page_inv (p\<lparr>pg_room := r\<rparr>) = page_inv p"
  "page_inv (p\<lparr>pg_source := s\<rparr>) = page_inv p" "page_inv (p\<lparr>pg_relay := b\<rparr>) = page_inv p"
  "page_inv (p\<lparr>pg_text := t\<rparr>) = page_inv p"
  by (simp_all add: page_inv_def)

lemma page_error: "page_inv (p\<lparr>pg_view := (pg_view p)\<lparr>vw_error := e\<rparr>\<rparr>) = page_inv p"
  by (simp add: page_inv_def phase_ok_def)

lemma page_created: "page_inv p \<Longrightarrow> page_inv (room_created r p)"
proof -
  assume inv: "page_inv p"
  have "page_inv (p\<lparr>pg_room := x, pg_view := (pg_view p)\<lparr>vw_error := e\<rparr>\<rparr>)" for x e
    using inv page_error [where p = "p\<lparr>pg_room := x\<rparr>" and e = e] by simp
  then show ?thesis using inv by (auto simp: room_created_def Let_def page_error split: reply.split option.split)
qed

lemma page_current:
  assumes inv: "page_inv p"
  shows "page_inv (on_current e p)"
proof (cases "pg_sessions p" rule: rev_cases)
  case (snoc ss s)
  let ?t = "lab_step (s\<lparr>la_view := pg_view p\<rparr>) e"
  have on: "on_current e p = p\<lparr>pg_sessions := ss @ [?t], pg_view := la_view ?t\<rparr>"
    by (simp add: on_current_def session_at_def snoc Let_def)
  have view: "?t\<lparr>la_view := la_view ?t\<rparr> = ?t" by simp
  have "lab_inv ?t" and "phase_ok ?t"
    using inv by (auto simp: page_inv_def snoc intro!: lab_inv_step phase_step)
  moreover have "la_stopped ?t" if "la_stopped s"
  proof (cases "e \<in> {ClickMute, ClickCamera}")
    case True
    then show ?thesis using that
      by (auto simp: lab_step_def lab_mute_def lab_camera_def flip_tracks_def Let_def split: list.split)
  next
    case False
    then show ?thesis
      using over_step [of "s\<lparr>la_view := pg_view p\<rparr>" e] inv that
      by (simp add: page_inv_def snoc outside_def)
  qed
  ultimately show "page_inv (on_current e p)"
    using inv by (auto simp: page_inv_def on snoc)
qed (use inv in \<open>simp add: on_current_def\<close>)

lemma page_leave: "page_inv p \<Longrightarrow> list_all la_stopped (pg_sessions (on_current ClickLeave p))"
  by (cases "pg_sessions p" rule: rev_cases)
     (auto simp: page_inv_def on_current_def session_at_def Let_def lab_step_def)

lemma page_session:
  assumes inv: "page_inv p" and e: "e \<notin> {ClickMute, ClickCamera}"
  shows "page_inv (session_at i e p)"
proof (cases "Suc i < length (pg_sessions p)")
  case True
  let ?s = "(pg_sessions p ! i)\<lparr>la_view := pg_view p\<rparr>"
  have "butlast (pg_sessions p) ! i \<in> set (butlast (pg_sessions p))" using True by (intro nth_mem) simp
  then have over: "la_stopped ?s" using inv True by (auto simp: page_inv_def list_all_iff nth_butlast)
  have "lab_inv ?s" using inv True by (simp add: page_inv_def list_all_length)
  then have same: "outside (lab_step ?s e) = outside ?s" and "lab_inv (lab_step ?s e)"
    using over_step [of ?s e] over e lab_inv_step [of ?s e] by auto
  have last: "last ((pg_sessions p)[i := x]) = last (pg_sessions p)" for x
    using True by (subst last_list_update) auto
  show ?thesis
    using inv True over same \<open>lab_inv (lab_step ?s e)\<close>
    by (auto simp: page_inv_def session_at_def Let_def outside_def last butlast_list_update list_all_iff
        dest!: set_update_subset_insert [THEN subsetD] split: if_splits)
next
  case False
  then have "session_at i e p = (if Suc i = length (pg_sessions p) then on_current e p else p)"
    by (auto simp: session_at_def on_current_def dest: sym)
  then show ?thesis using inv page_current [OF inv] by simp
qed

lemma page_join: "page_inv p \<Longrightarrow> pg_mounted p \<Longrightarrow> page_inv (lab_join u i p)"
  using page_current [of p ClickLeave] page_leave [of p] lab_inv_start
  by (auto simp: page_inv_def lab_join_def Let_def on_current_def session_at_def phase_ok_def lab_start_def)

lemma page_unmount: "page_inv p \<Longrightarrow> list_all la_stopped (pg_sessions p) \<Longrightarrow> page_inv (p\<lparr>pg_mounted := False\<rparr>)"
  by (simp add: page_inv_def)

lemma page_step_inv: "page_inv p \<Longrightarrow> page_ok p e \<Longrightarrow> page_inv (page_step p e)"
  by (cases e) (auto simp: page_ok_def page_created page_current page_session page_join page_unmount page_leave)

interpretation lab_page: machine page_step page_ok page_inv
  by unfold_locales (rule page_step_inv)

lemma page_inv_init: "page_inv lab_page_init"
  by (simp add: page_inv_def lab_page_init_def initial_view_def)

text \<open>C24: The lab page runs one session at a time: every session but the current one is over
  and has its camera and microphone off; the page's controls are enabled (and its Join and
  room fields disabled) exactly while the current session is live; and when the page is
  gone every session is over and every device is off. A late answer to Create room, or any
  event of an abandoned session, cannot break this.\<close>

theorem one_lab_session:
  assumes "reachable page_step page_ok lab_page_init p"
  shows "list_all is_off (butlast (pg_sessions p))
    \<and> (lab_active p \<longleftrightarrow> pg_sessions p \<noteq> [] \<and> \<not> la_stopped (last (pg_sessions p)))
    \<and> (pg_mounted p \<or> list_all is_off (pg_sessions p))"
proof -
  have inv: "page_inv p" using assms page_inv_init by (rule lab_page.inv_reachable)
  have off: "is_off s" if "s \<in> set (pg_sessions p)" "la_stopped s" for s
    using inv that over_state(1) [of s] by (auto simp: page_inv_def list_all_iff is_off_def)
  show ?thesis
    using inv page_active [OF inv] off
    by (auto simp: page_inv_def list_all_iff dest: in_set_butlastD)
qed

definition lab_visit :: "page_event list" where
  "lab_visit = [PgRoom (lit ''0123456789abcdef0123456789abcdef''), PgJoin True True,
     PgSession 0 (LabResume 0 (LabMedia \<lparr>me_granted = True, me_context = True, me_audio = AudioOk\<rparr>)),
     PgLeave, PgJoin True True,
     PgSession 1 (LabResume 0 (LabMedia \<lparr>me_granted = True, me_context = True, me_audio = AudioOk\<rparr>))]"

lemma one_lab_session_witness:
  "is_off (pg_sessions (run page_step lab_page_init lab_visit) ! 0)
   \<and> lab_active (run page_step lab_page_init lab_visit)"
proof -
  let ?p = "run page_step lab_page_init lab_visit"
  have "admissible page_step page_ok lab_page_init lab_visit" by code_simp
  then have "reachable page_step page_ok lab_page_init ?p" by (rule admissible_reachable)
  note one = one_lab_session [OF this]
  have "length (pg_sessions ?p) = 2" and "\<not> la_stopped (last (pg_sessions ?p))" by code_simp+
  then show ?thesis
    using one by (auto simp: list_all_length nth_butlast)
qed

end
