(* ===== verification/Lab_Screen.thy ===== *)
theory Lab_Screen
  imports Networking_Lab
begin

text \<open>
  What the networking lab page shows (the markup of \<open>components/video/lab.tsx\<close>): its controls with
  their labels and whether they are enabled, the two videos, and the texts of the state.
\<close>

section \<open>The page as data\<close>

text \<open>The phases as \<open>lab-session.ts\<close> writes them; a peer connection's own state is shown as it is.\<close>

definition phase_text :: "lab_phase \<Rightarrow> jstr" where
  "phase_text ph = (case ph of Idle \<Rightarrow> lit ''idle'' | AcquiringMedia \<Rightarrow> lit ''acquiring media''
     | ConnectingSignaling \<Rightarrow> lit ''connecting signaling'' | WaitingForPeer \<Rightarrow> lit ''waiting for peer''
     | Negotiating \<Rightarrow> lit ''negotiating'' | PeerPhase st \<Rightarrow> st | LabError \<Rightarrow> lit ''error'' | LabEnded \<Rightarrow> lit ''ended'')"

record control =
  ct_label :: jstr
  ct_enabled :: bool

definition control_of :: "jstr \<Rightarrow> bool \<Rightarrow> control" where
  "control_of l e = \<lparr>ct_label = l, ct_enabled = e\<rparr>"

text \<open>\<open>Video\<close>: the element plays the stream of its prop; only the remote one has controls.\<close>

record video_view =
  vv_stream :: "stream option"
  vv_label :: jstr
  vv_muted :: bool
  vv_controls :: bool

definition show_video :: "stream option \<Rightarrow> bool \<Rightarrow> jstr \<Rightarrow> video_view" where
  "show_video st muted l = \<lparr>vv_stream = st, vv_label = l, vv_muted = muted, vv_controls = (\<not> muted)\<rparr>"

record lab_setup =
  ls_create :: control
  ls_room :: "jstr \<times> bool"            \<comment> \<open>the text and whether the field is enabled\<close>
  ls_source :: "media_source \<times> bool"
  ls_relay :: "bool \<times> bool"
  ls_join :: control

record lab_screen =
  sc_setup :: lab_setup
  sc_phase :: jstr
  sc_alert :: "shown_error option"
  sc_videos :: "video_view list"
  sc_controls :: "control list"
  sc_pair :: jstr
  sc_bytes :: nat
  sc_channel :: jstr
  sc_chat :: "(jstr \<times> jstr) list"
  sc_message :: "jstr \<times> bool"
  sc_send :: control

definition show_setup :: "lab_page \<Rightarrow> lab_setup" where
  "show_setup p = \<lparr>ls_create = control_of (if pg_creating p then lit ''Creating'' @ ellipsis else lit ''Create room'')
       (\<not> (lab_active p \<or> pg_creating p)),
     ls_room = (pg_room p, \<not> lab_active p), ls_source = (pg_source p, \<not> lab_active p), ls_relay = (pg_relay p, \<not> lab_active p),
     ls_join = control_of (lit ''Join room'') (\<not> (lab_active p \<or> \<not> room_code (pg_room p)))\<rparr>"

text \<open>Mute, camera, leave.\<close>

definition show_controls :: "lab_page \<Rightarrow> control list" where
  "show_controls p = (let v = pg_view p in
     [control_of (if vw_muted v then lit ''Unmute'' else lit ''Mute'') (lab_active p),
      control_of (if vw_cameraEnabled v then lit ''Camera off'' else lit ''Camera on'') (lab_active p),
      control_of (lit ''Leave'') (lab_active p)])"

definition show_lab :: "lab_page \<Rightarrow> lab_screen" where
  "show_lab p = (let v = pg_view p in
     \<lparr>sc_setup = show_setup p, sc_phase = phase_text (vw_phase v),
      sc_alert = (if vw_error v = NoError then None else Some (vw_error v)),
      sc_videos = [show_video (vw_remote v) False (lit ''Remote video''), show_video (vw_local v) True (lit ''Local preview'')],
      sc_controls = show_controls p, sc_pair = vw_transport v, sc_bytes = vw_receivedBytes v,
      sc_channel = (if vw_channelReady v then lit ''DataChannel open'' else lit ''Waiting for DataChannel''),
      sc_chat = map (\<lambda>c. ((case ch_from c of You \<Rightarrow> lit ''You'' | Peer \<Rightarrow> lit ''Peer''), ch_text c)) (vw_messages v),
      sc_message = (pg_text p, vw_channelReady v),
      sc_send = control_of (lit ''Send'') (\<not> (\<not> vw_channelReady v \<or> blank (pg_text p)))\<rparr>)"

section \<open>The controls tell the truth\<close>

text \<open>A control that is shown disabled does nothing.\<close>

lemma disabled_does_nothing:
  "\<not> ct_enabled (ls_create (sc_setup (show_lab p))) \<Longrightarrow> page_step p PgCreate = p"
  "\<not> snd (ls_room (sc_setup (show_lab p))) \<Longrightarrow> page_step p (PgRoom t) = p"
  "\<not> snd (ls_source (sc_setup (show_lab p))) \<Longrightarrow> page_step p (PgSource src) = p"
  "\<not> snd (ls_relay (sc_setup (show_lab p))) \<Longrightarrow> page_step p (PgRelay b) = p"
  "\<not> ct_enabled (ls_join (sc_setup (show_lab p))) \<Longrightarrow> page_step p (PgJoin u i) = p"
  "\<not> list_all ct_enabled (sc_controls (show_lab p)) \<Longrightarrow> e \<in> {PgMute, PgCamera, PgLeave} \<Longrightarrow> page_step p e = p"
  "\<not> snd (sc_message (show_lab p)) \<Longrightarrow> page_step p (PgText t) = p"
  "\<not> ct_enabled (sc_send (show_lab p)) \<Longrightarrow> page_step p (PgSubmit n) = p"
  by (auto simp: show_lab_def show_setup_def show_controls_def control_of_def Let_def)

text \<open>An enabled \<^emph>\<open>Join room\<close> starts a session, and the setup is locked exactly while one is live.\<close>

lemma join_starts:
  "ct_enabled (ls_join (sc_setup (show_lab p))) \<Longrightarrow> length (pg_sessions (page_step p (PgJoin u i))) = Suc (length (pg_sessions p))"
proof -
  have "length (pg_sessions (session_at j e q)) = length (pg_sessions q)" for j e q by (simp add: session_at_def Let_def)
  then have "length (pg_sessions (on_current e q)) = length (pg_sessions q)" for e q by (simp add: on_current_def)
  then show "ct_enabled (ls_join (sc_setup (show_lab p))) \<Longrightarrow> length (pg_sessions (page_step p (PgJoin u i))) = Suc (length (pg_sessions p))"
    by (auto simp: show_lab_def show_setup_def control_of_def lab_join_def Let_def)
qed

lemma setup_or_controls: "snd (ls_room (sc_setup (show_lab p))) \<longleftrightarrow> \<not> list_all ct_enabled (sc_controls (show_lab p))"
  by (simp add: show_lab_def show_setup_def show_controls_def control_of_def Let_def)

end
