(* ===== verification/Preferences.thy ===== *)
theory Preferences
  imports Web_Prelude
begin

text \<open>
  \<open>lib/preferences.ts\<close> and the choice of languages and interests that the onboarding form
  (\<open>onboarding.tsx\<close>) and the profile editor (\<open>profile.tsx\<close>) each write in their own way. The
  locale \<open>choice\<close> is what both promise: a limited selection without repetitions.
\<close>

section \<open>Profiles\<close>

record profile =
  pf_id :: jstr
  pf_displayName :: jstr
  pf_avatarUrl :: jstr
  pf_bio :: jstr
  pf_countryCode :: jstr
  pf_interests :: "jstr list"
  pf_languages :: "jstr list"
  pf_discoveryIntent :: jstr

definition intents :: "jstr list" where
  "intents = map lit [''surprise_me'', ''new_friends'', ''dating'', ''gaming'', ''language_exchange'',
     ''tech_ideas'', ''professional_networking'']"

definition languages :: "jstr list" where
  "languages = map lit [''en'', ''hi'', ''bn'', ''es'', ''fr'', ''de'', ''ja'']"

definition interests :: "jstr list" where
  "interests = map lit [''ai'', ''art'', ''books'', ''films'', ''fitness'', ''gaming'', ''music'',
     ''nature'', ''photography'', ''science'', ''technology'', ''travel'']"

definition profile_ready :: "profile \<Rightarrow> bool" where
  "profile_ready p \<longleftrightarrow> \<not> blank (pf_displayName p) \<and> pf_discoveryIntent p \<noteq> [] \<and> pf_languages p \<noteq> []"

text \<open>\<open>toUpperCase\<close> of one code unit: the ASCII and Latin-1 letters that map to one unit.\<close>

definition upper :: "code_unit \<Rightarrow> code_unit" where
  "upper u = (if (0x61 \<le> u \<and> u \<le> 0x7A) \<or> (0xE0 \<le> u \<and> u \<le> 0xFE \<and> u \<noteq> 0xF7) then u - 0x20 else u)"

definition capitalise :: "jstr \<Rightarrow> jstr" where
  "capitalise s = (case s of [] \<Rightarrow> [] | u # t \<Rightarrow> upper u # t)"

definition interest_label :: "jstr \<Rightarrow> jstr" where
  "interest_label v = (if v = lit ''ai'' then lit ''AI'' else capitalise v)"

text \<open>\<open>split("_")\<close> and the label discovery shows.\<close>

fun split_at :: "code_unit \<Rightarrow> jstr \<Rightarrow> jstr list" where
  "split_at c [] = [[]]"
| "split_at c (u # s) = (if u = c then [] # split_at c s
     else (case split_at c s of w # ws \<Rightarrow> (u # w) # ws | [] \<Rightarrow> [[u]]))"

fun join_with :: "jstr \<Rightarrow> jstr list \<Rightarrow> jstr" where
  "join_with d [] = []"
| "join_with d [w] = w"
| "join_with d (w # ws) = w @ d @ join_with d ws"

definition label :: "jstr \<Rightarrow> jstr" where
  "label v = join_with (lit '' '') (map capitalise (split_at 0x5F v))"

section \<open>Choosing\<close>

datatype field = Languages | Interests

definition cap :: "field \<Rightarrow> nat" where
  "cap k = (case k of Languages \<Rightarrow> 5 | Interests \<Rightarrow> 12)"

text \<open>The onboarding form adds and cuts; the profile editor refuses beyond the limit.\<close>

definition onboarding_toggle :: "nat \<Rightarrow> 'a \<Rightarrow> 'a list \<Rightarrow> 'a list" where
  "onboarding_toggle n v xs = (if v \<in> set xs then filter (\<lambda>x. x \<noteq> v) xs else take n (xs @ [v]))"

definition profile_toggle :: "nat \<Rightarrow> 'a \<Rightarrow> 'a list \<Rightarrow> 'a list" where
  "profile_toggle n v xs = (if v \<in> set xs then filter (\<lambda>x. x \<noteq> v) xs
     else if n \<le> length xs then xs else xs @ [v])"

locale choice =
  fixes toggle :: "nat \<Rightarrow> 'a \<Rightarrow> 'a list \<Rightarrow> 'a list"
  assumes toggle_off: "v \<in> set xs \<Longrightarrow> toggle n v xs = filter (\<lambda>x. x \<noteq> v) xs"
    and toggle_on: "v \<notin> set xs \<Longrightarrow> length xs < n \<Longrightarrow> toggle n v xs = xs @ [v]"
    and toggle_full: "v \<notin> set xs \<Longrightarrow> length xs = n \<Longrightarrow> toggle n v xs = xs"
begin

text \<open>A selection that fits stays one, without repetitions.\<close>

definition fits :: "nat \<Rightarrow> 'a list \<Rightarrow> bool" where
  "fits n xs \<longleftrightarrow> distinct xs \<and> length xs \<le> n"

lemma toggle_fits:
  assumes "fits n xs"
  shows "fits n (toggle n v xs)"
proof -
  consider "v \<in> set xs" | "v \<notin> set xs" "length xs < n" | "v \<notin> set xs" "length xs = n"
    using assms by (fastforce simp: fits_def)
  then show ?thesis
    by cases (use assms in \<open>auto simp: fits_def toggle_off toggle_on toggle_full
      intro: order_trans [OF length_filter_le]\<close>)
qed

lemma toggles_fit: "fits n xs \<Longrightarrow> fits n (fold (toggle n) vs xs)"
  by (induction vs arbitrary: xs) (simp_all add: toggle_fits)

text \<open>One click flips the clicked value and leaves every other one, unless the list is full.\<close>

lemma toggle_member:
  assumes "length xs \<le> n"
  shows "w \<in> set (toggle n v xs) \<longleftrightarrow> (if w = v then v \<notin> set xs \<and> length xs < n else w \<in> set xs)"
proof -
  consider "v \<in> set xs" | "v \<notin> set xs" "length xs < n" | "v \<notin> set xs" "length xs = n"
    using assms by fastforce
  then show ?thesis by cases (auto simp: toggle_off toggle_on toggle_full)
qed

text \<open>Clicking twice restores the selection, a full list excepted.\<close>

lemma toggle_twice:
  assumes "v \<notin> set xs" and "length xs < n"
  shows "toggle n v (toggle n v xs) = xs"
proof -
  have "filter (\<lambda>x. x \<noteq> v) xs = xs" using assms(1) by (auto intro: filter_True)
  then show ?thesis using assms by (simp add: toggle_on toggle_off)
qed

end

interpretation onboarding_choice: choice onboarding_toggle
  by unfold_locales (simp_all add: onboarding_toggle_def)

interpretation profile_choice: choice profile_toggle
  by unfold_locales (simp_all add: profile_toggle_def)

lemma toggles_agree: "length xs \<le> n \<Longrightarrow> onboarding_toggle n v xs = profile_toggle n v xs"
  by (simp add: onboarding_toggle_def profile_toggle_def)

lemma toggle_length: "length xs \<le> n \<Longrightarrow> length (profile_toggle n v xs) \<le> n"
  by (auto simp: profile_toggle_def intro: order_trans [OF length_filter_le])

text \<open>C26: Onboarding and the profile editor implement the same selection: from any list within
  the limit (5 languages, 12 interests), any sequence of clicks gives the same list in the
  same order in both, it stays within the limit, and without repetitions if it had none.\<close>

theorem both_editors_choose_alike:
  assumes "length xs \<le> cap k"
  shows "fold (onboarding_toggle (cap k)) vs xs = fold (profile_toggle (cap k)) vs xs
    \<and> length (fold (profile_toggle (cap k)) vs xs) \<le> cap k
    \<and> (distinct xs \<longrightarrow> distinct (fold (profile_toggle (cap k)) vs xs))"
proof -
  have "fold (onboarding_toggle n) vs ys = fold (profile_toggle n) vs ys
    \<and> length (fold (profile_toggle n) vs ys) \<le> n" if "length ys \<le> n" for n ys
    using that by (induction vs arbitrary: ys) (auto simp: toggles_agree toggle_length)
  from this [OF assms] show ?thesis
    using profile_choice.toggles_fit [of "cap k" xs vs] assms
    by (simp add: profile_choice.fits_def)
qed

lemma both_editors_choose_alike_witness:
  "fold (onboarding_toggle (cap Languages)) (map lit [''en'', ''hi'', ''bn'', ''es'', ''en'', ''fr'', ''de'', ''ja'']) []
     = map lit [''hi'', ''bn'', ''es'', ''fr'', ''de'']
   \<and> fold (profile_toggle (cap Languages)) (map lit [''en'', ''hi'', ''bn'', ''es'', ''en'', ''fr'', ''de'', ''ja'']) []
     = map lit [''hi'', ''bn'', ''es'', ''fr'', ''de'']"
proof -
  have "fold (onboarding_toggle (cap Languages)) (map lit [''en'', ''hi'', ''bn'', ''es'', ''en'', ''fr'', ''de'', ''ja'']) []
     = map lit [''hi'', ''bn'', ''es'', ''fr'', ''de'']" by code_simp
  then show ?thesis
    using both_editors_choose_alike [of "[]" Languages "map lit [''en'', ''hi'', ''bn'', ''es'', ''en'', ''fr'', ''de'', ''ja'']"]
    by simp
qed

text \<open>The two labels of an interest differ: discovery shows "Ai" where the editors show "AI".\<close>

lemma labels_differ: "label (lit ''ai'') = lit ''Ai'' \<and> interest_label (lit ''ai'') = lit ''AI''"
  by code_simp

end
