(* ===== verification/Discovery_Client.thy ===== *)
theory Discovery_Client
  imports Signaling_Protocol Processed_Camera Preferences
begin

text \<open>
  \<open>components/discovery/discovery.tsx\<close>: queueing for a partner and the one-minute encounter.
  The record \<open>discovery\<close> holds the React state and the refs of \<open>Discovery\<close>, the tracks it can
  reach, the suspended \<open>async\<close> calls and a log of what it asks of the outside. The effect
  that copies \<open>match\<close> into \<open>matchRef\<close> runs before the next event, so both are \<open>di_match\<close>.

  Peer connections are kept in a list, because a call that was suspended still holds its
  own connection after another one (or none) has become current; \<open>di_pc\<close> is the index of
  the current one. The promise chain \<open>handling\<close> is \<open>di_queue\<close> and \<open>di_handling\<close>.
\<close>

section \<open>State\<close>

record dmatch =
  dm_id :: json
  dm_peer :: "json option"
  dm_shared :: json
  dm_intent :: "json option"
  dm_offerer :: bool
  dm_expiresAt :: "int option"  \<comment> \<open>\<open>None\<close> is \<open>NaN\<close>\<close>
  dm_extended :: bool
  dm_connected :: bool

datatype dphase = DConnecting | DReady | DQueued | DMatched | DOffline

record dpeer =
  dp_open :: bool
  dp_remote :: bool   \<comment> \<open>\<open>remoteDescription\<close> is set\<close>
  dp_sender :: bool   \<comment> \<open>it has a sender with a video track\<close>
  dp_match :: dmatch  \<comment> \<open>the encounter its handlers signal for\<close>

datatype disc_fx = GetProfile | GoTo jstr | OpenDiscovery | CloseDiscovery nat
  | Signal jstr json "json option"
  | AskMedia | AskVideo jstr | ListDevices
  | OpenPeer nat | ShutPeer nat | AddSender nat nat | SetSenderTrack nat nat
  | DSetLocal nat jstr | DSetRemote nat json | DAddIce nat json
  | SendText jstr
  | PostBlock "json option" json | PostReport "json option" json jstr jstr

datatype disc_cont =
    KProfile
  | KMedia dmatch nat | KProcess dmatch nat stream | KDevices dmatch
  | KParams dmatch nat "nat list" | KDOffer dmatch nat | KDOfferLocal dmatch jstr
  | KDRemote bool nat "json option" | KDPend bool nat "json option" "json list"
  | KDAnswer nat "json option" | KDAnswerLocal jstr "json option" | KDIce
  | KSwitch jstr nat | KSwitchCam jstr nat nat | KSwitchTrack jstr nat capture stream
  | KBlock | KReport

record preferences =
  pr_intent :: jstr
  pr_languages :: "jstr list"
  pr_interests :: "jstr list"

record discovery =
  di_socket :: "socket_state option"
  di_peers :: "dpeer list"
  di_pc :: "nat option"
  di_localStream :: "stream option"
  di_rawStream :: "stream option"
  di_capture :: "capture option"
  di_channel :: "channel_state option"
  di_generation :: nat
  di_match :: "dmatch option"
  di_requeue :: bool
  di_pendingIce :: "json list"
  di_preferences :: preferences
  di_ice :: "json option"
  di_ice_ok :: bool   \<comment> \<open>\<open>new RTCPeerConnection\<close> accepts the configuration\<close>
  di_url_ok :: bool   \<comment> \<open>\<open>new URL\<close> and \<open>new WebSocket\<close> accept the API address\<close>
  di_phase :: dphase
  di_profile :: "profile option"
  di_message :: jstr
  di_seconds :: "int option"
  di_mirror :: bool
  di_camera :: jstr
  di_chat :: "jstr list"
  di_draft :: jstr
  di_settingsOpen :: bool
  di_safetyOpen :: bool
  di_reportCategory :: jstr
  di_reportDetails :: jstr
  di_heartbeat :: bool
  di_stopped :: bool
  di_devices :: devices
  di_tasks :: "disc_cont pool"
  di_next :: nat
  di_queue :: "jstr list"
  di_handling :: bool
  di_stale :: "nat list"  \<comment> \<open>history: tracks of cameras switched to after the media was released\<close>
  di_log :: "disc_fx list"

definition disc_fx :: "disc_fx \<Rightarrow> discovery \<Rightarrow> discovery" where
  "disc_fx f s = s\<lparr>di_log := di_log s @ [f]\<rparr>"

definition disc_await :: "disc_cont \<Rightarrow> discovery \<Rightarrow> discovery" where
  "disc_await k s = s\<lparr>di_tasks := di_tasks s @ [(di_next s, k)], di_next := Suc (di_next s)\<rparr>"

definition say :: "jstr \<Rightarrow> discovery \<Rightarrow> discovery" where
  "say m s = s\<lparr>di_message := m\<rparr>"

definition disc_handled :: "discovery \<Rightarrow> discovery" where
  "disc_handled s = s\<lparr>di_handling := False\<rparr>"

text \<open>Mounting the page starts \<open>connect\<close>, which asks for the profile.\<close>

definition discovery_init :: "bool \<Rightarrow> bool \<Rightarrow> discovery" where
  "discovery_init url_ok ice_ok = \<lparr>di_socket = None, di_peers = [], di_pc = None, di_localStream = None,
     di_rawStream = None, di_capture = None, di_channel = None, di_generation = 0, di_match = None,
     di_requeue = False, di_pendingIce = [],
     di_preferences = \<lparr>pr_intent = lit ''surprise_me'', pr_languages = [lit ''en''],
       pr_interests = [lit ''music'', lit ''technology'']\<rparr>,
     di_ice = Some (JObj [(lit ''iceServers'', JArr [])]), di_ice_ok = ice_ok, di_url_ok = url_ok,
     di_phase = DConnecting, di_profile = None, di_message = lit ''Checking your session'' @ ellipsis,
     di_seconds = Some 60, di_mirror = True, di_camera = [], di_chat = [], di_draft = [],
     di_settingsOpen = False, di_safetyOpen = False, di_reportCategory = lit ''spam'', di_reportDetails = [],
     di_heartbeat = False, di_stopped = False, di_devices = [],
     di_tasks = [(0, KProfile)], di_next = 1, di_queue = [], di_handling = False, di_stale = [],
     di_log = [GetProfile]\<rparr>"

text \<open>\<open>send\<close>: a closed socket drops the frame; the envelope is \<open>discovery_text\<close>.\<close>

definition disc_send :: "string \<Rightarrow> json \<Rightarrow> json option \<Rightarrow> discovery \<Rightarrow> discovery" where
  "disc_send t payload mid s = (if di_socket s = Some SocketOpen
     then disc_fx (Signal (lit t) payload mid) s else s)"

definition preferences_json :: "preferences \<Rightarrow> json" where
  "preferences_json p = JObj [(lit ''intent'', JStr (pr_intent p)),
     (lit ''languages'', JArr (map JStr (pr_languages p))), (lit ''interests'', JArr (map JStr (pr_interests p)))]"

section \<open>Releasing\<close>

definition close_dpeer :: "nat \<Rightarrow> discovery \<Rightarrow> discovery" where
  "close_dpeer i s = (disc_fx (ShutPeer i) s)\<lparr>di_peers := (di_peers s)[i := (di_peers s ! i)\<lparr>dp_open := False\<rparr>]\<rparr>"

definition cleanup_peer :: "discovery \<Rightarrow> discovery" where
  "cleanup_peer s = (case di_pc s of None \<Rightarrow> s | Some i \<Rightarrow> close_dpeer i s)
     \<lparr>di_channel := None, di_pc := None, di_pendingIce := []\<rparr>"

definition stream_of :: "stream option \<Rightarrow> stream" where
  "stream_of st = (case st of None \<Rightarrow> [] | Some ts \<Rightarrow> ts)"

definition cleanup_media :: "discovery \<Rightarrow> discovery" where
  "cleanup_media s = s\<lparr>di_generation := Suc (di_generation s),
     di_devices := stop_tracks (stream_of (di_rawStream s)) (stop_tracks (stream_of (di_localStream s))
        (release_camera (di_capture s) (di_devices s))),
     di_capture := None, di_localStream := None, di_rawStream := None\<rparr>"

definition cleanup_encounter :: "discovery \<Rightarrow> discovery" where
  "cleanup_encounter s = cleanup_media (cleanup_peer s)"

section \<open>\<open>startCall\<close>\<close>

definition media_needed :: "discovery \<Rightarrow> discovery" where
  "media_needed s = disc_handled (say (lit ''Camera and microphone access is needed for the encounter.'') s)"

text \<open>The last part: handlers, and the offer if this side makes it. A closed connection has no
  channel to create.\<close>

definition wire_call :: "dmatch \<Rightarrow> nat \<Rightarrow> discovery \<Rightarrow> discovery" where
  "wire_call found pc s =
     (if \<not> dm_offerer found then disc_handled s
      else if \<not> dp_open (di_peers s ! pc) then media_needed s
      else disc_await (KDOffer found pc) (s\<lparr>di_channel := Some ChannelConnecting\<rparr>))"

text \<open>The loop over the tracks of the stream; a video track awaits its sender's parameters.\<close>

fun add_senders :: "dmatch \<Rightarrow> nat \<Rightarrow> nat list \<Rightarrow> discovery \<Rightarrow> discovery" where
  "add_senders found pc [] s = wire_call found pc s"
| "add_senders found pc (t # ts) s =
     (if \<not> dp_open (di_peers s ! pc) then media_needed s
      else if t < length (di_devices s) \<and> tk_kind (di_devices s ! t) = Video
      then disc_await (KParams found pc ts) ((disc_fx (AddSender pc t) s)
             \<lparr>di_peers := (di_peers s)[pc := (di_peers s ! pc)\<lparr>dp_sender := True\<rparr>]\<rparr>)
      else add_senders found pc ts (disc_fx (AddSender pc t) s))"

definition open_call :: "dmatch \<Rightarrow> discovery \<Rightarrow> discovery" where
  "open_call found s =
     (case di_localStream s of
        None \<Rightarrow> media_needed s
      | Some ts \<Rightarrow>
          if \<not> di_ice_ok s then media_needed s
          else let pc = length (di_peers s) in
            add_senders found pc ts ((disc_fx (OpenPeer pc) s)\<lparr>
              di_peers := di_peers s @ [\<lparr>dp_open = True, dp_remote = False, dp_sender = False, dp_match = found\<rparr>],
              di_pc := Some pc\<rparr>))"

definition stream_usable :: "discovery \<Rightarrow> bool" where
  "stream_usable s = (case di_localStream s of None \<Rightarrow> False
     | Some ts \<Rightarrow> list_all (live_track (di_devices s)) ts)"

definition start_encounter :: "dmatch \<Rightarrow> discovery \<Rightarrow> discovery" where
  "start_encounter found s =
     (let s = cleanup_peer s in
      if stream_usable s then open_call found s
      else let s = cleanup_media s in disc_await (KMedia found (di_generation s)) (disc_fx AskMedia s))"

definition got_raw :: "dmatch \<Rightarrow> nat \<Rightarrow> discovery \<Rightarrow> discovery" where
  "got_raw found g s =
     (let (raw, d) = both_tracks Audio Video (di_devices s) in
      if di_stopped s \<or> g \<noteq> di_generation s
      then disc_handled (s\<lparr>di_devices := stop_tracks raw d\<rparr>)
      else disc_await (KProcess found g raw) (s\<lparr>di_devices := d, di_rawStream := Some raw\<rparr>))"

text \<open>\<open>raw.getVideoTracks()[0]\<close>: the second track \<open>getUserMedia\<close> gave.\<close>

definition got_processed :: "dmatch \<Rightarrow> nat \<Rightarrow> stream \<Rightarrow> camera_env \<Rightarrow> discovery \<Rightarrow> discovery" where
  "got_processed found g raw env s =
     (case process_camera env (raw ! 1) (di_devices s) of
        (None, d) \<Rightarrow> media_needed (s\<lparr>di_devices := d\<rparr>)
      | (Some c, d) \<Rightarrow>
          if di_stopped s \<or> g \<noteq> di_generation s
          then disc_handled (s\<lparr>di_devices := stop_tracks raw (stop_capture c d)\<rparr>)
          else disc_await (KDevices found) (disc_fx ListDevices (s\<lparr>di_devices := d, di_capture := Some c,
                 di_localStream := Some (of_kind Audio d raw @ [cap_track c])\<rparr>)))"

section \<open>Server events\<close>

definition num_of :: "json option \<Rightarrow> int option" where
  "num_of v = (case v of Some (JNum n) \<Rightarrow> Some n | Some JNull \<Rightarrow> Some 0
     | Some (JBool b) \<Rightarrow> Some (if b then 1 else 0) | _ \<Rightarrow> None)"

definition read_match :: "json \<Rightarrow> json \<Rightarrow> dmatch" where
  "read_match mid p = \<lparr>dm_id = mid, dm_peer = member (lit ''peer'') p,
     dm_shared = (case member (lit ''sharedInterests'') p of None \<Rightarrow> JArr [] | Some JNull \<Rightarrow> JArr [] | Some v \<Rightarrow> v),
     dm_intent = member (lit ''intent'') p, dm_offerer = truthy (member (lit ''offerer'') p),
     dm_expiresAt = num_of (member (lit ''expiresAt'') p),
     dm_extended = (member (lit ''state'') p = Some (JStr (lit ''extended''))),
     dm_connected = truthy (member (lit ''connectionId'') p)\<rparr>"

definition error_message :: "json option \<Rightarrow> jstr" where
  "error_message c =
     (if c = Some (JStr (lit ''queue_unavailable'')) then lit ''You are already matched or temporarily unavailable.''
      else if c = Some (JStr (lit ''matchmaking_unavailable'')) then lit ''Matching is temporarily unavailable. You remain in the queue.''
      else if c = Some (JStr (lit ''match_unavailable'')) then lit ''That encounter has already ended.''
      else lit ''Discovery rejected an invalid action. Please reconnect.'')"

text \<open>\<open>incoming.matchId === matchRef.current?.id\<close>; without an encounter both may be undefined.\<close>

definition same_match :: "json option \<Rightarrow> discovery \<Rightarrow> bool" where
  "same_match mid s \<longleftrightarrow> mid = map_option dm_id (di_match s)"

definition on_dmatch_found :: "json \<Rightarrow> json \<Rightarrow> discovery \<Rightarrow> discovery" where
  "on_dmatch_found mid p s = (let found = read_match mid p in
     start_encounter found (s\<lparr>di_match := Some found, di_phase := DMatched, di_message := [], di_chat := []\<rparr>))"

definition on_ddescription :: "bool \<Rightarrow> envelope \<Rightarrow> discovery \<Rightarrow> discovery" where
  "on_ddescription offer e s = (case di_pc s of None \<Rightarrow> disc_handled s
     | Some pc \<Rightarrow> disc_await (KDRemote offer pc (env_match e)) (disc_fx (DSetRemote pc (env_payload e)) s))"

definition on_dcandidate :: "json \<Rightarrow> discovery \<Rightarrow> discovery" where
  "on_dcandidate c s = (case di_pc s of
     Some pc \<Rightarrow> if dp_remote (di_peers s ! pc) then disc_await KDIce (disc_fx (DAddIce pc c) s)
       else disc_handled (s\<lparr>di_pendingIce := di_pendingIce s @ [c]\<rparr>)
   | None \<Rightarrow> disc_handled (s\<lparr>di_pendingIce := di_pendingIce s @ [c]\<rparr>))"

definition on_dmatch_ended :: "json \<Rightarrow> discovery \<Rightarrow> discovery" where
  "on_dmatch_ended p s =
     (let s = (cleanup_encounter s)\<lparr>di_match := None, di_phase := DReady\<rparr> in
      disc_handled (if di_requeue s
        then say (lit ''Finding your next conversation'' @ ellipsis)
          (disc_send ''queue.join'' (preferences_json (di_preferences s)) None (s\<lparr>di_requeue := False\<rparr>))
        else say (if member (lit ''reason'') p = Some (JStr (lit ''expired''))
          then lit ''That minute ended. Discover again when you are ready.''
          else lit ''That encounter ended. You can discover again.'') s))"

definition on_preconnect :: "jstr \<Rightarrow> discovery \<Rightarrow> discovery" where
  "on_preconnect t s =
     (if t = lit ''match.extend_pending'' then say (lit ''Your extension choice is private. Waiting for their choice.'') s
      else if t = lit ''match.extended'' then say (lit ''You both chose to keep talking.'')
        (s\<lparr>di_match := map_option (\<lambda>m. m\<lparr>dm_extended := True\<rparr>) (di_match s)\<rparr>)
      else if t = lit ''match.connect_pending'' then say (lit ''Your Connect choice is private. They will only know if they choose it too.'') s
      else if t = lit ''connection.created'' then say (lit ''You both chose Connect. You can find each other in Connections.'')
        (s\<lparr>di_match := map_option (\<lambda>m. m\<lparr>dm_connected := True\<rparr>) (di_match s)\<rparr>)
      else if t = lit ''peer.disconnected'' then say (lit ''Their connection dropped. Their place is held for 45 seconds.'') s
      else s)"

definition on_reconnected :: "discovery \<Rightarrow> discovery" where
  "on_reconnected s =
     (let s = say (lit ''They reconnected. Restoring video'' @ ellipsis) s in
      case di_match s of None \<Rightarrow> disc_handled s | Some m \<Rightarrow> start_encounter m s)"

definition on_envelope :: "envelope \<Rightarrow> discovery \<Rightarrow> discovery" where
  "on_envelope e s =
     (let t = env_type e; p = env_payload e in
      if t = lit ''connection.ready'' then disc_handled (say
        (lit ''Your preferences are set. A new conversation is one tap away.'')
        (s\<lparr>di_ice := member (lit ''ice'') p, di_phase := DReady\<rparr>))
      else if t = lit ''queue.joined'' then disc_handled (say (lit ''Looking for someone compatible'' @ ellipsis) (s\<lparr>di_phase := DQueued\<rparr>))
      else if t = lit ''queue.left'' then disc_handled (say (lit ''You left the queue.'') (s\<lparr>di_phase := DReady\<rparr>))
      else if t = lit ''match.found'' \<and> truthy (env_match e) then on_dmatch_found (the (env_match e)) p s
      else if t = lit ''webrtc.offer'' \<and> same_match (env_match e) s then on_ddescription True e s
      else if t = lit ''webrtc.answer'' \<and> same_match (env_match e) s then on_ddescription False e s
      else if t = lit ''webrtc.ice'' \<and> same_match (env_match e) s then on_dcandidate p s
      else if t = lit ''peer.reconnected'' then on_reconnected s
      else if t = lit ''match.ended'' then on_dmatch_ended p s
      else if t = lit ''error'' then disc_handled (say (error_message (member (lit ''code'') p)) s)
      else disc_handled (on_preconnect t s))"

definition on_data :: "jstr \<Rightarrow> discovery \<Rightarrow> discovery" where
  "on_data data s =
     (let s = s\<lparr>di_handling := True\<rparr> in
      if di_stopped s \<or> di_socket s \<noteq> Some SocketOpen then disc_handled s
      else (case discovery_parse data of
          None \<Rightarrow> disc_handled ((disc_fx (CloseDiscovery 1002) s)\<lparr>di_socket := Some SocketClosed\<rparr>)
        | Some e \<Rightarrow> on_envelope e s))"

fun disc_drain :: "jstr list \<Rightarrow> discovery \<Rightarrow> discovery" where
  "disc_drain [] s = s\<lparr>di_queue := []\<rparr>"
| "disc_drain (t # ts) s = (if di_handling s then s\<lparr>di_queue := t # ts\<rparr> else disc_drain ts (on_data t s))"

section \<open>After an await\<close>

datatype disc_outcome = DDone | DCamera camera_env | DSdp jstr | DProfile "profile reply"
  | DReply bool | DFailed

definition reconnect_failed :: "discovery \<Rightarrow> discovery" where
  "reconnect_failed s = disc_handled (if di_stopped s then s
     else say (lit ''Media could not reconnect. Leave this encounter and try again.'') s)"

text \<open>\<open>applyPendingIce\<close> swallows the failure of a candidate.\<close>

fun apply_pending :: "bool \<Rightarrow> nat \<Rightarrow> json option \<Rightarrow> json list \<Rightarrow> discovery \<Rightarrow> discovery" where
  "apply_pending offer pc mid [] s = (if offer then disc_await (KDAnswer pc mid) s else disc_handled s)"
| "apply_pending offer pc mid (c # cs) s = disc_await (KDPend offer pc mid cs) (disc_fx (DAddIce pc c) s)"

definition dremote_set :: "bool \<Rightarrow> nat \<Rightarrow> json option \<Rightarrow> discovery \<Rightarrow> discovery" where
  "dremote_set offer pc mid s = apply_pending offer pc mid (di_pendingIce s)
     (s\<lparr>di_peers := (di_peers s)[pc := (di_peers s ! pc)\<lparr>dp_remote := True\<rparr>], di_pendingIce := []\<rparr>)"

fun disc_handler :: "disc_cont \<Rightarrow> disc_outcome \<Rightarrow> discovery \<Rightarrow> discovery" where
  "disc_handler (KMedia found g) out s = (if out = DFailed then media_needed s else got_raw found g s)"
| "disc_handler (KProcess found g raw) out s = (case out of
     DCamera env \<Rightarrow> got_processed found g raw env s | _ \<Rightarrow> media_needed s)"
| "disc_handler (KDevices found) out s = (if out = DFailed then media_needed s else open_call found s)"
| "disc_handler (KParams found pc ts) out s = (if out = DFailed then media_needed s else add_senders found pc ts s)"
| "disc_handler (KDOffer found pc) out s = (case out of
     DSdp o' \<Rightarrow> disc_await (KDOfferLocal found o') (disc_fx (DSetLocal pc o') s) | _ \<Rightarrow> media_needed s)"
| "disc_handler (KDOfferLocal found o') out s = (if out = DFailed then media_needed s
     else disc_handled (disc_send ''webrtc.offer'' (JObj [(lit ''type'', JStr (lit ''offer'')), (lit ''sdp'', JStr o')])
       (Some (dm_id found)) s))"
| "disc_handler (KDRemote offer pc mid) out s = (if out = DFailed then reconnect_failed s
     else dremote_set offer pc mid s)"
| "disc_handler (KDPend offer pc mid cs) out s = apply_pending offer pc mid cs s"
| "disc_handler (KDAnswer pc mid) out s = (case out of
     DSdp a \<Rightarrow> disc_await (KDAnswerLocal a mid) (disc_fx (DSetLocal pc a) s) | _ \<Rightarrow> reconnect_failed s)"
| "disc_handler (KDAnswerLocal a mid) out s = (if out = DFailed then reconnect_failed s
     else disc_handled (disc_send ''webrtc.answer'' (JObj [(lit ''type'', JStr (lit ''answer'')), (lit ''sdp'', JStr a)]) mid s))"
| "disc_handler KDIce out s = disc_handled s"
| "disc_handler _ out s = s"

subsection \<open>\<open>connect\<close>\<close>

definition goto :: "string \<Rightarrow> discovery \<Rightarrow> discovery" where
  "goto p s = disc_fx (GoTo (lit p)) s"

definition connect_failed :: "discovery \<Rightarrow> discovery" where
  "connect_failed s = (if di_stopped s then s
     else say (lit ''Could not reach OneMinute. Please refresh.'') (s\<lparr>di_phase := DOffline\<rparr>))"

definition got_profile :: "profile reply \<Rightarrow> discovery \<Rightarrow> discovery" where
  "got_profile r s = (case r of
     NetworkError \<Rightarrow> connect_failed s
   | Response n b \<Rightarrow>
       if \<not> ok_status n then (if n = 401 then goto ''/'' s else connect_failed s)
       else (case b of None \<Rightarrow> connect_failed s
         | Some saved \<Rightarrow>
             if di_stopped s then s
             else let s = s\<lparr>di_profile := Some saved\<rparr> in
               if \<not> profile_ready saved then goto ''/onboarding'' s
               else let s = s\<lparr>di_preferences := \<lparr>pr_intent = pf_discoveryIntent saved,
                        pr_languages = pf_languages saved, pr_interests = pf_interests saved\<rparr>\<rparr> in
                 if \<not> di_url_ok s then connect_failed s
                 else (disc_fx OpenDiscovery s)\<lparr>di_socket := Some SocketConnecting,
                   di_ice := Some (JObj [(lit ''iceServers'', JArr [])])\<rparr>))"

subsection \<open>\<open>switchCamera\<close>\<close>

definition cannot_switch :: "discovery \<Rightarrow> discovery" where
  "cannot_switch s = say (lit ''Could not switch cameras.'') s"

definition got_switch_raw :: "jstr \<Rightarrow> nat \<Rightarrow> discovery \<Rightarrow> discovery" where
  "got_switch_raw dev g s = (let (raw, d) = open_track Video (di_devices s) in
     disc_await (KSwitchCam dev g raw) (s\<lparr>di_devices := d\<rparr>))"

definition got_switch_cam :: "jstr \<Rightarrow> nat \<Rightarrow> nat \<Rightarrow> camera_env \<Rightarrow> discovery \<Rightarrow> discovery" where
  "got_switch_cam dev g raw env s =
     (case process_camera env raw (di_devices s) of
        (None, d) \<Rightarrow> cannot_switch (s\<lparr>di_devices := d\<rparr>)
      | (Some c, d) \<Rightarrow> (case (di_localStream s, di_pc s) of
            (Some ts, Some pc) \<Rightarrow>
              if \<not> dp_sender (di_peers s ! pc) \<or> g \<noteq> di_generation s
              then s\<lparr>di_devices := stop_capture c d\<rparr>
              else disc_await (KSwitchTrack dev g c ts) (disc_fx (SetSenderTrack pc (cap_track c)) (s\<lparr>di_devices := d\<rparr>))
          | _ \<Rightarrow> s\<lparr>di_devices := stop_capture c d\<rparr>))"

text \<open>After \<open>await sender.replaceTrack\<close>: \<open>stream\<close> is the object it held before. While the media
  generation is the same that is still \<open>localStream\<close>; otherwise it is an orphan.\<close>

definition switched :: "jstr \<Rightarrow> nat \<Rightarrow> capture \<Rightarrow> stream \<Rightarrow> discovery \<Rightarrow> discovery" where
  "switched dev g c ts s =
     (let fresh = (g = di_generation s);
          cur = (if fresh then stream_of (di_localStream s) else ts);
          d = release_camera (di_capture s) (di_devices s);
          vs = of_kind Video d cur;
          s = s\<lparr>di_devices := stop_tracks vs d, di_capture := Some c, di_camera := dev\<rparr>
      in if fresh then s\<lparr>di_localStream := Some (add_track (cap_track c) (filter (\<lambda>t. t \<notin> set vs) cur))\<rparr>
         else s\<lparr>di_stale := di_stale s @ [cap_track c, cap_raw c]\<rparr>)"

fun switch_resume :: "disc_cont \<Rightarrow> disc_outcome \<Rightarrow> discovery \<Rightarrow> discovery" where
  "switch_resume (KSwitch dev g) out s = (if out = DFailed then cannot_switch s else got_switch_raw dev g s)"
| "switch_resume (KSwitchCam dev g raw) out s = (case out of
     DCamera env \<Rightarrow> got_switch_cam dev g raw env s
   | _ \<Rightarrow> cannot_switch (s\<lparr>di_devices := stop_track raw (di_devices s)\<rparr>))"
| "switch_resume (KSwitchTrack dev g c ts) out s = (if out = DFailed
     then cannot_switch (s\<lparr>di_devices := stop_capture c (di_devices s)\<rparr>) else switched dev g c ts s)"
| "switch_resume _ out s = s"

subsection \<open>Blocking and reporting\<close>

definition safety_reply :: "string \<Rightarrow> string \<Rightarrow> disc_outcome \<Rightarrow> discovery \<Rightarrow> discovery" where
  "safety_reply yes no out s = (case out of
     DReply b \<Rightarrow> if b then say (lit yes) (s\<lparr>di_safetyOpen := False\<rparr>) else say (lit no) s
   | _ \<Rightarrow> s)"

definition is_handler :: "disc_cont \<Rightarrow> bool" where
  "is_handler k \<longleftrightarrow> (case k of KProfile \<Rightarrow> False | KSwitch _ _ \<Rightarrow> False | KSwitchCam _ _ _ \<Rightarrow> False
     | KSwitchTrack _ _ _ _ \<Rightarrow> False | KBlock \<Rightarrow> False | KReport \<Rightarrow> False | _ \<Rightarrow> True)"

definition disc_resume :: "disc_cont \<Rightarrow> disc_outcome \<Rightarrow> discovery \<Rightarrow> discovery" where
  "disc_resume k out s =
     (if is_handler k then (let s = disc_handler k out s in
        if di_handling s then s else disc_drain (di_queue s) s)
      else (case k of
        KProfile \<Rightarrow> (case out of DProfile r \<Rightarrow> got_profile r s | _ \<Rightarrow> connect_failed s)
      | KBlock \<Rightarrow> safety_reply ''Blocked. You will not be matched again.'' ''Could not block this person.'' out s
      | KReport \<Rightarrow> safety_reply ''Report received. Thank you for helping keep OneMinute safe.''
          ''Could not submit the report.'' out s
      | _ \<Rightarrow> switch_resume k out s))"

section \<open>Events\<close>

datatype match_action = ActLeave | ActSkip | ActExtend | ActConnect

definition action_name :: "match_action \<Rightarrow> string" where
  "action_name a = (case a of ActLeave \<Rightarrow> ''match.leave'' | ActSkip \<Rightarrow> ''match.skip''
     | ActExtend \<Rightarrow> ''match.extend'' | ActConnect \<Rightarrow> ''match.connect'')"

text \<open>The buttons of \<open>EncounterActions\<close>: Extend and Connect are disabled once they took effect.\<close>

definition action_enabled :: "match_action \<Rightarrow> discovery \<Rightarrow> bool" where
  "action_enabled a s \<longleftrightarrow> (case di_match s of None \<Rightarrow> False
     | Some m \<Rightarrow> (a = ActExtend \<longrightarrow> \<not> dm_extended m) \<and> (a = ActConnect \<longrightarrow> \<not> dm_connected m))"

definition match_do :: "match_action \<Rightarrow> discovery \<Rightarrow> discovery" where
  "match_do a s = (case (di_socket s, di_match s) of
     (Some _, Some m) \<Rightarrow> disc_send (action_name a) (JObj []) (Some (dm_id m))
       (if a = ActSkip then s\<lparr>di_requeue := True\<rparr> else s)
   | _ \<Rightarrow> s)"

definition disc_join :: "discovery \<Rightarrow> discovery" where
  "disc_join s = (if di_socket s = Some SocketOpen
     then say (lit ''Joining discovery'' @ ellipsis) (disc_send ''queue.join'' (preferences_json (di_preferences s)) None s)
     else s)"

definition send_chat :: "discovery \<Rightarrow> discovery" where
  "send_chat s = (let text = take 500 (trim (di_draft s)) in
     if text = [] \<or> di_channel s \<noteq> Some ChannelOpen then s
     else (disc_fx (SendText text) s)\<lparr>di_chat := di_chat s @ [lit ''You: '' @ text], di_draft := []\<rparr>)"

text \<open>The countdown: \<open>Math.max(0, Math.ceil((expiresAt - Date.now()) / 1000))\<close> while the encounter is
  not extended.\<close>

definition seconds_left :: "int \<Rightarrow> int \<Rightarrow> int" where
  "seconds_left expires now = max 0 (- ((now - expires) div 1000))"

definition tick :: "int \<Rightarrow> discovery \<Rightarrow> discovery" where
  "tick now s = (case di_match s of None \<Rightarrow> s
     | Some m \<Rightarrow> if dm_extended m then s
         else s\<lparr>di_seconds := map_option (\<lambda>e. seconds_left e now) (dm_expiresAt m)\<rparr>)"

definition socket_lost :: "discovery \<Rightarrow> discovery" where
  "socket_lost s = (let s = s\<lparr>di_socket := Some SocketClosed\<rparr> in
     if di_stopped s then s
     else say (lit ''Discovery disconnected. Refresh to reconnect safely.'')
       ((cleanup_encounter s)\<lparr>di_phase := DOffline\<rparr>))"

definition disc_unmount :: "discovery \<Rightarrow> discovery" where
  "disc_unmount s = (let s = cleanup_encounter (s\<lparr>di_stopped := True, di_heartbeat := False\<rparr>) in
     case di_socket s of None \<Rightarrow> s
     | Some _ \<Rightarrow> (disc_fx (CloseDiscovery 1000) s)\<lparr>di_socket := Some SocketClosed\<rparr>)"

datatype disc_event = DiscResume nat disc_outcome
  | DiscOpened | DiscData jstr | DiscError | DiscLost | DiscHeartbeat
  | DiscCandidate nat json | DiscChannel nat | DiscChannelOpen | DiscChannelText jstr
  | TickSeconds int
  | PressJoin | PressCancel | PressAction match_action | PressChat | PressSwitch jstr
  | PressBlock | PressReport
  | EditDraft jstr | EditCategory jstr | EditDetails jstr | SetMirror bool
  | ToggleSettings bool | ToggleSafety bool
  | DiscUnmount

text \<open>A click has an effect only where its button is shown and enabled.\<close>

fun press_step :: "discovery \<Rightarrow> disc_event \<Rightarrow> discovery" where
  "press_step s PressJoin = (if di_match s = None \<and> di_phase s = DReady then disc_join s else s)"
| "press_step s PressCancel = (if di_match s = None \<and> di_phase s = DQueued
     then disc_send ''queue.leave'' (JObj []) None s else s)"
| "press_step s (PressAction a) = (if action_enabled a s then match_do a s else s)"
| "press_step s PressChat = (if di_match s = None then s else send_chat s)"
| "press_step s (PressSwitch dev) = (if di_match s = None \<or> \<not> di_settingsOpen s then s
     else disc_await (KSwitch dev (di_generation s)) (disc_fx (AskVideo dev) s))"
| "press_step s PressBlock = (case di_match s of None \<Rightarrow> s
     | Some m \<Rightarrow> disc_await KBlock (disc_fx (PostBlock (dm_peer m) (dm_id m)) s))"
| "press_step s PressReport = (case di_match s of None \<Rightarrow> s
     | Some m \<Rightarrow> disc_await KReport (disc_fx (PostReport (dm_peer m) (dm_id m) (di_reportCategory s) (di_reportDetails s)) s))"
| "press_step s (EditDraft t) = s\<lparr>di_draft := t\<rparr>"
| "press_step s (EditCategory t) = s\<lparr>di_reportCategory := t\<rparr>"
| "press_step s (EditDetails t) = s\<lparr>di_reportDetails := t\<rparr>"
| "press_step s (SetMirror b) = s\<lparr>di_mirror := b\<rparr>"
| "press_step s (ToggleSettings b) = s\<lparr>di_settingsOpen := b\<rparr>"
| "press_step s (ToggleSafety b) = s\<lparr>di_safetyOpen := b\<rparr>"
| "press_step s _ = s"

fun browser_step :: "discovery \<Rightarrow> disc_event \<Rightarrow> discovery" where
  "browser_step s DiscOpened = (if di_socket s = Some SocketConnecting
     then s\<lparr>di_socket := Some SocketOpen, di_heartbeat := True\<rparr> else s)"
| "browser_step s (DiscData t) = (if di_socket s = Some SocketOpen then disc_drain (di_queue s @ [t]) s else s)"
| "browser_step s DiscError = (if di_socket s = None then s
     else say (lit ''Could not reach discovery. Please try again.'') s)"
| "browser_step s DiscLost = (if di_socket s = None then s else socket_lost s)"
| "browser_step s DiscHeartbeat = (if di_heartbeat s then disc_send ''presence.heartbeat'' (JObj []) None s else s)"
| "browser_step s (DiscCandidate pc c) = (if pc < length (di_peers s) \<and> dp_open (di_peers s ! pc)
     then disc_send ''webrtc.ice'' c (Some (dm_id (dp_match (di_peers s ! pc)))) s else s)"
| "browser_step s (DiscChannel pc) = (if pc < length (di_peers s) \<and> dp_open (di_peers s ! pc)
     then s\<lparr>di_channel := Some ChannelConnecting\<rparr> else s)"
| "browser_step s DiscChannelOpen = (if di_channel s = Some ChannelConnecting
     then s\<lparr>di_channel := Some ChannelOpen\<rparr> else s)"
| "browser_step s (DiscChannelText t) = (if di_channel s = Some ChannelOpen
     then s\<lparr>di_chat := di_chat s @ [lit ''Them: '' @ take 500 t]\<rparr> else s)"
| "browser_step s (TickSeconds now) = (if di_stopped s then s else tick now s)"
| "browser_step s DiscUnmount = disc_unmount s"
| "browser_step s _ = s"

definition disc_step :: "discovery \<Rightarrow> disc_event \<Rightarrow> discovery" where
  "disc_step s e = (case e of
     DiscResume i out \<Rightarrow> (case take_task i (di_tasks s) of None \<Rightarrow> s
       | Some (k, q) \<Rightarrow> disc_resume k out (s\<lparr>di_tasks := q\<rparr>))
   | _ \<Rightarrow> if di_stopped s then browser_step s e else press_step (browser_step s e) e)"

end
