(* ===== verification/Discovery_Safety.thy ===== *)
theory Discovery_Safety
  imports Discovery_Client
begin

text \<open>
  Invariants of \<open>Discovery_Client\<close>. \<open>disc_inv\<close> says who owns each live track and each open
  peer connection, whatever the order of socket events, settled promises and clicks:
  \<^item> a live track belongs to the local stream, the raw stream or the capture of the page, to a
    camera switch in flight, or to a switch that completed after the media was released
    (\<open>di_stale\<close>, the one leak of the code);
  \<^item> without an encounter, offline or unmounted, the page holds no stream and no connection;
  \<^item> the handlers of server events run one at a time.

  A handler operation starts with no other handler suspended (\<open>between\<close>) and ends suspended or
  handled (\<open>disc_inv\<close>); everything else maps \<open>disc_inv\<close> to itself.
\<close>

section \<open>Invariants\<close>

definition gone :: "discovery \<Rightarrow> bool" where
  "gone s \<longleftrightarrow> di_stopped s \<or> di_phase s = DOffline \<or> di_match s = None"

definition owned :: "discovery \<Rightarrow> nat set" where
  "owned s = set (stream_of (di_localStream s)) \<union> set (stream_of (di_rawStream s)) \<union> camera_tracks (di_capture s)"

definition switching :: "disc_cont \<Rightarrow> nat set" where
  "switching k = (case k of KSwitchCam _ _ raw \<Rightarrow> {raw} | KSwitchTrack _ _ c _ \<Rightarrow> {cap_track c, cap_raw c} | _ \<Rightarrow> {})"

definition in_flight :: "discovery \<Rightarrow> nat set" where
  "in_flight s = (\<Union>k \<in> conts (di_tasks s). switching k)"

definition media_ok :: "discovery \<Rightarrow> bool" where
  "media_ok s \<longleftrightarrow> live_set (di_devices s) \<subseteq> owned s \<union> in_flight s \<union> set (di_stale s)"

definition peers_ok :: "discovery \<Rightarrow> bool" where
  "peers_ok s \<longleftrightarrow> (\<forall>i < length (di_peers s). dp_open (di_peers s ! i) \<longrightarrow> di_pc s = Some i)
     \<and> (\<forall>i. di_pc s = Some i \<longrightarrow> i < length (di_peers s))"

text \<open>Between two acquisitions the page holds no local stream.\<close>

definition idle :: "discovery \<Rightarrow> bool" where
  "idle s \<longleftrightarrow> di_localStream s = None \<and> camera_tracks (di_capture s) \<subseteq> set (di_stale s)"

definition task_ok :: "discovery \<Rightarrow> disc_cont \<Rightarrow> bool" where
  "task_ok s k \<longleftrightarrow> (case k of
     KMedia _ g \<Rightarrow> g \<le> di_generation s \<and> di_pc s = None \<and> (g = di_generation s \<longrightarrow> idle s \<and> di_rawStream s = None)
   | KProcess _ g raw \<Rightarrow> g \<le> di_generation s \<and> di_pc s = None \<and> length raw = 2
       \<and> raw ! 1 < length (di_devices s) \<and> (g = di_generation s \<longrightarrow> idle s \<and> di_rawStream s = Some raw)
   | KDevices _ \<Rightarrow> di_pc s = None
   | KSwitch _ g \<Rightarrow> g \<le> di_generation s
   | KSwitchCam _ g raw \<Rightarrow> g \<le> di_generation s \<and> raw < length (di_devices s)
   | KSwitchTrack _ g c _ \<Rightarrow> g \<le> di_generation s \<and> (g = di_generation s \<longrightarrow> di_localStream s \<noteq> None)
   | _ \<Rightarrow> True)"

definition fresh :: "nat \<Rightarrow> disc_cont \<Rightarrow> bool" where
  "fresh n k \<longleftrightarrow> (case k of KMedia _ g \<Rightarrow> g = n | KProcess _ g _ \<Rightarrow> g = n | _ \<Rightarrow> False)"

definition base_inv :: "discovery \<Rightarrow> bool" where
  "base_inv s \<longleftrightarrow> media_ok s \<and> peers_ok s \<and> (\<forall>k \<in> conts (di_tasks s). task_ok s k)"

text \<open>The profile is loaded once, before there is a socket; without a socket there is no encounter.\<close>

definition start_inv :: "discovery \<Rightarrow> bool" where
  "start_inv s \<longleftrightarrow> length (tasks_of (\<lambda>k. k = KProfile) (di_tasks s)) \<le> 1
     \<and> (KProfile \<in> conts (di_tasks s) \<longrightarrow> di_socket s = None \<and> di_phase s = DConnecting)
     \<and> (di_socket s = None \<longrightarrow> di_match s = None)
     \<and> (di_phase s = DOffline \<longrightarrow> di_socket s \<in> {None, Some SocketClosed})"

definition calm_inv :: "discovery \<Rightarrow> bool" where
  "calm_inv s \<longleftrightarrow> (gone s \<longrightarrow> idle s \<and> di_rawStream s = None \<and> di_pc s = None
       \<and> (\<forall>k \<in> conts (di_tasks s). \<not> fresh (di_generation s) k))
     \<and> start_inv s"

definition calls :: "discovery \<Rightarrow> disc_cont list" where
  "calls s = tasks_of is_handler (di_tasks s)"

definition between :: "discovery \<Rightarrow> bool" where
  "between s \<longleftrightarrow> base_inv s \<and> calm_inv s \<and> calls s = [] \<and> di_handling s"

definition disc_inv :: "discovery \<Rightarrow> bool" where
  "disc_inv s \<longleftrightarrow> base_inv s \<and> calm_inv s \<and> length (calls s) \<le> 1 \<and> (calls s \<noteq> [] \<longrightarrow> di_handling s)"

lemmas disc_inv_defs = base_inv_def media_ok_def peers_ok_def owned_def in_flight_def

section \<open>Frames\<close>

lemma gone_frame [simp]:
  "gone (s\<lparr>di_tasks := q\<rparr>) = gone s" "gone (s\<lparr>di_next := n\<rparr>) = gone s" "gone (s\<lparr>di_log := l\<rparr>) = gone s"
  "gone (s\<lparr>di_message := m\<rparr>) = gone s" "gone (s\<lparr>di_handling := b\<rparr>) = gone s"
  "gone (s\<lparr>di_queue := ts\<rparr>) = gone s" "gone (s\<lparr>di_peers := ps\<rparr>) = gone s"
  "gone (s\<lparr>di_channel := ch\<rparr>) = gone s" "gone (s\<lparr>di_pendingIce := cs\<rparr>) = gone s"
  "gone (s\<lparr>di_heartbeat := b\<rparr>) = gone s" "gone (s\<lparr>di_devices := d\<rparr>) = gone s"
  "gone (s\<lparr>di_pc := pc\<rparr>) = gone s" "gone (s\<lparr>di_rawStream := r\<rparr>) = gone s"
  by (simp_all add: gone_def)

lemma idle_frame [simp]:
  "idle (s\<lparr>di_tasks := q\<rparr>) = idle s" "idle (s\<lparr>di_next := n\<rparr>) = idle s" "idle (s\<lparr>di_log := l\<rparr>) = idle s"
  "idle (s\<lparr>di_message := m\<rparr>) = idle s" "idle (s\<lparr>di_handling := b\<rparr>) = idle s"
  "idle (s\<lparr>di_queue := ts\<rparr>) = idle s" "idle (s\<lparr>di_peers := ps\<rparr>) = idle s"
  "idle (s\<lparr>di_channel := ch\<rparr>) = idle s" "idle (s\<lparr>di_pendingIce := cs\<rparr>) = idle s"
  "idle (s\<lparr>di_heartbeat := b\<rparr>) = idle s" "idle (s\<lparr>di_devices := d\<rparr>) = idle s"
  "idle (s\<lparr>di_match := mt\<rparr>) = idle s" "idle (s\<lparr>di_phase := ph\<rparr>) = idle s"
  "idle (s\<lparr>di_stopped := b\<rparr>) = idle s" "idle (s\<lparr>di_pc := pc\<rparr>) = idle s" "idle (s\<lparr>di_rawStream := r\<rparr>) = idle s"
  by (simp_all add: idle_def)

lemma task_frame [simp]:
  "task_ok (s\<lparr>di_tasks := q\<rparr>) = task_ok s" "task_ok (s\<lparr>di_next := n\<rparr>) = task_ok s"
  "task_ok (s\<lparr>di_log := l\<rparr>) = task_ok s" "task_ok (s\<lparr>di_message := m\<rparr>) = task_ok s"
  "task_ok (s\<lparr>di_handling := b\<rparr>) = task_ok s" "task_ok (s\<lparr>di_queue := ts\<rparr>) = task_ok s"
  "task_ok (s\<lparr>di_match := mt\<rparr>) = task_ok s" "task_ok (s\<lparr>di_phase := ph\<rparr>) = task_ok s"
  "task_ok (s\<lparr>di_peers := ps\<rparr>) = task_ok s" "task_ok (s\<lparr>di_channel := ch\<rparr>) = task_ok s"
  "task_ok (s\<lparr>di_pendingIce := cs\<rparr>) = task_ok s" "task_ok (s\<lparr>di_stopped := b\<rparr>) = task_ok s"
  "task_ok (s\<lparr>di_heartbeat := b\<rparr>) = task_ok s"
  by (simp_all add: task_ok_def fun_eq_iff split: disc_cont.split)

lemma peers_frame [simp]:
  "peers_ok (s\<lparr>di_devices := d\<rparr>) = peers_ok s" "peers_ok (s\<lparr>di_rawStream := r\<rparr>) = peers_ok s"
  "peers_ok (s\<lparr>di_localStream := ls\<rparr>) = peers_ok s" "peers_ok (s\<lparr>di_capture := c\<rparr>) = peers_ok s"
  "peers_ok (s\<lparr>di_tasks := q\<rparr>) = peers_ok s" "peers_ok (s\<lparr>di_camera := cm\<rparr>) = peers_ok s"
  "peers_ok (s\<lparr>di_stale := st\<rparr>) = peers_ok s" "peers_ok (s\<lparr>di_socket := so\<rparr>) = peers_ok s"
  "peers_ok (s\<lparr>di_ice := ice\<rparr>) = peers_ok s" "peers_ok (s\<lparr>di_profile := pf\<rparr>) = peers_ok s"
  "peers_ok (s\<lparr>di_preferences := pr\<rparr>) = peers_ok s"
  by (simp_all add: peers_ok_def)

lemma in_flight_frame [simp]:
  "in_flight (s\<lparr>di_devices := d\<rparr>) = in_flight s" "in_flight (s\<lparr>di_rawStream := r\<rparr>) = in_flight s"
  "in_flight (s\<lparr>di_localStream := ls\<rparr>) = in_flight s" "in_flight (s\<lparr>di_capture := c\<rparr>) = in_flight s"
  "in_flight (s\<lparr>di_camera := cm\<rparr>) = in_flight s" "in_flight (s\<lparr>di_stale := st\<rparr>) = in_flight s"
  "in_flight (s\<lparr>di_socket := so\<rparr>) = in_flight s" "in_flight (s\<lparr>di_ice := ice\<rparr>) = in_flight s"
  "in_flight (s\<lparr>di_profile := pf\<rparr>) = in_flight s" "in_flight (s\<lparr>di_preferences := pr\<rparr>) = in_flight s"
  by (simp_all add: in_flight_def)

lemma owned_frame [simp]:
  "owned (s\<lparr>di_devices := d\<rparr>) = owned s" "owned (s\<lparr>di_tasks := q\<rparr>) = owned s"
  "owned (s\<lparr>di_socket := so\<rparr>) = owned s" "owned (s\<lparr>di_ice := ice\<rparr>) = owned s"
  "owned (s\<lparr>di_profile := pf\<rparr>) = owned s" "owned (s\<lparr>di_preferences := pr\<rparr>) = owned s"
  "owned (s\<lparr>di_camera := cm\<rparr>) = owned s" "owned (s\<lparr>di_stale := st\<rparr>) = owned s"
  by (simp_all add: owned_def)

lemma start_frame [simp]:
  "start_inv (s\<lparr>di_message := m\<rparr>) = start_inv s" "start_inv (s\<lparr>di_log := l\<rparr>) = start_inv s"
  "start_inv (s\<lparr>di_handling := b\<rparr>) = start_inv s" "start_inv (s\<lparr>di_queue := ts\<rparr>) = start_inv s"
  "start_inv (s\<lparr>di_channel := ch\<rparr>) = start_inv s" "start_inv (s\<lparr>di_heartbeat := b\<rparr>) = start_inv s"
  "start_inv (s\<lparr>di_pendingIce := cs\<rparr>) = start_inv s" "start_inv (s\<lparr>di_devices := d\<rparr>) = start_inv s"
  "start_inv (s\<lparr>di_peers := ps\<rparr>) = start_inv s" "start_inv (s\<lparr>di_pc := pc\<rparr>) = start_inv s"
  "start_inv (s\<lparr>di_rawStream := r\<rparr>) = start_inv s" "start_inv (s\<lparr>di_localStream := ls\<rparr>) = start_inv s"
  "start_inv (s\<lparr>di_capture := c\<rparr>) = start_inv s" "start_inv (s\<lparr>di_stale := st\<rparr>) = start_inv s"
  "start_inv (s\<lparr>di_camera := cm\<rparr>) = start_inv s" "start_inv (s\<lparr>di_stopped := b\<rparr>) = start_inv s"
  "start_inv (s\<lparr>di_next := n\<rparr>) = start_inv s" "start_inv (s\<lparr>di_ice := ice\<rparr>) = start_inv s"
  "start_inv (s\<lparr>di_chat := chs\<rparr>) = start_inv s" "start_inv (s\<lparr>di_requeue := b\<rparr>) = start_inv s"
  "start_inv (s\<lparr>di_match := map_option f (di_match s)\<rparr>) = start_inv s"
  by (simp_all add: start_inv_def)

lemma start_socket: "start_inv s \<Longrightarrow> di_socket s \<noteq> None \<Longrightarrow> KProfile \<notin> conts (di_tasks s)"
  by (auto simp: start_inv_def)

text \<open>Fields that no invariant looks at.\<close>

lemma plain_frame [simp]:
  "base_inv (s\<lparr>di_message := m\<rparr>) = base_inv s" "calm_inv (s\<lparr>di_message := m\<rparr>) = calm_inv s"
  "base_inv (s\<lparr>di_log := l\<rparr>) = base_inv s" "calm_inv (s\<lparr>di_log := l\<rparr>) = calm_inv s"
  "base_inv (s\<lparr>di_handling := b\<rparr>) = base_inv s" "calm_inv (s\<lparr>di_handling := b\<rparr>) = calm_inv s"
  "base_inv (s\<lparr>di_queue := ts\<rparr>) = base_inv s" "calm_inv (s\<lparr>di_queue := ts\<rparr>) = calm_inv s"
  "base_inv (s\<lparr>di_channel := ch\<rparr>) = base_inv s" "calm_inv (s\<lparr>di_channel := ch\<rparr>) = calm_inv s"
  "base_inv (s\<lparr>di_heartbeat := b\<rparr>) = base_inv s" "calm_inv (s\<lparr>di_heartbeat := b\<rparr>) = calm_inv s"
  "base_inv (s\<lparr>di_pendingIce := cs\<rparr>) = base_inv s" "calm_inv (s\<lparr>di_pendingIce := cs\<rparr>) = calm_inv s"
  by (simp_all add: disc_inv_defs calm_inv_def)

lemma base_frame [simp]:
  "base_inv (s\<lparr>di_match := mt\<rparr>) = base_inv s" "base_inv (s\<lparr>di_phase := ph\<rparr>) = base_inv s"
  "base_inv (s\<lparr>di_stopped := b\<rparr>) = base_inv s"
  by (simp_all add: disc_inv_defs)

lemma calls_frame [simp]:
  "calls (s\<lparr>di_message := m\<rparr>) = calls s" "calls (s\<lparr>di_log := l\<rparr>) = calls s"
  "calls (s\<lparr>di_handling := b\<rparr>) = calls s" "calls (s\<lparr>di_queue := ts\<rparr>) = calls s"
  "calls (s\<lparr>di_channel := ch\<rparr>) = calls s" "calls (s\<lparr>di_heartbeat := b\<rparr>) = calls s"
  "calls (s\<lparr>di_pendingIce := cs\<rparr>) = calls s" "calls (s\<lparr>di_match := mt\<rparr>) = calls s"
  "calls (s\<lparr>di_phase := ph\<rparr>) = calls s" "calls (s\<lparr>di_stopped := st\<rparr>) = calls s"
  "calls (s\<lparr>di_peers := ps\<rparr>) = calls s" "calls (s\<lparr>di_devices := d\<rparr>) = calls s"
  by (simp_all add: calls_def)

lemma disc_inv_say [simp]: "disc_inv (say m s) = disc_inv s" "between (say m s) = between s"
  by (simp_all add: disc_inv_def between_def say_def)

lemma disc_inv_fx [simp]: "disc_inv (disc_fx f s) = disc_inv s" "between (disc_fx f s) = between s"
  by (simp_all add: disc_inv_def between_def disc_fx_def)

lemma disc_inv_log [simp]:
  "disc_inv (s\<lparr>di_log := l\<rparr>) = disc_inv s" "disc_inv (s\<lparr>di_message := m\<rparr>) = disc_inv s"
  by (simp_all add: disc_inv_def)

lemma disc_inv_send [simp]: "disc_inv (disc_send t p m s) = disc_inv s" "between (disc_send t p m s) = between s"
  by (simp_all add: disc_send_def)

lemma disc_inv_handled: "between s \<Longrightarrow> disc_inv (disc_handled s)"
  by (simp add: disc_inv_def between_def disc_handled_def)

lemma disc_inv_media_needed: "between s \<Longrightarrow> disc_inv (media_needed s)"
  by (simp add: media_needed_def disc_inv_handled)

text \<open>Suspending: the new task must be in order.\<close>

lemma await_fields [simp]:
  "conts (di_tasks (disc_await k s)) = insert k (conts (di_tasks s))"
  "tasks_of P (di_tasks (disc_await k s)) = tasks_of P (di_tasks s) @ (if P k then [k] else [])"
  "di_devices (disc_await k s) = di_devices s" "owned (disc_await k s) = owned s"
  "di_stale (disc_await k s) = di_stale s" "peers_ok (disc_await k s) = peers_ok s"
  "task_ok (disc_await k s) = task_ok s" "in_flight (disc_await k s) = switching k \<union> in_flight s"
  by (simp_all add: disc_await_def owned_def peers_ok_def in_flight_def Un_commute)

lemma start_await [simp]: "k \<noteq> KProfile \<Longrightarrow> start_inv (disc_await k s) = start_inv s"
  by (simp add: start_inv_def) (simp add: disc_await_def)

lemma base_await:
  assumes "base_inv s" and "task_ok s k" and "switching k = {}"
  shows "base_inv (disc_await k s)"
  using assms by (simp add: base_inv_def media_ok_def)

lemma disc_inv_await:
  assumes "between s" and "task_ok s k" and "is_handler k" and "switching k = {}"
    and "gone s \<Longrightarrow> \<not> fresh (di_generation s) k"
  shows "disc_inv (disc_await k s)"
proof -
  have "k \<noteq> KProfile" using assms(3) by (auto simp: is_handler_def)
  then have "base_inv (disc_await k s)" using assms by (simp add: between_def base_await)
  moreover have "calm_inv (disc_await k s)"
  proof -
    have "gone (disc_await k s) = gone s" "idle (disc_await k s) = idle s"
      "di_rawStream (disc_await k s) = di_rawStream s" "di_pc (disc_await k s) = di_pc s"
      "di_generation (disc_await k s) = di_generation s"
      by (simp_all add: disc_await_def)
    then show ?thesis using assms \<open>k \<noteq> KProfile\<close> by (auto simp: between_def calm_inv_def)
  qed
  moreover have "calls (disc_await k s) = [k]" "di_handling (disc_await k s)"
    using assms by (simp_all add: between_def calls_def disc_await_def)
  ultimately show ?thesis by (simp add: disc_inv_def)
qed

lemma disc_inv_await_plain:
  assumes "between s" and "is_handler k" and "\<not> fresh (di_generation s) k" and "task_ok s k" and "switching k = {}"
  shows "disc_inv (disc_await k s)"
  using assms by (intro disc_inv_await)

section \<open>Releasing\<close>

lemma close_dpeer_fields [simp]:
  "di_devices (close_dpeer i s) = di_devices s" "owned (close_dpeer i s) = owned s"
  "di_tasks (close_dpeer i s) = di_tasks s" "di_stale (close_dpeer i s) = di_stale s"
  "di_generation (close_dpeer i s) = di_generation s" "di_handling (close_dpeer i s) = di_handling s"
  "di_localStream (close_dpeer i s) = di_localStream s" "di_rawStream (close_dpeer i s) = di_rawStream s"
  "di_capture (close_dpeer i s) = di_capture s" "di_socket (close_dpeer i s) = di_socket s"
  "di_match (close_dpeer i s) = di_match s" "di_phase (close_dpeer i s) = di_phase s"
  "di_stopped (close_dpeer i s) = di_stopped s" "di_requeue (close_dpeer i s) = di_requeue s"
  "di_preferences (close_dpeer i s) = di_preferences s" "di_queue (close_dpeer i s) = di_queue s"
  by (simp_all add: close_dpeer_def disc_fx_def owned_def)

lemma cleanup_peer_fields [simp]:
  "di_devices (cleanup_peer s) = di_devices s" "owned (cleanup_peer s) = owned s"
  "di_tasks (cleanup_peer s) = di_tasks s" "di_stale (cleanup_peer s) = di_stale s"
  "di_generation (cleanup_peer s) = di_generation s" "di_handling (cleanup_peer s) = di_handling s"
  "di_localStream (cleanup_peer s) = di_localStream s" "di_rawStream (cleanup_peer s) = di_rawStream s"
  "di_capture (cleanup_peer s) = di_capture s" "di_socket (cleanup_peer s) = di_socket s"
  "di_match (cleanup_peer s) = di_match s" "di_phase (cleanup_peer s) = di_phase s"
  "di_stopped (cleanup_peer s) = di_stopped s" "di_pc (cleanup_peer s) = None"
  "di_requeue (cleanup_peer s) = di_requeue s" "di_preferences (cleanup_peer s) = di_preferences s"
  "di_queue (cleanup_peer s) = di_queue s"
  by (simp_all add: cleanup_peer_def owned_def split: option.split)

lemma in_flight_tasks: "di_tasks t = di_tasks s \<Longrightarrow> in_flight t = in_flight s"
  by (simp add: in_flight_def)

lemma idle_fields:
  "di_localStream t = di_localStream s \<Longrightarrow> di_capture t = di_capture s \<Longrightarrow> di_stale t = di_stale s \<Longrightarrow> idle t = idle s"
  by (simp add: idle_def)

lemma gone_fields:
  "di_stopped t = di_stopped s \<Longrightarrow> di_phase t = di_phase s \<Longrightarrow> di_match t = di_match s \<Longrightarrow> gone t = gone s"
  by (simp add: gone_def)

lemma cleanup_peer_same [simp]:
  "idle (cleanup_peer s) = idle s" "gone (cleanup_peer s) = gone s"
  "in_flight (cleanup_peer s) = in_flight s" "calls (cleanup_peer s) = calls s"
  by (simp_all add: idle_def gone_def in_flight_def calls_def)

lemma cleanup_peer_ok: "peers_ok s \<Longrightarrow> peers_ok (cleanup_peer s)"
proof (cases "di_pc s")
  case (Some i)
  assume "peers_ok s"
  then have "\<not> dp_open (di_peers (cleanup_peer s) ! j)" if "j < length (di_peers s)" for j
    using that Some by (cases "j = i") (auto simp: peers_ok_def cleanup_peer_def close_dpeer_def disc_fx_def)
  then show ?thesis using Some by (auto simp: peers_ok_def cleanup_peer_def close_dpeer_def disc_fx_def)
qed (auto simp: peers_ok_def cleanup_peer_def)

lemma task_cleanup_peer: "task_ok s k \<Longrightarrow> task_ok (cleanup_peer s) k"
  by (simp add: task_ok_def split: disc_cont.splits)

lemma base_cleanup_peer: "base_inv s \<Longrightarrow> base_inv (cleanup_peer s)"
  by (simp add: base_inv_def media_ok_def cleanup_peer_ok task_cleanup_peer)

lemma start_cleanup_peer [simp]: "start_inv (cleanup_peer s) = start_inv s"
  by (simp add: start_inv_def)

lemma calm_cleanup_peer: "calm_inv s \<Longrightarrow> calm_inv (cleanup_peer s)"
  by (simp add: calm_inv_def)

lemma between_cleanup_peer: "between s \<Longrightarrow> between (cleanup_peer s)"
  by (simp add: between_def base_cleanup_peer calm_cleanup_peer)

lemma disc_live_release_camera [simp]: "live_set (release_camera c d) = live_set d - camera_tracks c"
  by (cases c) auto

lemma length_release_camera [simp]: "length (release_camera c d) = length d"
  by (cases c) auto

lemma cleanup_media_fields [simp]:
  "live_set (di_devices (cleanup_media s)) = live_set (di_devices s) - owned s"
  "length (di_devices (cleanup_media s)) = length (di_devices s)"
  "owned (cleanup_media s) = {}" "di_tasks (cleanup_media s) = di_tasks s"
  "di_stale (cleanup_media s) = di_stale s" "di_generation (cleanup_media s) = Suc (di_generation s)"
  "di_localStream (cleanup_media s) = None" "di_rawStream (cleanup_media s) = None"
  "di_capture (cleanup_media s) = None" "di_pc (cleanup_media s) = di_pc s"
  "di_peers (cleanup_media s) = di_peers s" "di_socket (cleanup_media s) = di_socket s"
  "di_match (cleanup_media s) = di_match s" "di_phase (cleanup_media s) = di_phase s"
  "di_stopped (cleanup_media s) = di_stopped s" "di_handling (cleanup_media s) = di_handling s"
  "di_requeue (cleanup_media s) = di_requeue s" "di_preferences (cleanup_media s) = di_preferences s"
  "di_queue (cleanup_media s) = di_queue s" "di_log (cleanup_media s) = di_log s"
  by (auto simp: cleanup_media_def owned_def stream_of_def)

lemma cleanup_media_same [simp]:
  "idle (cleanup_media s)" "gone (cleanup_media s) = gone s" "in_flight (cleanup_media s) = in_flight s"
  "calls (cleanup_media s) = calls s" "peers_ok (cleanup_media s) = peers_ok s"
  "start_inv (cleanup_media s) = start_inv s"
  by (simp_all add: idle_def gone_def in_flight_def calls_def peers_ok_def start_inv_def)

lemma task_cleanup_media: "task_ok s k \<Longrightarrow> task_ok (cleanup_media s) k"
  by (auto simp: task_ok_def split: disc_cont.splits)

lemma stale_after_cleanup: "task_ok s k \<Longrightarrow> \<not> fresh (Suc (di_generation s)) k"
  by (auto simp: task_ok_def fresh_def split: disc_cont.splits)

lemma base_cleanup_media: "base_inv s \<Longrightarrow> base_inv (cleanup_media s)"
  by (auto simp: base_inv_def media_ok_def task_cleanup_media)

lemma between_cleanup_media: "between s \<Longrightarrow> between (cleanup_media s)"
  using base_cleanup_media [of s] stale_after_cleanup [of s]
  by (simp add: between_def calm_inv_def) (simp add: base_inv_def)

text \<open>After \<open>cleanupCall\<close> the page may lose its encounter, its socket or be unmounted.\<close>

definition released :: "discovery \<Rightarrow> bool" where
  "released s \<longleftrightarrow> base_inv s \<and> idle s \<and> di_rawStream s = None \<and> di_pc s = None
     \<and> (\<forall>k \<in> conts (di_tasks s). \<not> fresh (di_generation s) k)"

lemma disc_released_cleanup: "base_inv s \<Longrightarrow> released (cleanup_encounter s)"
  by (simp add: released_def cleanup_encounter_def base_cleanup_media base_cleanup_peer)
     (simp add: base_inv_def stale_after_cleanup)

lemma disc_released_frame [simp]:
  "released (s\<lparr>di_match := mt\<rparr>) = released s" "released (s\<lparr>di_phase := ph\<rparr>) = released s"
  "released (s\<lparr>di_message := m\<rparr>) = released s" "released (s\<lparr>di_log := l\<rparr>) = released s"
  "released (s\<lparr>di_handling := b\<rparr>) = released s"
  by (simp_all add: released_def)

lemma released_calm: "released s \<Longrightarrow> start_inv s \<Longrightarrow> calm_inv s"
  by (simp add: released_def calm_inv_def)

lemma cleanup_encounter_fields [simp]:
  "di_handling (cleanup_encounter s) = di_handling s" "calls (cleanup_encounter s) = calls s"
  "di_socket (cleanup_encounter s) = di_socket s" "di_requeue (cleanup_encounter s) = di_requeue s"
  "di_preferences (cleanup_encounter s) = di_preferences s" "di_phase (cleanup_encounter s) = di_phase s"
  "start_inv (cleanup_encounter s) = start_inv s" "di_match (cleanup_encounter s) = di_match s"
  "di_tasks (cleanup_encounter s) = di_tasks s"
  "di_stopped (cleanup_encounter s) = di_stopped s" "di_queue (cleanup_encounter s) = di_queue s"
  by (simp_all add: cleanup_encounter_def)

section \<open>Handler operations\<close>

lemma no_calls: "calls s = [] \<Longrightarrow> k \<in> conts (di_tasks s) \<Longrightarrow> \<not> is_handler k"
  using set_tasks_of [of is_handler "di_tasks s"] by (auto simp: calls_def)

lemma peers_same_open:
  assumes "map dp_open ps = map dp_open (di_peers s)"
  shows "peers_ok (s\<lparr>di_peers := ps\<rparr>) = peers_ok s"
proof -
  have len: "length ps = length (di_peers s)" using assms by (rule map_eq_imp_length_eq)
  have "dp_open (ps ! i) = dp_open (di_peers s ! i)" if "i < length (di_peers s)" for i
    using that assms len by (metis nth_map)
  then show ?thesis using len by (auto simp: peers_ok_def)
qed

lemma map_flag: "dp_open p = dp_open (ps ! i) \<Longrightarrow> map dp_open (ps[i := p]) = map dp_open ps"
  by (cases "i < length ps") (auto intro!: nth_equalityI simp: nth_list_update split: if_splits)

lemma disc_inv_peer_flags [simp]:
  "between (s\<lparr>di_peers := (di_peers s)[i := (di_peers s ! i)\<lparr>dp_remote := b\<rparr>]\<rparr>) = between s"
  "between (s\<lparr>di_peers := (di_peers s)[i := (di_peers s ! i)\<lparr>dp_sender := b\<rparr>]\<rparr>) = between s"
proof -
  have same: "between (s\<lparr>di_peers := ps\<rparr>) = between s" if "map dp_open ps = map dp_open (di_peers s)" for ps
    using peers_same_open [OF that]
    by (simp add: between_def base_inv_def calm_inv_def media_ok_def owned_def in_flight_def)
  show "between (s\<lparr>di_peers := (di_peers s)[i := (di_peers s ! i)\<lparr>dp_remote := b\<rparr>]\<rparr>) = between s"
    "between (s\<lparr>di_peers := (di_peers s)[i := (di_peers s ! i)\<lparr>dp_sender := b\<rparr>]\<rparr>) = between s"
    by (rule same, rule map_flag, simp)+
qed

lemma disc_inv_plain [simp]:
  "between (s\<lparr>di_channel := ch\<rparr>) = between s" "between (s\<lparr>di_pendingIce := cs\<rparr>) = between s"
  "between (s\<lparr>di_log := l\<rparr>) = between s"
  by (simp_all add: between_def)

text \<open>Continuations that carry no obligation.\<close>

definition free :: "disc_cont \<Rightarrow> bool" where
  "free k \<longleftrightarrow> (case k of KParams _ _ _ \<Rightarrow> True | KDOffer _ _ \<Rightarrow> True | KDOfferLocal _ _ \<Rightarrow> True
     | KDRemote _ _ _ \<Rightarrow> True | KDPend _ _ _ _ \<Rightarrow> True | KDAnswer _ _ \<Rightarrow> True | KDAnswerLocal _ _ \<Rightarrow> True
     | KDIce \<Rightarrow> True | _ \<Rightarrow> False)"

lemma free_simps [simp]:
  "free (KParams f pc ts)" "free (KDOffer f pc)" "free (KDOfferLocal f sdp)" "free (KDRemote o' pc mid)"
  "free (KDPend o' pc mid cs)" "free (KDAnswer pc mid)" "free (KDAnswerLocal sdp mid)" "free KDIce"
  by (simp_all add: free_def)

lemma disc_inv_await_free: "between s \<Longrightarrow> free k \<Longrightarrow> disc_inv (disc_await k s)"
  by (rule disc_inv_await) (auto simp: free_def is_handler_def task_ok_def switching_def fresh_def split: disc_cont.splits)

lemma disc_inv_wire_call: "between s \<Longrightarrow> disc_inv (wire_call found pc s)"
  by (simp add: wire_call_def disc_inv_handled disc_inv_media_needed disc_inv_await_free)

lemma disc_inv_add_senders: "between s \<Longrightarrow> disc_inv (add_senders found pc ts s)"
proof (induction found pc ts s rule: add_senders.induct)
  case (2 found pc t ts s)
  have "between ((disc_fx (AddSender pc t) s)\<lparr>di_peers := (di_peers s)[pc := (di_peers s ! pc)\<lparr>dp_sender := True\<rparr>]\<rparr>)"
    using 2(2) disc_inv_fx(2) [of "AddSender pc t" s] disc_inv_peer_flags(2) [of "disc_fx (AddSender pc t) s" pc True]
    by (simp add: disc_fx_def)
  then show ?case using 2 by (simp add: disc_inv_media_needed disc_inv_await_free)
qed (simp add: disc_inv_wire_call)

lemma disc_inv_open_call:
  assumes "between s" and "di_pc s = None"
  shows "disc_inv (open_call found s)"
proof (cases "di_localStream s")
  case (Some ts)
  let ?pc = "length (di_peers s)"
  let ?t = "(disc_fx (OpenPeer ?pc) s)\<lparr>di_peers := di_peers s @
    [\<lparr>dp_open = True, dp_remote = False, dp_sender = False, dp_match = found\<rparr>], di_pc := Some ?pc\<rparr>"
  have live: "\<not> gone s" using assms(1) Some by (auto simp: between_def calm_inv_def idle_def)
  have "peers_ok ?t"
    using assms by (auto simp: between_def base_inv_def peers_ok_def disc_fx_def nth_append less_Suc_eq)
  moreover have "task_ok ?t k" if "k \<in> conts (di_tasks s)" for k
  proof -
    have "task_ok s k" and "\<not> is_handler k"
      using assms(1) that no_calls by (auto simp: between_def base_inv_def)
    then show ?thesis by (auto simp: task_ok_def is_handler_def disc_fx_def split: disc_cont.splits)
  qed
  moreover have "media_ok ?t"
    using assms(1) by (simp add: between_def base_inv_def media_ok_def owned_def in_flight_def disc_fx_def)
  ultimately have "between ?t"
    using assms(1) live by (simp add: between_def base_inv_def calm_inv_def disc_fx_def calls_def gone_def)
  then show ?thesis using Some assms(1)
    by (simp add: open_call_def Let_def disc_inv_media_needed disc_inv_add_senders)
qed (use assms in \<open>simp add: open_call_def disc_inv_media_needed\<close>)

lemma disc_inv_start_encounter:
  assumes "between s" and "\<not> gone s"
  shows "disc_inv (start_encounter found s)"
proof -
  let ?s = "cleanup_peer s"
  have peer: "between ?s" using assms(1) by (rule between_cleanup_peer)
  then have media: "between (cleanup_media ?s)" by (rule between_cleanup_media)
  have "disc_inv (disc_await (KMedia found (Suc (di_generation s))) (disc_fx AskMedia (cleanup_media ?s)))"
  proof (rule disc_inv_await)
    show "between (disc_fx AskMedia (cleanup_media ?s))" using media by simp
    show "gone (disc_fx AskMedia (cleanup_media ?s)) \<Longrightarrow>
        \<not> fresh (di_generation (disc_fx AskMedia (cleanup_media ?s))) (KMedia found (Suc (di_generation s)))"
      using assms(2) by (simp add: disc_fx_def)
  qed (simp_all add: task_ok_def is_handler_def switching_def disc_fx_def)
  then show ?thesis
    using disc_inv_open_call [OF peer] by (simp add: start_encounter_def Let_def)
qed

lemma base_devices:
  assumes "base_inv s" and "live_set d \<subseteq> live_set (di_devices s)" and "length (di_devices s) \<le> length d"
  shows "base_inv (s\<lparr>di_devices := d\<rparr>)"
proof -
  have "task_ok (s\<lparr>di_devices := d\<rparr>) k" if "task_ok s k" for k
    using that assms(3) by (auto simp: task_ok_def split: disc_cont.splits)
  moreover have "media_ok (s\<lparr>di_devices := d\<rparr>)"
  proof -
    have "live_set (di_devices s) \<subseteq> owned s \<union> in_flight s \<union> set (di_stale s)"
      using assms(1) by (simp add: base_inv_def media_ok_def)
    from subset_trans [OF assms(2) this] show ?thesis by (simp add: media_ok_def)
  qed
  ultimately show ?thesis
    using assms(1) by (simp add: base_inv_def)
qed

lemma calm_devices [simp]: "calm_inv (s\<lparr>di_devices := d\<rparr>) = calm_inv s"
  by (simp add: calm_inv_def)

lemma between_devices:
  "between s \<Longrightarrow> live_set d \<subseteq> live_set (di_devices s) \<Longrightarrow> length (di_devices s) \<le> length d \<Longrightarrow>
   between (s\<lparr>di_devices := d\<rparr>)"
  by (simp add: between_def base_devices)

lemma both_tracks_facts:
  assumes "both_tracks k l d = (raw, d')"
  shows "raw = [length d, Suc (length d)]" "length d' = Suc (Suc (length d))"
    "live_set d' = live_set d \<union> set raw"
  using assms by (auto simp: both_tracks_def Let_def open_track_def live_set_append less_Suc_eq nth_Cons')

text \<open>A resumed handler: its own task is gone from the pool, and it was in order.\<close>

definition resumed :: "disc_cont \<Rightarrow> discovery \<Rightarrow> bool" where
  "resumed k s \<longleftrightarrow> between s \<and> task_ok s k \<and> (gone s \<longrightarrow> \<not> fresh (di_generation s) k)"

lemma disc_inv_got_raw:
  assumes "resumed (KMedia found g) s"
  shows "disc_inv (got_raw found g s)"
proof -
  obtain raw d where both: "both_tracks Audio Video (di_devices s) = (raw, d)"
    by (cases "both_tracks Audio Video (di_devices s)")
  note facts = both_tracks_facts [OF both]
  have s: "between s" using assms by (simp add: resumed_def)
  show ?thesis
  proof (cases "di_stopped s \<or> g \<noteq> di_generation s")
    case True
    have "live_set (stop_tracks raw d) \<subseteq> live_set (di_devices s)" using facts by auto
    then have "between (s\<lparr>di_devices := stop_tracks raw d\<rparr>)" using s facts(2) by (simp add: between_devices)
    then show ?thesis using True by (simp add: got_raw_def both disc_inv_handled)
  next
    case False
    let ?t = "s\<lparr>di_devices := d, di_rawStream := Some raw\<rparr>"
    have own: "idle s" "di_rawStream s = None" "di_pc s = None" "\<not> gone s"
      using assms False by (auto simp: resumed_def task_ok_def fresh_def)
    have "task_ok ?t k" if "k \<in> conts (di_tasks s)" for k
    proof -
      have "task_ok s k" and "\<not> is_handler k"
        using s that no_calls by (auto simp: between_def base_inv_def)
      then show ?thesis using facts(2) by (auto simp: task_ok_def is_handler_def split: disc_cont.splits)
    qed
    moreover have "media_ok ?t"
      using s own facts(3) by (auto simp: between_def base_inv_def media_ok_def owned_def in_flight_def stream_of_def)
    ultimately have "between ?t"
      using s own by (simp add: between_def base_inv_def calm_inv_def calls_def)
    moreover have "task_ok ?t (KProcess found g raw)" using own False facts by (simp add: task_ok_def)
    ultimately have "disc_inv (disc_await (KProcess found g raw) ?t)"
      using own by (intro disc_inv_await) (simp_all add: is_handler_def switching_def)
    then show ?thesis using False by (simp add: got_raw_def both)
  qed
qed

lemma disc_inv_got_processed:
  assumes "resumed (KProcess found g raw) s"
  shows "disc_inv (got_processed found g raw env s)"
proof -
  obtain c d where p: "process_camera env (raw ! 1) (di_devices s) = (c, d)"
    by (cases "process_camera env (raw ! 1) (di_devices s)")
  note p' = p [unfolded One_nat_def]
  have s: "between s" and pc: "di_pc s = None" and raw: "length raw = 2" "raw ! 1 < length (di_devices s)"
    using assms by (auto simp: resumed_def task_ok_def)
  note live = process_camera_live [OF p raw(2)]
  show ?thesis
  proof (cases c)
    case None
    then have "between (s\<lparr>di_devices := d\<rparr>)" using live s by (intro between_devices) auto
    then show ?thesis using None by (simp add: got_processed_def p' disc_inv_media_needed)
  next
    case (Some cap)
    show ?thesis
    proof (cases "di_stopped s \<or> g \<noteq> di_generation s")
      case True
      have "between (s\<lparr>di_devices := stop_tracks raw (stop_capture cap d)\<rparr>)"
        using live s Some by (intro between_devices) auto
      then show ?thesis using True Some by (simp add: got_processed_def p' disc_inv_handled)
    next
      case False
      let ?t = "s\<lparr>di_devices := d, di_capture := Some cap,
        di_localStream := Some (of_kind Audio d raw @ [cap_track cap])\<rparr>"
      have own: "idle s" "di_rawStream s = Some raw" "\<not> gone s"
        using assms False by (auto simp: resumed_def task_ok_def fresh_def)
      have "task_ok ?t k" if "k \<in> conts (di_tasks s)" for k
      proof -
        have "task_ok s k" and "\<not> is_handler k"
          using s that no_calls by (auto simp: between_def base_inv_def)
        then show ?thesis using live by (auto simp: task_ok_def is_handler_def split: disc_cont.splits)
      qed
      moreover have "media_ok ?t"
      proof -
        have "live_set (di_devices s) \<subseteq> owned s \<union> in_flight s \<union> set (di_stale s)"
          using s by (simp add: between_def base_inv_def media_ok_def)
        moreover have "owned s \<subseteq> set raw \<union> set (di_stale s)"
          using own by (auto simp: owned_def idle_def stream_of_def)
        moreover have "insert (cap_track cap) (set raw) \<subseteq> owned ?t"
          using own by (auto simp: owned_def stream_of_def)
        moreover have "live_set d = insert (cap_track cap) (live_set (di_devices s))"
          using live Some by simp
        moreover have "in_flight ?t = in_flight s" by (simp add: in_flight_def)
        ultimately show ?thesis unfolding media_ok_def by simp blast
      qed
      ultimately have "between ?t"
        using s own by (simp add: between_def base_inv_def calm_inv_def calls_def gone_def)
      then have "disc_inv (disc_await (KDevices found) (disc_fx ListDevices ?t))"
        using pc by (intro disc_inv_await) (simp_all add: is_handler_def switching_def fresh_def task_ok_def disc_fx_def)
      then show ?thesis using False Some by (simp add: got_processed_def p')
    qed
  qed
qed

lemma disc_inv_apply_pending: "between s \<Longrightarrow> disc_inv (apply_pending offer pc mid cs s)"
  by (cases cs) (simp_all add: disc_inv_await_free disc_inv_handled)

lemma disc_inv_remote_set: "between s \<Longrightarrow> disc_inv (dremote_set offer pc mid s)"
  unfolding dremote_set_def
  by (rule disc_inv_apply_pending) (simp add: disc_inv_peer_flags(1))

lemma disc_inv_reconnect_failed: "between s \<Longrightarrow> disc_inv (reconnect_failed s)"
  by (simp add: reconnect_failed_def disc_inv_handled)

lemma resumed_between: "resumed k s \<Longrightarrow> between s"
  by (simp add: resumed_def)

lemma disc_inv_handler: "resumed k s \<Longrightarrow> is_handler k \<Longrightarrow> disc_inv (disc_handler k out s)"
proof (cases k)
  case (KDevices f)
  assume "resumed k s"
  then show ?thesis
    using KDevices by (auto simp: resumed_def task_ok_def disc_inv_media_needed disc_inv_open_call)
qed (auto simp: is_handler_def disc_inv_got_raw disc_inv_got_processed disc_inv_media_needed disc_inv_add_senders disc_inv_await_free
    disc_inv_handled disc_inv_apply_pending disc_inv_remote_set disc_inv_reconnect_failed
    dest!: resumed_between split: disc_outcome.split)

section \<open>Server events\<close>

lemma start_phase:
  "start_inv s \<Longrightarrow> di_socket s = Some SocketOpen \<Longrightarrow> ph \<noteq> DOffline \<Longrightarrow> start_inv (s\<lparr>di_phase := ph\<rparr>)"
  by (auto simp: start_inv_def)

lemma open_not_offline: "start_inv s \<Longrightarrow> di_socket s = Some SocketOpen \<Longrightarrow> di_phase s \<noteq> DOffline"
  by (auto simp: start_inv_def)

lemma disc_inv_phase:
  assumes "between s" and "di_socket s = Some SocketOpen" and "ph \<noteq> DOffline"
  shows "between (s\<lparr>di_phase := ph\<rparr>)"
proof -
  have "di_phase s \<noteq> DOffline" using assms open_not_offline by (auto simp: between_def calm_inv_def)
  then have "gone (s\<lparr>di_phase := ph\<rparr>) = gone s" using assms(3) by (simp add: gone_def)
  then show ?thesis using assms by (simp add: between_def calm_inv_def start_phase)
qed

lemma disc_inv_ice [simp]: "between (s\<lparr>di_ice := i\<rparr>) = between s"
proof -
  have "task_ok (s\<lparr>di_ice := i\<rparr>) = task_ok s" "idle (s\<lparr>di_ice := i\<rparr>) = idle s" "gone (s\<lparr>di_ice := i\<rparr>) = gone s"
    "calls (s\<lparr>di_ice := i\<rparr>) = calls s"
    by (simp_all add: task_ok_def idle_def gone_def calls_def fun_eq_iff split: disc_cont.split)
  then show ?thesis by (simp add: between_def base_inv_def calm_inv_def media_ok_def)
qed

lemma disc_inv_match_flag:
  "between s \<Longrightarrow> between (s\<lparr>di_match := map_option f (di_match s)\<rparr>)"
proof -
  have "gone (s\<lparr>di_match := map_option f (di_match s)\<rparr>) = gone s" by (simp add: gone_def)
  then show "between s \<Longrightarrow> between (s\<lparr>di_match := map_option f (di_match s)\<rparr>)"
    by (simp add: between_def calm_inv_def)
qed

lemma disc_inv_match_found:
  assumes "between s" and "di_socket s = Some SocketOpen" and "\<not> di_stopped s"
  shows "disc_inv (on_dmatch_found mid p s)"
proof -
  let ?t = "s\<lparr>di_match := Some (read_match mid p), di_phase := DMatched, di_message := [], di_chat := []\<rparr>"
  have live: "\<not> gone ?t" using assms(3) by (simp add: gone_def)
  have start: "start_inv ?t"
    using assms start_socket [of s] by (auto simp: between_def calm_inv_def start_inv_def)
  have chat: "base_inv (s\<lparr>di_chat := ch\<rparr>) = base_inv s" for s ch
  proof -
    have "task_ok (s\<lparr>di_chat := ch\<rparr>) = task_ok s"
      by (simp add: task_ok_def idle_def fun_eq_iff split: disc_cont.split)
    then show ?thesis by (simp add: base_inv_def media_ok_def owned_def in_flight_def peers_ok_def)
  qed
  have "between ?t"
    using assms(1) live start by (simp add: between_def chat calm_inv_def calls_def)
  then show ?thesis using live by (simp add: on_dmatch_found_def Let_def disc_inv_start_encounter)
qed

lemma disc_inv_match_ended:
  assumes "between s" and "di_socket s = Some SocketOpen"
  shows "disc_inv (on_dmatch_ended p s)"
proof -
  let ?t = "(cleanup_encounter s)\<lparr>di_match := None, di_phase := DReady\<rparr>"
  have rel: "released ?t" using assms by (simp add: between_def disc_released_cleanup)
  have "start_inv ?t"
    using assms start_socket [of s] by (auto simp: between_def calm_inv_def start_inv_def)
  then have "between ?t"
    using rel released_calm [OF rel] assms(1) by (simp add: between_def released_def)
  moreover have "between (t\<lparr>di_requeue := b\<rparr>) = between t" for t b
  proof -
    have "task_ok (t\<lparr>di_requeue := b\<rparr>) = task_ok t" "idle (t\<lparr>di_requeue := b\<rparr>) = idle t" "gone (t\<lparr>di_requeue := b\<rparr>) = gone t"
      by (simp_all add: task_ok_def idle_def gone_def fun_eq_iff split: disc_cont.split)
    then show ?thesis
      by (simp add: between_def base_inv_def calm_inv_def media_ok_def owned_def in_flight_def peers_ok_def calls_def)
  qed
  ultimately show ?thesis by (simp add: on_dmatch_ended_def Let_def disc_inv_handled)
qed

lemma disc_inv_description: "between s \<Longrightarrow> disc_inv (on_ddescription offer e s)"
  by (simp add: on_ddescription_def disc_inv_handled disc_inv_await_free split: option.split)

lemma disc_inv_candidate: "between s \<Longrightarrow> disc_inv (on_dcandidate c s)"
  by (simp add: on_dcandidate_def disc_inv_handled disc_inv_await_free split: option.split)

lemma disc_inv_preconnect: "between s \<Longrightarrow> disc_inv (disc_handled (on_preconnect t s))"
  by (simp add: on_preconnect_def disc_inv_handled disc_inv_match_flag)

lemma disc_inv_reconnected:
  assumes "between s" and "di_socket s = Some SocketOpen" and "\<not> di_stopped s"
  shows "disc_inv (on_reconnected s)"
proof -
  have "di_phase s \<noteq> DOffline" using assms open_not_offline by (auto simp: between_def calm_inv_def)
  then have live: "\<not> gone (say m s)" if "di_match s \<noteq> None" for m
    using that assms(3) by (simp add: gone_def say_def)
  have match: "di_match (say m s) = di_match s" for m by (simp add: say_def)
  show ?thesis
  proof (cases "di_match s")
    case None
    then show ?thesis using assms(1) by (simp add: on_reconnected_def Let_def match disc_inv_handled)
  next
    case (Some m)
    then show ?thesis using assms(1) live by (simp add: on_reconnected_def Let_def match disc_inv_start_encounter)
  qed
qed

lemma disc_inv_envelope:
  assumes "between s" and "di_socket s = Some SocketOpen" and "\<not> di_stopped s"
  shows "disc_inv (on_envelope e s)"
proof -
  have ready: "between (s\<lparr>di_ice := i, di_phase := DReady\<rparr>)" for i
    using disc_inv_phase [of "s\<lparr>di_ice := i\<rparr>" DReady] assms by simp
  have phase: "between (s\<lparr>di_phase := ph\<rparr>)" if "ph \<noteq> DOffline" for ph
    using assms that by (simp add: disc_inv_phase)
  show ?thesis
    using assms
    by (simp add: on_envelope_def Let_def disc_inv_handled ready phase disc_inv_match_found disc_inv_match_ended
        disc_inv_description disc_inv_candidate disc_inv_preconnect disc_inv_reconnected)
qed

lemma disc_inv_socket:
  assumes "base_inv s" and "calm_inv s" and "start_inv (s\<lparr>di_socket := so\<rparr>)"
  shows "base_inv (s\<lparr>di_socket := so\<rparr>) \<and> calm_inv (s\<lparr>di_socket := so\<rparr>)"
proof -
  have "task_ok (s\<lparr>di_socket := so\<rparr>) = task_ok s"
    by (simp add: task_ok_def idle_def fun_eq_iff split: disc_cont.split)
  moreover have "idle (s\<lparr>di_socket := so\<rparr>) = idle s" "gone (s\<lparr>di_socket := so\<rparr>) = gone s"
    by (simp_all add: idle_def gone_def)
  ultimately show ?thesis
    using assms by (simp add: base_inv_def calm_inv_def media_ok_def)
qed

lemma start_closed: "start_inv s \<Longrightarrow> di_socket s \<noteq> None \<Longrightarrow> start_inv (s\<lparr>di_socket := Some SocketClosed\<rparr>)"
  by (auto simp: start_inv_def)

lemma disc_inv_on_data:
  assumes "base_inv s" and "calm_inv s" and "calls s = []"
  shows "disc_inv (on_data t s)"
proof -
  let ?s = "s\<lparr>di_handling := True\<rparr>"
  have s: "between ?s" using assms by (simp add: between_def)
  have closed: "disc_inv (disc_handled ((disc_fx (CloseDiscovery 1002) ?s)\<lparr>di_socket := Some SocketClosed\<rparr>))"
    if "di_socket s = Some SocketOpen"
  proof (rule disc_inv_handled)
    have "calls (s\<lparr>di_socket := so\<rparr>) = calls s" for s so by (simp add: calls_def)
    then show "between ((disc_fx (CloseDiscovery 1002) ?s)\<lparr>di_socket := Some SocketClosed\<rparr>)"
      using disc_inv_socket [of "disc_fx (CloseDiscovery 1002) ?s" "Some SocketClosed"] s that
        start_closed [of "disc_fx (CloseDiscovery 1002) ?s"]
      by (simp add: between_def disc_fx_def calm_inv_def)
  qed
  show ?thesis
    using s closed disc_inv_envelope [OF s]
    by (auto simp: on_data_def Let_def disc_inv_handled split: option.split)
qed

lemma disc_inv_drain: "disc_inv s \<Longrightarrow> disc_inv (disc_drain ts s)"
proof (induction ts s rule: disc_drain.induct)
  case (2 t ts s)
  show ?case
  proof (cases "di_handling s")
    case True
    then show ?thesis using 2(2) by (simp add: disc_inv_def)
  next
    case False
    then have "base_inv s" "calm_inv s" "calls s = []" using 2(2) by (auto simp: disc_inv_def)
    then have "disc_inv (on_data t s)" by (rule disc_inv_on_data)
    then show ?thesis using 2(1) False by simp
  qed
qed (simp add: disc_inv_def)

section \<open>Camera switches\<close>

text \<open>A switch runs beside the handlers: its own task has left the pool, the rest is in order.\<close>

definition stepped :: "disc_cont \<Rightarrow> discovery \<Rightarrow> bool" where
  "stepped k s \<longleftrightarrow> live_set (di_devices s) \<subseteq> owned s \<union> in_flight s \<union> switching k \<union> set (di_stale s)
     \<and> peers_ok s \<and> (\<forall>k' \<in> conts (di_tasks s). task_ok s k') \<and> task_ok s k
     \<and> calm_inv s \<and> length (calls s) \<le> 1 \<and> (calls s \<noteq> [] \<longrightarrow> di_handling s)"

lemma stepped_inv: "stepped k s \<Longrightarrow> switching k = {} \<Longrightarrow> disc_inv s"
  by (simp add: stepped_def disc_inv_def base_inv_def media_ok_def)

lemma stepped_stop:
  assumes "stepped k s" and "live_set d \<subseteq> live_set (di_devices s) - switching k"
    and "length (di_devices s) \<le> length d"
  shows "disc_inv (s\<lparr>di_devices := d\<rparr>)"
proof -
  have "task_ok (s\<lparr>di_devices := d\<rparr>) k" if "task_ok s k" for k
    using that assms(3) by (auto simp: task_ok_def split: disc_cont.splits)
  moreover have "media_ok (s\<lparr>di_devices := d\<rparr>)"
    using assms(1,2) unfolding stepped_def media_ok_def by simp blast
  ultimately show ?thesis using assms(1) by (simp add: stepped_def disc_inv_def base_inv_def)
qed

lemma stepped_await:
  assumes "stepped k s" and "switching k \<subseteq> switching k'" and "task_ok s k'" and "\<not> is_handler k'" and "k' \<noteq> KProfile"
    and "\<not> fresh (di_generation s) k'"
  shows "disc_inv (disc_await k' s)"
proof -
  have "media_ok (disc_await k' s)"
    using assms(1,2) unfolding stepped_def media_ok_def by simp blast
  moreover have "calm_inv (disc_await k' s)"
  proof -
    have "gone (disc_await k' s) = gone s" "idle (disc_await k' s) = idle s"
      "di_rawStream (disc_await k' s) = di_rawStream s" "di_pc (disc_await k' s) = di_pc s"
      "di_generation (disc_await k' s) = di_generation s"
      by (simp_all add: disc_await_def)
    then show ?thesis using assms(1,5,6) by (auto simp: stepped_def calm_inv_def)
  qed
  moreover have "calls (disc_await k' s) = calls s" "di_handling (disc_await k' s) = di_handling s"
    using assms(4) by (simp_all add: calls_def disc_await_def)
  ultimately show ?thesis
    using assms by (simp add: stepped_def disc_inv_def base_inv_def)
qed

lemma stepped_frame [simp]:
  "stepped k (disc_fx f s) = stepped k s" "stepped k (say m s) = stepped k s"
proof -
  have "owned (s\<lparr>di_log := l\<rparr>) = owned s" "in_flight (s\<lparr>di_log := l\<rparr>) = in_flight s"
    "peers_ok (s\<lparr>di_log := l\<rparr>) = peers_ok s" "owned (s\<lparr>di_message := m\<rparr>) = owned s"
    "in_flight (s\<lparr>di_message := m\<rparr>) = in_flight s" "peers_ok (s\<lparr>di_message := m\<rparr>) = peers_ok s" for l
    by (simp_all add: owned_def in_flight_def peers_ok_def)
  then show "stepped k (disc_fx f s) = stepped k s" "stepped k (say m s) = stepped k s"
    by (simp_all add: stepped_def disc_fx_def say_def)
qed

lemma stepped_device:
  assumes "stepped k s" and "live_set d \<subseteq> live_set (di_devices s) \<union> switching k'" and "switching k \<subseteq> switching k'"
    and "length (di_devices s) \<le> length d" and "task_ok (s\<lparr>di_devices := d\<rparr>) k'"
  shows "stepped k' (s\<lparr>di_devices := d\<rparr>)"
proof -
  have "task_ok (s\<lparr>di_devices := d\<rparr>) k" if "task_ok s k" for k
    using that assms(4) by (auto simp: task_ok_def split: disc_cont.splits)
  moreover have "live_set d \<subseteq> owned s \<union> in_flight s \<union> switching k' \<union> set (di_stale s)"
    using assms(1-3) unfolding stepped_def by blast
  ultimately show ?thesis using assms(1,5) by (simp add: stepped_def)
qed

lemma disc_inv_switch_raw:
  assumes "stepped (KSwitch dev g) s"
  shows "disc_inv (got_switch_raw dev g s)"
proof -
  let ?d = "snd (open_track Video (di_devices s))" and ?k = "KSwitchCam dev g (length (di_devices s))"
  have k: "task_ok (s\<lparr>di_devices := ?d\<rparr>) ?k"
    using assms by (simp add: stepped_def task_ok_def)
  have "stepped ?k (s\<lparr>di_devices := ?d\<rparr>)"
    using assms k by (intro stepped_device) (auto simp: switching_def)
  then have "disc_inv (disc_await ?k (s\<lparr>di_devices := ?d\<rparr>))"
    using k by (rule stepped_await [OF _ subset_refl]) (simp_all add: is_handler_def fresh_def)
  then show ?thesis by (simp add: got_switch_raw_def split_beta)
qed

lemma disc_inv_switch_cam:
  assumes step: "stepped (KSwitchCam dev g raw) s"
  shows "disc_inv (got_switch_cam dev g raw env s)"
proof -
  obtain c d where p: "process_camera env raw (di_devices s) = (c, d)" by (cases "process_camera env raw (di_devices s)")
  have raw: "raw < length (di_devices s)" and g: "g \<le> di_generation s"
    using step by (simp_all add: stepped_def task_ok_def)
  note live = process_camera_live [OF p raw]
  show ?thesis
  proof (cases c)
    case None
    then have "disc_inv (s\<lparr>di_devices := d\<rparr>)"
      using live by (intro stepped_stop [OF step]) (auto simp: switching_def)
    then show ?thesis using None by (simp add: got_switch_cam_def p cannot_switch_def)
  next
    case (Some cap)
    have stop: "disc_inv (s\<lparr>di_devices := stop_capture cap d\<rparr>)"
      using live Some by (intro stepped_stop [OF step]) (auto simp: switching_def)
    have go: "disc_inv (disc_await (KSwitchTrack dev g cap ts) (disc_fx f (s\<lparr>di_devices := d\<rparr>)))"
      if "di_localStream s = Some ts" for ts f
    proof -
      have k: "task_ok (s\<lparr>di_devices := d\<rparr>) (KSwitchTrack dev g cap ts)" using that g by (simp add: task_ok_def)
      have "stepped (KSwitchTrack dev g cap ts) (disc_fx f (s\<lparr>di_devices := d\<rparr>))"
        using live Some k by (simp, intro stepped_device [OF step]) (auto simp: switching_def)
      then show ?thesis
        by (rule stepped_await [OF _ subset_refl]) (use k in \<open>simp_all add: is_handler_def fresh_def disc_fx_def\<close>)
    qed
    show ?thesis
      using Some stop go by (auto simp: got_switch_cam_def p split: option.split)
  qed
qed

lemma switched_tasks:
  assumes "stepped (KSwitchTrack dev g c ts) s" and "k \<in> conts (di_tasks s)"
  shows "task_ok (switched dev g c ts s) k"
proof -
  have k: "task_ok s k" and here: "task_ok s (KSwitchTrack dev g c ts)" using assms by (simp_all add: stepped_def)
  show ?thesis
  proof (cases "g = di_generation s")
    case True
    then have "\<not> idle s" using here by (auto simp: task_ok_def idle_def)
    then show ?thesis
      using k True by (auto simp: task_ok_def switched_def Let_def split: disc_cont.splits)
  next
    case False
    then show ?thesis
      using k by (auto simp: task_ok_def switched_def Let_def idle_def split: disc_cont.splits)
  qed
qed

lemma disc_inv_switched:
  assumes step: "stepped (KSwitchTrack dev g c ts) s"
  shows "disc_inv (switched dev g c ts s)"
proof -
  let ?t = "switched dev g c ts s"
  have here: "task_ok s (KSwitchTrack dev g c ts)" using step by (simp add: stepped_def)
  have same: "di_tasks ?t = di_tasks s" "di_rawStream ?t = di_rawStream s" "di_pc ?t = di_pc s"
    "gone ?t = gone s" "di_generation ?t = di_generation s" "calls ?t = calls s" "di_handling ?t = di_handling s"
    "start_inv ?t = start_inv s" "peers_ok ?t = peers_ok s" "in_flight ?t = in_flight s"
    by (auto simp: switched_def Let_def gone_def calls_def)
  let ?cur = "if g = di_generation s then stream_of (di_localStream s) else ts"
  let ?d = "release_camera (di_capture s) (di_devices s)"
  let ?vs = "of_kind Video ?d ?cur"
  have live: "live_set (di_devices ?t) = live_set (di_devices s) - camera_tracks (di_capture s) - set ?vs"
    by (simp add: switched_def Let_def)
  have "media_ok ?t"
  proof -
    have "live_set (di_devices s) \<subseteq> owned s \<union> in_flight s \<union> {cap_track c, cap_raw c} \<union> set (di_stale s)"
      using step by (simp add: stepped_def switching_def)
    moreover have "owned s - camera_tracks (di_capture s) - set ?vs \<subseteq> owned ?t"
      by (auto simp: owned_def switched_def Let_def stream_of_def)
    moreover have "{cap_track c, cap_raw c} \<subseteq> owned ?t" by (auto simp: owned_def switched_def Let_def)
    moreover have "set (di_stale s) \<subseteq> set (di_stale ?t)" by (auto simp: switched_def Let_def)
    ultimately show ?thesis unfolding media_ok_def live same(10) by blast
  qed
  moreover have "calm_inv ?t"
  proof -
    have "idle ?t" if "idle s"
    proof -
      have "g \<noteq> di_generation s" using that here by (auto simp: idle_def task_ok_def)
      then show ?thesis using that by (auto simp: idle_def switched_def Let_def)
    qed
    then show ?thesis using step by (simp add: stepped_def calm_inv_def same)
  qed
  ultimately show ?thesis
    using step switched_tasks [OF step] by (simp add: disc_inv_def base_inv_def stepped_def same)
qed

lemma disc_inv_switch_resume:
  assumes "stepped k s" and "\<not> is_handler k" and "k \<noteq> KProfile"
  shows "disc_inv (switch_resume k out s)"
proof (cases k)
  case (KSwitch dev g)
  then show ?thesis
    using assms disc_inv_switch_raw [of dev g s] stepped_inv [of k s] by (auto simp: cannot_switch_def switching_def)
next
  case (KSwitchCam dev g raw)
  have "disc_inv (s\<lparr>di_devices := stop_track raw (di_devices s)\<rparr>)"
    using assms(1) KSwitchCam by (intro stepped_stop [OF assms(1)]) (auto simp: switching_def)
  then show ?thesis
    using assms KSwitchCam disc_inv_switch_cam [of dev g raw s] by (auto simp: cannot_switch_def split: disc_outcome.split)
next
  case (KSwitchTrack dev g c ts)
  have "disc_inv (s\<lparr>di_devices := stop_capture c (di_devices s)\<rparr>)"
    using assms(1) KSwitchTrack by (intro stepped_stop [OF assms(1)]) (auto simp: switching_def)
  then show ?thesis
    using assms KSwitchTrack disc_inv_switched [of dev g c ts s] by (auto simp: cannot_switch_def)
qed (use assms stepped_inv [of k s] in \<open>auto simp: is_handler_def switching_def\<close>)

section \<open>The rest of the page\<close>

lemma page_task [simp]:
  "task_ok (s\<lparr>di_profile := pf\<rparr>) = task_ok s" "task_ok (s\<lparr>di_preferences := pr\<rparr>) = task_ok s"
  "task_ok (s\<lparr>di_safetyOpen := b\<rparr>) = task_ok s" "task_ok (s\<lparr>di_settingsOpen := b\<rparr>) = task_ok s"
  "task_ok (s\<lparr>di_mirror := b\<rparr>) = task_ok s" "task_ok (s\<lparr>di_draft := t\<rparr>) = task_ok s"
  "task_ok (s\<lparr>di_reportCategory := t\<rparr>) = task_ok s" "task_ok (s\<lparr>di_reportDetails := t\<rparr>) = task_ok s"
  "task_ok (s\<lparr>di_chat := ch\<rparr>) = task_ok s" "task_ok (s\<lparr>di_seconds := n\<rparr>) = task_ok s"
  "task_ok (s\<lparr>di_requeue := b\<rparr>) = task_ok s"
  by (simp_all add: task_ok_def idle_def fun_eq_iff split: disc_cont.split)

lemma page_frame [simp]:
  "disc_inv (s\<lparr>di_profile := pf\<rparr>) = disc_inv s" "disc_inv (s\<lparr>di_preferences := pr\<rparr>) = disc_inv s"
  "disc_inv (s\<lparr>di_safetyOpen := b\<rparr>) = disc_inv s" "disc_inv (s\<lparr>di_settingsOpen := b\<rparr>) = disc_inv s"
  "disc_inv (s\<lparr>di_mirror := b\<rparr>) = disc_inv s" "disc_inv (s\<lparr>di_draft := t\<rparr>) = disc_inv s"
  "disc_inv (s\<lparr>di_reportCategory := t\<rparr>) = disc_inv s" "disc_inv (s\<lparr>di_reportDetails := t\<rparr>) = disc_inv s"
  "disc_inv (s\<lparr>di_chat := ch\<rparr>) = disc_inv s" "disc_inv (s\<lparr>di_seconds := n\<rparr>) = disc_inv s"
  "disc_inv (s\<lparr>di_requeue := b\<rparr>) = disc_inv s" "disc_inv (s\<lparr>di_channel := c\<rparr>) = disc_inv s"
  "disc_inv (s\<lparr>di_heartbeat := b\<rparr>) = disc_inv s"
  by (simp_all add: disc_inv_def base_inv_def calm_inv_def start_inv_def media_ok_def owned_def in_flight_def
      peers_ok_def gone_def idle_def calls_def)

lemma disc_inv_connect_failed:
  assumes "disc_inv s" and "di_socket s = None" and "KProfile \<notin> conts (di_tasks s)"
  shows "disc_inv (connect_failed s)"
proof -
  have start: "start_inv s" and match: "di_match s = None"
    using assms by (auto simp: disc_inv_def calm_inv_def start_inv_def)
  have "start_inv (s\<lparr>di_phase := DOffline\<rparr>)" using assms start by (auto simp: start_inv_def)
  moreover have "gone s" "gone (s\<lparr>di_phase := DOffline\<rparr>)" using match by (simp_all add: gone_def)
  ultimately have "disc_inv (s\<lparr>di_phase := DOffline\<rparr>)"
    using assms(1) by (simp add: disc_inv_def calm_inv_def)
  then show ?thesis using assms(1) by (simp add: connect_failed_def)
qed

lemma disc_inv_open_socket:
  assumes "disc_inv s" and "di_socket s = None" and "KProfile \<notin> conts (di_tasks s)" and "di_phase s = DConnecting"
  shows "disc_inv (s\<lparr>di_socket := Some SocketConnecting, di_ice := i\<rparr>)"
proof -
  let ?t = "s\<lparr>di_socket := Some SocketConnecting, di_ice := i\<rparr>"
  have "task_ok ?t = task_ok s" by (simp add: task_ok_def idle_def fun_eq_iff split: disc_cont.split)
  moreover have "start_inv ?t" using assms by (auto simp: disc_inv_def calm_inv_def start_inv_def)
  moreover have "idle ?t = idle s" "gone ?t = gone s" "calls ?t = calls s" by (simp_all add: idle_def gone_def calls_def)
  ultimately show ?thesis
    using assms(1) by (simp add: disc_inv_def base_inv_def calm_inv_def media_ok_def)
qed

lemma disc_inv_got_profile:
  assumes "disc_inv s" and "di_socket s = None" and "KProfile \<notin> conts (di_tasks s)" and "di_phase s = DConnecting"
  shows "disc_inv (got_profile r s)"
proof -
  note failed = disc_inv_connect_failed [OF assms(1-3)]
  have later: "disc_inv (connect_failed (s\<lparr>di_profile := p, di_preferences := q\<rparr>))"
    "disc_inv ((disc_fx OpenDiscovery (s\<lparr>di_profile := p, di_preferences := q\<rparr>))
       \<lparr>di_socket := Some SocketConnecting, di_ice := i\<rparr>)" for p q i
    using assms by (intro disc_inv_connect_failed disc_inv_open_socket; simp add: disc_fx_def)+
  show ?thesis
    using assms(1) failed later
    by (auto simp: got_profile_def goto_def Let_def split: reply.split option.split)
qed

lemma disc_inv_safety_reply: "disc_inv s \<Longrightarrow> disc_inv (safety_reply y n out s)"
  by (auto simp: safety_reply_def split: disc_outcome.split)

lemma disc_inv_resume:
  assumes inv: "disc_inv s" and take: "take_task i (di_tasks s) = Some (k, q)"
  shows "disc_inv (disc_resume k out (s\<lparr>di_tasks := q\<rparr>))"
proof -
  let ?s = "s\<lparr>di_tasks := q\<rparr>"
  have sub: "x \<in> conts q \<Longrightarrow> x \<in> conts (di_tasks s)" for x using take by (rule take_task_sub)
  have k: "task_ok s k" using inv take_task_cont [OF take] by (simp add: disc_inv_def base_inv_def)
  have calls: "length (tasks_of is_handler (di_tasks s)) \<le> 1" using inv by (simp add: disc_inv_def calls_def)
  have profiles: "length (tasks_of (\<lambda>k. k = KProfile) (di_tasks s)) \<le> 1"
    using inv by (simp add: disc_inv_def calm_inv_def start_inv_def)
  note single = take_task_single [OF take calls] and one = take_task_single [OF take profiles]
  have flights: "in_flight s \<subseteq> in_flight ?s \<union> switching k"
    using take by (auto simp: in_flight_def elim!: take_task_SomeE)
  have start: "start_inv ?s"
  proof -
    have "length (tasks_of (\<lambda>k. k = KProfile) q) \<le> 1" using one profiles by (cases "k = KProfile") auto
    then show ?thesis using inv sub by (auto simp: disc_inv_def calm_inv_def start_inv_def)
  qed
  have calm: "calm_inv ?s" using inv sub start by (simp add: disc_inv_def calm_inv_def)
  have media: "live_set (di_devices ?s) \<subseteq> owned ?s \<union> in_flight ?s \<union> switching k \<union> set (di_stale ?s)"
    using inv flights by (simp add: disc_inv_def base_inv_def media_ok_def) blast
  have peers: "peers_ok ?s" and tasks: "\<forall>x \<in> conts (di_tasks ?s). task_ok ?s x"
    using inv sub by (auto simp: disc_inv_def base_inv_def)
  show ?thesis
  proof (cases "is_handler k")
    case True
    then have none: "calls ?s = []" and hd: "di_handling s"
      using single(1) inv by (auto simp: calls_def disc_inv_def)
    have "switching k = {}" using True by (cases k) (simp_all add: is_handler_def switching_def)
    then have "between ?s"
      using media peers tasks calm none hd by (simp add: between_def base_inv_def media_ok_def)
    moreover have "gone s \<longrightarrow> \<not> fresh (di_generation s) k"
      using inv take_task_cont [OF take] by (simp add: disc_inv_def calm_inv_def)
    ultimately have "disc_inv (disc_handler k out ?s)"
      using k True by (intro disc_inv_handler) (simp_all add: resumed_def)
    then show ?thesis using True by (simp add: disc_resume_def Let_def disc_inv_drain)
  next
    case False
    then have cs: "length (calls ?s) \<le> 1" "calls ?s \<noteq> [] \<longrightarrow> di_handling ?s"
      using single(2) inv by (auto simp: calls_def disc_inv_def)
    then have step: "stepped k ?s" using media peers tasks calm k by (simp add: stepped_def)
    show ?thesis
    proof (cases "k = KProfile")
      case True
      have "tasks_of (\<lambda>k. k = KProfile) q = []" using one(1) True by simp
      then have gone_task: "KProfile \<notin> conts q" using set_tasks_of [of "\<lambda>k. k = KProfile" q] by auto
      have "di_socket s = None \<and> di_phase s = DConnecting"
        using inv take_task_cont [OF take] True by (simp add: disc_inv_def calm_inv_def start_inv_def)
      moreover have "switching k = {}" using True by (simp add: switching_def)
      then have "disc_inv ?s" by (rule stepped_inv [OF step])
      ultimately show ?thesis
        using gone_task True
        by (auto simp: disc_resume_def is_handler_def disc_inv_got_profile disc_inv_connect_failed split: disc_outcome.split)
    next
      case other: False
      have "disc_inv (switch_resume k out ?s)" using step False other by (rule disc_inv_switch_resume)
      moreover have "disc_inv ?s" if "k = KBlock \<or> k = KReport"
        using that by (intro stepped_inv [OF step]) (auto simp: switching_def)
      ultimately show ?thesis
        using False other by (cases k) (simp_all add: disc_resume_def is_handler_def disc_inv_safety_reply)
    qed
  qed
qed

lemma disc_inv_lost: "disc_inv s \<Longrightarrow> di_socket s \<noteq> None \<Longrightarrow> disc_inv (socket_lost s)"
proof -
  assume inv: "disc_inv s" and some: "di_socket s \<noteq> None"
  let ?s = "s\<lparr>di_socket := Some SocketClosed\<rparr>"
  have start: "start_inv s" using inv by (simp add: disc_inv_def calm_inv_def)
  have closed: "base_inv ?s \<and> calm_inv ?s"
    using disc_inv_socket [of s] start_closed [OF start some] inv by (simp add: disc_inv_def)
  have rel: "released (cleanup_encounter ?s)" using closed by (simp add: disc_released_cleanup)
  have calls: "calls ?s = calls s" by (simp add: calls_def)
  have start': "start_inv (cleanup_encounter ?s\<lparr>di_phase := DOffline\<rparr>)"
    using start start_socket [OF start some] some by (simp add: start_inv_def)
  have "disc_inv (cleanup_encounter ?s\<lparr>di_phase := DOffline\<rparr>)"
    using rel released_calm [of "cleanup_encounter ?s\<lparr>di_phase := DOffline\<rparr>"] start' inv
    by (simp add: disc_inv_def calls) (simp add: released_def)
  moreover have "disc_inv ?s" using closed inv by (simp add: disc_inv_def calls)
  ultimately show ?thesis by (simp add: socket_lost_def Let_def)
qed

lemma disc_inv_unmount: "disc_inv s \<Longrightarrow> disc_inv (disc_unmount s)"
proof -
  assume inv: "disc_inv s"
  let ?s = "cleanup_encounter (s\<lparr>di_stopped := True, di_heartbeat := False\<rparr>)"
  have base: "base_inv (s\<lparr>di_stopped := True, di_heartbeat := False\<rparr>)" using inv by (simp add: disc_inv_def)
  have start: "start_inv ?s" using inv by (simp add: disc_inv_def calm_inv_def)
  have rel: "released ?s" using base by (rule disc_released_cleanup)
  have s: "disc_inv ?s" using rel released_calm [OF rel start] inv by (simp add: disc_inv_def) (simp add: released_def)
  have "disc_inv ((disc_fx (CloseDiscovery 1000) ?s)\<lparr>di_socket := Some SocketClosed\<rparr>)" if "di_socket s \<noteq> None"
  proof -
    have "calls (t\<lparr>di_socket := so\<rparr>) = calls t" for t so by (simp add: calls_def)
    moreover have "start_inv (disc_fx (CloseDiscovery 1000) ?s)" using start by (simp add: disc_fx_def)
    ultimately show ?thesis
      using disc_inv_socket [of "disc_fx (CloseDiscovery 1000) ?s" "Some SocketClosed"] s that
        start_closed [of "disc_fx (CloseDiscovery 1000) ?s"]
      by (simp add: disc_inv_def disc_fx_def)
  qed
  then show ?thesis using s by (auto simp: disc_unmount_def Let_def split: option.split)
qed

lemma disc_inv_plain_await:
  "disc_inv s \<Longrightarrow> task_ok s k \<Longrightarrow> \<not> is_handler k \<Longrightarrow> k \<noteq> KProfile \<Longrightarrow> switching k = {} \<Longrightarrow>
   \<not> fresh (di_generation s) k \<Longrightarrow> disc_inv (disc_await k s)"
  by (rule stepped_await [of KBlock])
     (simp_all add: stepped_def disc_inv_def base_inv_def media_ok_def task_ok_def [of _ KBlock] switching_def [of KBlock])

lemma disc_inv_press: "disc_inv s \<Longrightarrow> disc_inv (press_step s e)"
proof -
  assume inv: "disc_inv s"
  have awaits: "disc_inv (disc_await (KSwitch dev (di_generation s)) (disc_fx f s))"
    "disc_inv (disc_await KBlock (disc_fx f s))" "disc_inv (disc_await KReport (disc_fx f s))" for dev f
    using inv by (intro disc_inv_plain_await; simp add: task_ok_def is_handler_def switching_def fresh_def disc_fx_def)+
  show ?thesis
    using inv awaits
    by (cases e) (auto simp: disc_join_def match_do_def send_chat_def Let_def split: option.split)
qed

lemma disc_inv_browser: "disc_inv s \<Longrightarrow> disc_inv (browser_step s e)"
proof (cases e)
  case DiscOpened
  assume inv: "disc_inv s"
  have "disc_inv (s\<lparr>di_socket := Some SocketOpen\<rparr>)" if some: "di_socket s = Some SocketConnecting"
  proof -
    have "start_inv s" using inv by (simp add: disc_inv_def calm_inv_def)
    then have "start_inv (s\<lparr>di_socket := Some SocketOpen\<rparr>)" using some by (auto simp: start_inv_def)
    then have "base_inv (s\<lparr>di_socket := Some SocketOpen\<rparr>) \<and> calm_inv (s\<lparr>di_socket := Some SocketOpen\<rparr>)"
      using inv disc_inv_socket [of s] by (simp add: disc_inv_def)
    moreover have "calls (s\<lparr>di_socket := so\<rparr>) = calls s" for so by (simp add: calls_def)
    ultimately show ?thesis using inv by (simp add: disc_inv_def)
  qed
  then show ?thesis using inv DiscOpened by simp
qed (auto simp: disc_inv_drain disc_inv_lost disc_inv_unmount tick_def split: option.split)

lemma disc_inv_step: "disc_inv s \<Longrightarrow> disc_inv (disc_step s e)"
proof (cases "\<exists>i out. e = DiscResume i out")
  case True
  assume "disc_inv s"
  then show ?thesis using True disc_inv_resume [of s] by (auto simp: disc_step_def split: option.split)
next
  case False
  assume inv: "disc_inv s"
  have "disc_step s e = (if di_stopped s then browser_step s e else press_step (browser_step s e) e)"
    using False by (cases e) (simp_all add: disc_step_def del: browser_step.simps press_step.simps)
  then show ?thesis using disc_inv_browser [OF inv, of e] disc_inv_press by simp
qed

interpretation discovery: machine disc_step "\<lambda>_ _. True" disc_inv
  by unfold_locales (rule disc_inv_step)

lemma disc_inv_init: "disc_inv (discovery_init u i)"
  by (simp add: disc_inv_def base_inv_def calm_inv_def start_inv_def media_ok_def peers_ok_def gone_def
      idle_def calls_def discovery_init_def task_ok_def fresh_def is_handler_def owned_def in_flight_def stream_of_def)

lemma disc_reachable_inv:
  "reachable disc_step (\<lambda>_ _. True) (discovery_init u i) s \<Longrightarrow> disc_inv s"
  by (erule discovery.inv_reachable) (rule disc_inv_init)

end
