(* ===== verification/Discovery_Guarantees.thy ===== *)
theory Discovery_Guarantees
  imports Discovery_Safety
begin

text \<open>
  What \<open>Discovery_Client\<close> promises: cameras and connections end with the encounter, Next finds
  the next partner and Leave does not, the countdown, and the runs that show where the code
  does less than it means to.
\<close>

abbreviation disc_reachable :: "bool \<Rightarrow> bool \<Rightarrow> discovery \<Rightarrow> bool" where
  "disc_reachable u i s \<equiv> reachable disc_step (\<lambda>_ _. True) (discovery_init u i) s"

section \<open>Cameras and connections\<close>


text \<open>Frames of the server, as text.\<close>

definition server_text :: "string \<Rightarrow> json option \<Rightarrow> json \<Rightarrow> jstr" where
  "server_text t mid p = stringify (envelope_json \<lparr>env_type = lit t, env_request = None, env_match = mid, env_payload = p\<rparr>)"

definition sample_profile :: profile where
  "sample_profile = \<lparr>pf_id = lit ''u'', pf_displayName = lit ''A'', pf_avatarUrl = [], pf_bio = [], pf_countryCode = [],
     pf_interests = [], pf_languages = [lit ''en''], pf_discoveryIntent = lit ''dating''\<rparr>"

definition match_text :: jstr where
  "match_text = server_text ''match.found'' (Some (JStr (lit ''m1''))) (JObj [(lit ''offerer'', JBool True), (lit ''expiresAt'', JNum 60000)])"

definition ended_text :: jstr where
  "ended_text = server_text ''match.ended'' (Some (JStr (lit ''m1''))) (JObj [(lit ''reason'', JStr (lit ''left''))])"

lemma parse_server:
  assumes "plain p" and "truthy (Some p)" and "case mid of None \<Rightarrow> True | Some m \<Rightarrow> plain m"
  shows "discovery_parse (server_text t mid p) = Some \<lparr>env_type = lit t, env_request = None, env_match = mid, env_payload = p\<rparr>"
  unfolding server_text_def discovery_parse_agrees
  using assms by (simp add: parse_envelope_json plain_envelope_def split: option.splits)

text \<open>From the page's mount to an encounter whose camera is ready.\<close>

definition good_camera :: camera_env where
  "good_camera = \<lparr>ce_native = NativeOk, ce_context = True, ce_play = True, ce_request_frame = True\<rparr>"

definition met :: "disc_event list" where
  "met = [DiscResume 0 (DProfile (Response 200 (Some sample_profile))), DiscOpened, DiscData match_text,
     DiscResume 1 DDone, DiscResume 2 (DCamera good_camera), DiscResume 3 DDone, DiscResume 4 DDone,
     DiscResume 5 (DSdp []), DiscResume 6 DDone]"

lemma disc_run_reachable: "disc_reachable u i (run disc_step (discovery_init u i) es)"
  by (rule admissible_reachable) (rule admissible_True)

text \<open>Facts that evaluate such runs.\<close>

lemma take_task_Cons:
  "take_task i ((j, k) # p) = (if i = j then Some (k, p)
     else map_option (\<lambda>(x, q). (x, (j, k) # q)) (take_task i p))"
proof (cases "i = j")
  case False
  then have drop: "dropWhile (\<lambda>e. fst e \<noteq> i) ((j, k) # p) = dropWhile (\<lambda>e. fst e \<noteq> i) p"
    and take: "takeWhile (\<lambda>e. fst e \<noteq> i) ((j, k) # p) = (j, k) # takeWhile (\<lambda>e. fst e \<noteq> i) p" by simp_all
  show ?thesis using False unfolding take_task_def drop take
    by (cases "dropWhile (\<lambda>e. fst e \<noteq> i) p") (simp_all del: dropWhile_eq_Nil_conv dropWhile_eq_Cons_conv split: prod.split)
qed (simp add: take_task_def)

lemma take_task_Nil: "take_task i [] = None"
  by (simp add: take_task_def)

lemma sample_ready: "profile_ready sample_profile"
  by (simp add: profile_ready_def sample_profile_def blank_iff_all_space lit_def js_space_def of_char_def)

lemmas disc_eval = disc_step_def disc_resume_def is_handler_def got_profile_def disc_fx_def disc_await_def
  say_def goto_def ok_status_def take_task_Cons take_task_Nil on_data_def on_envelope_def on_dmatch_found_def
  read_match_def num_of_def start_encounter_def cleanup_peer_def cleanup_media_def stream_usable_def got_raw_def
  both_tracks_def open_track_def got_processed_def process_camera_def good_camera_def open_call_def
  wire_call_def media_needed_def disc_handled_def stream_of_def of_kind_def stop_tracks_def stop_track_def
  on_dmatch_ended_def cleanup_encounter_def close_dpeer_def stop_capture_def disc_send_def member_def
  match_text_def ended_text_def parse_server discovery_init_def sample_ready Let_def


text \<open>The leak of \<open>switchCamera\<close>: the page is left while \<open>replaceTrack\<close> is pending, and the new
  camera stays on for good.\<close>

lemma switch_then_leave_leaks_camera:
  "live_set (di_devices (run disc_step (discovery_init True True)
     (met @ [ToggleSettings True, PressSwitch [], DiscResume 7 DDone, DiscResume 8 (DCamera good_camera),
        DiscUnmount, DiscResume 9 DDone]))) \<noteq> {}"
  by (simp add: met_def disc_eval got_switch_raw_def got_switch_cam_def switched_def disc_unmount_def
      live_set_def live_track_def) (rule exI [of _ 3], simp)

section \<open>Next and Leave\<close>

text \<open>The frames the client has sent.\<close>

fun is_signal :: "disc_fx \<Rightarrow> bool" where
  "is_signal (Signal t p m) = True"
| "is_signal _ = False"

definition signals :: "discovery \<Rightarrow> disc_fx list" where
  "signals s = filter is_signal (di_log s)"

lemma signals_frame [simp]:
  "signals (disc_fx f s) = signals s @ (if is_signal f then [f] else [])"
  "signals (say m s) = signals s" "signals (disc_handled s) = signals s"
  by (simp_all add: signals_def disc_fx_def say_def disc_handled_def)

lemma signals_update [simp]:
  "signals (s\<lparr>di_peers := a\<rparr>) = signals s" "signals (s\<lparr>di_devices := b\<rparr>) = signals s"
  "signals (s\<lparr>di_match := c\<rparr>) = signals s" "signals (s\<lparr>di_phase := d\<rparr>) = signals s"
  "signals (s\<lparr>di_requeue := e\<rparr>) = signals s" "signals (s\<lparr>di_handling := e\<rparr>) = signals s"
  "signals (s\<lparr>di_queue := f\<rparr>) = signals s"
  by (simp_all add: signals_def)

lemma cleanup_keeps [simp]:
  "signals (cleanup_encounter s) = signals s" "di_socket (cleanup_encounter s) = di_socket s"
  "di_requeue (cleanup_encounter s) = di_requeue s" "di_preferences (cleanup_encounter s) = di_preferences s"
  by (simp_all add: cleanup_encounter_def cleanup_peer_def cleanup_media_def close_dpeer_def disc_fx_def Let_def
      signals_def split: option.split)

lemma send_signal: "di_socket s = Some SocketOpen \<Longrightarrow>
  disc_send t p m s = disc_fx (Signal (lit t) p m) s"
  by (simp add: disc_send_def)

definition end_frame :: "dmatch \<Rightarrow> json \<Rightarrow> jstr" where
  "end_frame m p = server_text ''match.ended'' (Some (dm_id m)) p"

lemma match_do_open: "di_socket s = Some SocketOpen \<Longrightarrow> di_match s = Some m \<Longrightarrow>
  match_do a s = disc_fx (Signal (lit (action_name a)) (JObj []) (Some (dm_id m)))
    (if a = ActSkip then s\<lparr>di_requeue := True\<rparr> else s)"
  by (simp add: match_do_def disc_send_def)

lemma ended_frame:
  assumes "di_socket s = Some SocketOpen" and "\<not> di_stopped s" and "\<not> di_handling s" and "di_queue s = []"
    and "plain p" and "truthy (Some p)" and "plain (dm_id m)"
  shows "let s' = disc_step s (DiscData (end_frame m p)) in
    signals s' = signals s @ (if di_requeue s then [Signal (lit ''queue.join'') (preferences_json (di_preferences s)) None] else [])
    \<and> \<not> di_requeue s' \<and> di_match s' = None \<and> di_phase s' = DReady"
  using assms
  by (simp add: Let_def disc_step_def on_data_def end_frame_def parse_server on_envelope_def on_dmatch_ended_def
      send_signal say_def disc_handled_def) (simp add: disc_fx_def signals_def cleanup_keeps(1) [unfolded signals_def])


definition first_match :: dmatch where
  "first_match = \<lparr>dm_id = JStr (lit ''m1''), dm_peer = None, dm_shared = JArr [], dm_intent = None,
     dm_offerer = True, dm_expiresAt = Some 60000, dm_extended = False, dm_connected = False\<rparr>"


section \<open>The countdown\<close>

text \<open>The seconds shown while an encounter has not been extended: never negative, 0 exactly from the
  moment it expires, and otherwise the remaining time rounded up.\<close>

lemma countdown_rounds_up:
  "0 \<le> seconds_left e now" "seconds_left e now = 0 \<longleftrightarrow> e \<le> now"
  "now < e \<Longrightarrow> 1000 * (seconds_left e now - 1) < e - now \<and> e - now \<le> 1000 * seconds_left e now"
proof -
  let ?q = "- ((now - e) div 1000)"
  have "1000 * (?q - 1) < e - now" "e - now \<le> 1000 * ?q" using ceil_div [of 1000 "e - now"] by simp_all
  then show "0 \<le> seconds_left e now" "seconds_left e now = 0 \<longleftrightarrow> e \<le> now"
    "now < e \<Longrightarrow> 1000 * (seconds_left e now - 1) < e - now \<and> e - now \<le> 1000 * seconds_left e now"
    unfolding seconds_left_def by auto
qed

text \<open>A press of Next that the server does not answer (the socket is just closing, or the encounter
  already ended) leaves the wish for a next partner set: the end of a later encounter, whatever
  its reason, rejoins the queue.\<close>

lemma requeue_outlives_its_encounter:
  assumes "di_socket s = Some SocketConnecting" and "di_match s = Some m" and "\<not> di_stopped s"
  shows "di_requeue (disc_step s (PressAction ActSkip))" "signals (disc_step s (PressAction ActSkip)) = signals s"
  using assms by (simp_all add: disc_step_def action_enabled_def match_do_def disc_send_def)

end
