(* ===== verification/Discovery_Settling.thy ===== *)
theory Discovery_Settling
  imports Discovery_Guarantees
begin

text \<open>
  Leaving the discovery page: \<open>async\<close> calls that were under way go on after the unmount, but each
  resumption brings them nearer to their end, and nothing starts a new one. The measure counts
  the awaits that are left.
\<close>

text \<open>The awaits a pending call still has, its own included, on a page that was left.\<close>

fun awaits_left :: "disc_cont \<Rightarrow> nat" where
  "awaits_left (KParams m pc ts) = 3 + length ts"
| "awaits_left (KDOffer m pc) = 2"
| "awaits_left (KDPend offer pc mid cs) = 3 + length cs"
| "awaits_left (KDRemote offer pc mid) = 3"
| "awaits_left (KDAnswer pc mid) = 2"
| "awaits_left (KSwitch dev g) = 3"
| "awaits_left (KSwitchCam dev g raw) = 2"
| "awaits_left _ = 1"

definition work_of :: "disc_cont pool \<Rightarrow> nat" where
  "work_of p = sum_list (map (awaits_left \<circ> snd) p)"

definition work_left :: "discovery \<Rightarrow> nat" where
  "work_left s = work_of (di_tasks s)"

definition left_page :: "discovery \<Rightarrow> bool" where
  "left_page s \<longleftrightarrow> di_stopped s \<and> disc_inv s \<and> di_pendingIce s = []"

definition disc_resumes :: "discovery \<Rightarrow> disc_event \<Rightarrow> bool" where
  "disc_resumes s e = (case e of DiscResume i out \<Rightarrow> take_task i (di_tasks s) \<noteq> None | _ \<Rightarrow> False)"

lemma awaits_pos: "0 < awaits_left k"
  by (cases k) simp_all

lemma work_of_simps [simp]:
  "work_of [] = 0" "work_of ((i, k) # p) = awaits_left k + work_of p" "work_of (p @ q) = work_of p + work_of q"
  by (simp_all add: work_of_def)

lemma work_of_0: "work_of p = 0 \<longleftrightarrow> p = []"
proof (cases p)
  case (Cons e q)
  then show ?thesis using awaits_pos [of "snd e"] by (cases e) simp
qed simp

lemma work_of_taken: "take_task i p = Some (k, q) \<Longrightarrow> work_of p = awaits_left k + work_of q"
  by (induction p arbitrary: q) (auto simp: take_task_Nil take_task_Cons split: if_splits)

lemma left_page_no_stream: "left_page s \<Longrightarrow> di_localStream s = None"
  by (simp add: left_page_def disc_inv_def calm_inv_def gone_def idle_def)

text \<open>A part of a call that continues \<open>s\<close> as \<open>t\<close> with at most \<open>n\<close> awaits more.\<close>

definition settles :: "nat \<Rightarrow> discovery \<Rightarrow> discovery \<Rightarrow> bool" where
  "settles n s t \<longleftrightarrow> di_stopped t = di_stopped s \<and> di_pendingIce t = di_pendingIce s
     \<and> (\<exists>ks. di_tasks t = di_tasks s @ ks \<and> work_of ks \<le> n)"

lemma settles_same: "di_stopped t = di_stopped s \<Longrightarrow> di_pendingIce t = di_pendingIce s \<Longrightarrow> di_tasks t = di_tasks s \<Longrightarrow> settles n s t"
  by (simp add: settles_def)

lemma settles_0: "settles 0 s t \<longleftrightarrow> di_stopped t = di_stopped s \<and> di_pendingIce t = di_pendingIce s \<and> di_tasks t = di_tasks s"
  by (simp add: settles_def work_of_0)

lemma settles_await: "settles 0 s t \<Longrightarrow> awaits_left k \<le> n \<Longrightarrow> settles n s (disc_await k t)"
  unfolding settles_0 by (simp add: settles_def disc_await_def)

lemma settles_frame [simp]:
  "settles n s (disc_fx f t) = settles n s t" "settles n s (say m t) = settles n s t"
  "settles n s (disc_handled t) = settles n s t" "settles n s (media_needed t) = settles n s t"
  "settles n s (cannot_switch t) = settles n s t" "settles n s (disc_send ty p mid t) = settles n s t"
  "settles n s (goto page t) = settles n s t"
  "settles n s (t\<lparr>di_devices := d\<rparr>) = settles n s t" "settles n s (t\<lparr>di_peers := ps\<rparr>) = settles n s t"
  "settles n s (t\<lparr>di_channel := ch\<rparr>) = settles n s t" "settles n s (t\<lparr>di_handling := b\<rparr>) = settles n s t"
  "settles n s (t\<lparr>di_queue := q\<rparr>) = settles n s t" "settles n s (t\<lparr>di_safetyOpen := b\<rparr>) = settles n s t"
  "settles n s (t\<lparr>di_capture := c\<rparr>) = settles n s t" "settles n s (t\<lparr>di_camera := cm\<rparr>) = settles n s t"
  "settles n s (t\<lparr>di_localStream := ls\<rparr>) = settles n s t" "settles n s (t\<lparr>di_stale := st\<rparr>) = settles n s t"
  by (simp_all add: settles_def disc_fx_def say_def disc_handled_def media_needed_def cannot_switch_def disc_send_def goto_def)

lemma settles_refl [simp]: "settles n s s"
  by (simp add: settles_def)

lemma settles_senders: "settles 0 s t \<Longrightarrow> settles (2 + length ts) s (add_senders m pc ts t)"
proof (induction ts arbitrary: t)
  case Nil
  then show ?case by (auto simp: wire_call_def settles_await) (auto simp: settles_0 settles_same)
next
  case (Cons x xs)
  have weak: "settles (2 + length xs) s u \<Longrightarrow> settles (2 + length (x # xs)) s u" "settles 0 s u \<Longrightarrow> settles (2 + length (x # xs)) s u" for u
    by (auto simp: settles_0 settles_same) (auto simp: settles_def)
  show ?case using Cons weak by (simp add: settles_await)
qed

lemma settles_handler:
  assumes "di_stopped s" and "di_localStream s = None" and "di_pendingIce s = []"
  shows "settles (awaits_left k - 1) s (disc_handler k out s)"
proof (cases k)
  case (KMedia m g)
  then show ?thesis using assms(1) by (simp add: got_raw_def split: prod.split)
next
  case (KProcess m g raw)
  then show ?thesis using assms(1) by (simp add: got_processed_def split: disc_outcome.split prod.split option.split)
next
  case (KDevices m)
  then show ?thesis using assms(2) by (simp add: open_call_def)
next
  case (KParams m pc ts)
  then show ?thesis using settles_senders [of s s ts m pc] by simp
next
  case (KDRemote offer pc mid)
  then show ?thesis using assms by (simp add: reconnect_failed_def dremote_set_def settles_await settles_same)
next
  case (KDPend offer pc mid cs)
  then show ?thesis by (cases cs) (simp_all add: settles_await)
qed (simp_all add: settles_await reconnect_failed_def split: disc_outcome.split)

lemma settles_drain:
  "di_stopped s \<Longrightarrow> settles 0 s (disc_drain ts s)"
proof (induction ts arbitrary: s)
  case (Cons t ts)
  have data: "on_data t s = s\<lparr>di_handling := False\<rparr>" using Cons.prems by (simp add: on_data_def disc_handled_def)
  have "settles 0 (s\<lparr>di_handling := False\<rparr>) (disc_drain ts (s\<lparr>di_handling := False\<rparr>))" using Cons.prems by (intro Cons.IH) simp
  then have "settles 0 s (disc_drain ts (on_data t s))" by (simp add: data settles_def)
  then show ?case by simp
qed simp

lemma settles_trans: "settles n s t \<Longrightarrow> settles 0 t u \<Longrightarrow> settles n s u"
  unfolding settles_0 by (simp add: settles_def)

lemma settles_switch:
  assumes "di_localStream s = None"
  shows "settles (awaits_left k - 1) s (switch_resume k out s)"
  using assms
  by (cases k) (simp_all add: settles_await got_switch_raw_def got_switch_cam_def switched_def Let_def
      split: disc_outcome.split prod.split option.split)

lemma settles_resume:
  assumes "di_stopped s" and "di_localStream s = None" and "di_pendingIce s = []"
  shows "settles (awaits_left k - 1) s (disc_resume k out s)"
proof (cases "is_handler k")
  case True
  have h: "settles (awaits_left k - 1) s (disc_handler k out s)" using assms by (rule settles_handler)
  then have "di_stopped (disc_handler k out s)" using assms(1) by (simp add: settles_def)
  then have "settles (awaits_left k - 1) s (disc_drain (di_queue (disc_handler k out s)) (disc_handler k out s))"
    by (intro settles_trans [OF h] settles_drain)
  with h True show ?thesis by (simp add: disc_resume_def Let_def)
next
  case False
  then show ?thesis using assms settles_switch [OF assms(2), of k out]
    by (cases k) (auto simp: disc_resume_def is_handler_def got_profile_def connect_failed_def safety_reply_def
        settles_same split: disc_outcome.split reply.split option.split)
qed
lemma cleanup_work [simp]:
  "di_tasks (cleanup_encounter s) = di_tasks s" "di_stopped (cleanup_encounter s) = di_stopped s"
  "di_pendingIce (cleanup_encounter s) = []"
  by (simp_all add: cleanup_encounter_def cleanup_peer_def cleanup_media_def close_dpeer_def disc_fx_def Let_def split: option.split)

lemma unmount_work:
  "di_tasks (disc_unmount s) = di_tasks s" "di_stopped (disc_unmount s)" "di_pendingIce (disc_unmount s) = []"
  by (simp_all add: disc_unmount_def Let_def disc_fx_def split: option.split)

lemma left_page_browser:
  assumes "di_stopped s" and "di_pendingIce s = []"
  shows "settles 0 s (browser_step s e)"
proof (cases e)
  case (DiscData t)
  then show ?thesis using settles_drain [OF assms(1)] by simp
next
  case DiscUnmount
  then show ?thesis using assms unmount_work [of s] by (simp add: settles_0)
qed (use assms in \<open>simp_all add: settles_0 socket_lost_def disc_send_def disc_fx_def say_def\<close>)

lemma left_page_step:
  assumes "left_page s"
  shows "left_page (disc_step s e)
    \<and> work_left (disc_step s e) + (if disc_resumes s e then 1 else 0) \<le> work_left s"
proof -
  have s: "di_stopped s" "di_pendingIce s = []" "disc_inv s" using assms by (simp_all add: left_page_def)
  note inv = disc_inv_step [OF s(3), of e]
  consider (resume) i out k q where "e = DiscResume i out" "take_task i (di_tasks s) = Some (k, q)"
    | (lost) i out where "e = DiscResume i out" "take_task i (di_tasks s) = None"
    | (browser) "\<And>i out. e \<noteq> DiscResume i out"
    by (metis option.exhaust surj_pair)
  then show ?thesis
  proof cases
    case resume
    let ?t = "s\<lparr>di_tasks := q\<rparr>"
    have "settles (awaits_left k - 1) ?t (disc_resume k out ?t)"
      by (rule settles_resume) (simp_all add: s left_page_no_stream [OF assms])
    then show ?thesis
      using resume inv s work_of_taken [OF resume(2)] awaits_pos [of k]
      by (auto simp: disc_step_def settles_def left_page_def work_left_def disc_resumes_def)
  next
    case lost
    then show ?thesis using assms by (simp add: disc_step_def disc_resumes_def)
  next
    case browser
    then have step: "disc_step s e = browser_step s e" "\<not> disc_resumes s e"
      using s(1) by (cases e; simp add: disc_step_def disc_resumes_def)+
    then show ?thesis using left_page_browser [OF s(1,2), of e] inv s by (simp add: settles_0 left_page_def work_left_def)
  qed
qed

interpretation leaving: quiescing disc_step disc_resumes left_page work_left
proof
  fix s e assume left: "left_page s"
  show "left_page (disc_step s e)" using left_page_step [OF left] by blast
  show "work_left (disc_step s e) \<le> work_left s" using left_page_step [OF left, of e] by simp
  show "work_left (disc_step s e) < work_left s" if "disc_resumes s e"
    using left_page_step [OF left, of e] that by simp
qed

lemma unmount_leaves: "disc_reachable u i s \<Longrightarrow> left_page (disc_step s DiscUnmount)"
  using disc_inv_step [OF disc_reachable_inv, of u i s DiscUnmount] unmount_work [of s]
  by (simp add: left_page_def disc_step_def)

text \<open>C13: Leaving the discovery page ends what it had under way. However many browser events, settled
  promises and queued frames follow the unmount, the pending \<open>async\<close> calls are resumed at most
  as often as awaits were left in them, new calls are never started, and a page that has used
  up these resumptions has no call pending. An offer or a list of tracks being worked off
  when the page was left is finite work; candidates of a later frame never extend it.\<close>

theorem leaving_discovery_settles:
  assumes "disc_reachable u i s" and "t = disc_step s DiscUnmount"
  shows "resumptions disc_step disc_resumes t es \<le> work_left s
    \<and> length (di_tasks (run disc_step t es)) \<le> work_left s - resumptions disc_step disc_resumes t es"
proof -
  have left: "left_page t" using assms unmount_leaves by simp
  have work: "work_left t = work_left s"
    using assms(2) unmount_work [of s] by (simp add: disc_step_def work_left_def)
  have "length p \<le> work_of p" for p
  proof (induction p)
    case (Cons e p)
    then show ?case using awaits_pos [of "snd e"] by (cases e) simp
  qed simp
  from this [of "di_tasks (run disc_step t es)"] leaving.work_bound [OF left, of es] work
  show ?thesis by (simp add: work_left_def)
qed

text \<open>A page left while the camera is being processed: one resumption, then nothing is pending.\<close>

lemma leaving_discovery_settles_witness:
  "di_tasks (run disc_step (disc_step (run disc_step (discovery_init True True) (take 4 met)) DiscUnmount)
     [DiscResume 2 (DCamera good_camera)]) = []"
proof -
  let ?s = "run disc_step (discovery_init True True) (take 4 met)"
  let ?t = "disc_step ?s DiscUnmount" and ?es = "[DiscResume 2 (DCamera good_camera)]"
  have work: "work_left ?s = 1" by (simp add: met_def disc_eval work_left_def)
  have one: "resumptions disc_step disc_resumes ?t ?es = 1"
    by (simp add: met_def disc_eval disc_resumes_def disc_unmount_def)
  from leaving_discovery_settles [OF disc_run_reachable refl, of True True "take 4 met" ?es] work one
  show ?thesis by simp
qed

end
