(* ===== verification/Runtime_Pages.thy ===== *)
theory Runtime_Pages
  imports Comm_Runtime
begin

text \<open>
  The pages that work through the communication runtime: the settings page
  (\<open>components/communication/settings.tsx\<close>), the notification centre (\<open>notifications.tsx\<close>) and the
  activity page (\<open>activity.tsx\<close>). Each awaits an \<open>async\<close> function of the runtime; the state of a
  page holds the runtime it lives in and the number of the runtime's suspended call it waits for.
\<close>

section \<open>Waiting for the runtime\<close>

datatype promise = Pending nat | Fulfilled | Thrown

text \<open>What becomes of the promise behind call \<open>i\<close> when that call is resumed with \<open>out\<close>.\<close>

definition promise_after :: "nat \<Rightarrow> rt_outcome \<Rightarrow> runtime \<Rightarrow> promise" where
  "promise_after i out r = (case take_task i (rt_tasks r) of None \<Rightarrow> Pending i
     | Some (k, q) \<Rightarrow> (case k of
         KSave \<Rightarrow> if status_ok out then Pending (rt_next r) else Thrown
       | KSaveJson \<Rightarrow> (case out of SettingsBody se \<Rightarrow> Fulfilled | _ \<Rightarrow> Thrown)
       | KNotices \<Rightarrow> if status_ok out then Pending (rt_next r) else if out = RtFailed then Thrown else Fulfilled
       | KNoticesJson \<Rightarrow> (case out of NoticesBody ns \<Rightarrow> Fulfilled | _ \<Rightarrow> Thrown)
       | _ \<Rightarrow> Pending i))"

text \<open>The suspended calls of the runtime are numbered below the counter, without repetitions; a call
  that is pending stays so until it is resumed itself.\<close>

definition pool_ok :: "runtime \<Rightarrow> bool" where
  "pool_ok r \<longleftrightarrow> distinct (map fst (rt_tasks r)) \<and> list_all (\<lambda>e. fst e < rt_next r) (rt_tasks r)"

definition keeps :: "runtime \<Rightarrow> runtime \<Rightarrow> bool" where
  "keeps r r' \<longleftrightarrow> (pool_ok r \<longrightarrow> pool_ok r' \<and> set (rt_tasks r) \<subseteq> set (rt_tasks r'))"

lemma keeps_same: "rt_tasks r' = rt_tasks r \<Longrightarrow> rt_next r' = rt_next r \<Longrightarrow> keeps r r'"
  by (simp add: keeps_def pool_ok_def)

lemma keeps_trans: "keeps r s \<Longrightarrow> keeps s t \<Longrightarrow> keeps r t"
  by (auto simp: keeps_def)

lemma keeps_after: "keeps r s \<Longrightarrow> rt_tasks t = rt_tasks s \<Longrightarrow> rt_next t = rt_next s \<Longrightarrow> keeps r t"
  by (simp add: keeps_def pool_ok_def)

lemma keeps_before: "keeps s t \<Longrightarrow> rt_tasks r = rt_tasks s \<Longrightarrow> rt_next r = rt_next s \<Longrightarrow> keeps r t"
  by (simp add: keeps_def pool_ok_def)

lemma keeps_await: "keeps r (rt_await k r)"
proof -
  have "(\<forall>e \<in> set (rt_tasks r). fst e < rt_next r) \<Longrightarrow> rt_next r \<notin> fst ` set (rt_tasks r)" by force
  then show ?thesis by (auto simp: keeps_def pool_ok_def rt_await_def list_all_iff less_SucI)
qed

lemma pool_frame [simp]:
  "rt_tasks (rt_do f r) = rt_tasks r" "rt_next (rt_do f r) = rt_next r"
  "rt_tasks (deliver ev r) = rt_tasks r" "rt_next (deliver ev r) = rt_next r"
  "rt_tasks (connect r) = rt_tasks r" "rt_next (connect r) = rt_next r"
  "rt_tasks (receipt_step ev r) = rt_tasks r" "rt_next (receipt_step ev r) = rt_next r"
  "rt_tasks (native_step env ev r) = rt_tasks r" "rt_next (native_step env ev r) = rt_next r"
  "rt_tasks (invite_step ev r) = rt_tasks r" "rt_next (invite_step ev r) = rt_next r"
  "rt_tasks (settings_step ev r) = rt_tasks r" "rt_next (settings_step ev r) = rt_next r"
  "rt_tasks (take_config ev r) = rt_tasks r" "rt_next (take_config ev r) = rt_next r"
  "rt_tasks (set_identity ev r) = rt_tasks r" "rt_next (set_identity ev r) = rt_next r"
  "rt_tasks (on_close r) = rt_tasks r" "rt_next (on_close r) = rt_next r"
  by (simp_all add: rt_do_def deliver_def connect_def receipt_step_def native_step_def invite_step_def
      settings_step_def take_config_def set_identity_def on_close_def Let_def split: option.split)

lemma keeps_calls: "keeps r (refresh r)" "keeps r (refresh_notices r)" "keeps r (save_settings se r)" "keeps r (start_call c n v r)"
  unfolding refresh_def refresh_notices_def save_settings_def start_call_def
  by (simp_all add: keeps_same keeps_before [OF keeps_await])

lemma keeps_event: "keeps r (on_event env ev r)"
proof -
  have ready: "keeps r (ready_step ev r)"
    unfolding ready_step_def on_ready_def by (simp add: keeps_same keeps_before [OF keeps_calls(1)])
  let ?s = "invite_step ev (settings_step ev (ready_step ev r))"
  have "keeps r ?s" by (rule keeps_after [OF ready]) simp_all
  moreover have "keeps ?s (activity_step env ev ?s)"
    unfolding activity_step_def by (simp add: keeps_same keeps_after [OF keeps_calls(1)])
  ultimately have "keeps r (activity_step env ev ?s)" by (rule keeps_trans)
  then show ?thesis unfolding on_event_def by (rule keeps_after) simp_all
qed

lemma keeps_resume: "keeps r (rt_resume k out r)"
  by (cases k) (auto simp: keeps_same keeps_await split: rt_outcome.split)

lemma taken_pool:
  assumes "pool_ok r" and "take_task j (rt_tasks r) = Some (k, q)"
  shows "pool_ok (r\<lparr>rt_tasks := q\<rparr>)" and "set (rt_tasks r) = insert (j, k) (set q)"
  using assms(2) assms(1) by (auto elim!: take_task_SomeE simp: pool_ok_def)

text \<open>Every step of the runtime keeps the pool in order, and every pending call but the one it
  resumes.\<close>

lemma runtime_pool:
  assumes "pool_ok r"
  shows "pool_ok (runtime_step r e)"
    and "(i, k) \<in> set (rt_tasks r) \<Longrightarrow> (\<And>out. e \<noteq> RtSettle i out) \<Longrightarrow> (i, k) \<in> set (rt_tasks (runtime_step r e))"
proof -
  have "pool_ok (runtime_step r e) \<and> ((i, k) \<in> set (rt_tasks r) \<longrightarrow> (\<forall>out. e \<noteq> RtSettle i out) \<longrightarrow> (i, k) \<in> set (rt_tasks (runtime_step r e)))"
  proof (cases e)
    case (RtSettle j out)
    show ?thesis
    proof (cases "take_task j (rt_tasks r)")
      case (Some kq)
      obtain k' q where kq: "take_task j (rt_tasks r) = Some (k', q)" using Some by (cases kq) auto
      note t = taken_pool [OF assms kq]
      have "keeps (r\<lparr>rt_tasks := q\<rparr>) (rt_resume k' out (r\<lparr>rt_tasks := q\<rparr>))" by (rule keeps_resume)
      with t show ?thesis by (auto simp: RtSettle kq keeps_def)
    qed (use assms in \<open>simp add: RtSettle\<close>)
  next
    case (SocketMessage env ev)
    have "keeps r (runtime_step r e)" by (simp add: SocketMessage keeps_event keeps_same split: option.split)
    then show ?thesis using assms by (auto simp: keeps_def)
  next
    case Dispose
    have "keeps r (runtime_step r e)" by (simp add: Dispose keeps_same)
    then show ?thesis using assms by (auto simp: keeps_def)
  next
    case PollTick
    have "keeps r (runtime_step r e)" by (simp add: PollTick keeps_calls keeps_same)
    then show ?thesis using assms by (auto simp: keeps_def)
  next
    case (StartCall c n v)
    then show ?thesis using assms keeps_calls(4) [of r c n v] by (auto simp: keeps_def)
  next
    case (SaveSettings se)
    then show ?thesis using assms keeps_calls(3) [of r se] by (auto simp: keeps_def)
  next
    case RefreshNotices
    then show ?thesis using assms keeps_calls(2) [of r] by (auto simp: keeps_def)
  qed (use assms in \<open>simp_all add: pool_ok_def\<close>)
  then show "pool_ok (runtime_step r e)"
    and "(i, k) \<in> set (rt_tasks r) \<Longrightarrow> (\<And>out. e \<noteq> RtSettle i out) \<Longrightarrow> (i, k) \<in> set (rt_tasks (runtime_step r e))"
    by auto
qed

lemma take_pending:
  assumes "pool_ok r" and "(i, k) \<in> set (rt_tasks r)"
  obtains q where "take_task i (rt_tasks r) = Some (k, q)"
proof -
  obtain a b where ab: "rt_tasks r = a @ (i, k) # b" using assms(2) by (auto dest: split_list)
  then have "\<forall>e \<in> set a. fst e \<noteq> i" using assms(1) by (force simp: pool_ok_def)
  then have "take_task i (rt_tasks r) = Some (k, a @ b)" unfolding ab take_task_def by simp
  then show thesis by (rule that)
qed

section \<open>The settings page\<close>

datatype setting_change = SetTheme theme | SetNotifications bool | SetTyping bool | SetReadReceipts bool

record settings_page =
  sg_runtime :: runtime
  sg_status :: jstr
  sg_busy :: bool
  sg_wait :: "nat option"   \<comment> \<open>the call of the runtime \<open>change\<close> awaits\<close>
  sg_sent :: "(settings \<times> settings) list"   \<comment> \<open>history: the settings shown and those asked for\<close>

text \<open>\<open>{ ...settings, theme }\<close> and the like.\<close>

fun changed :: "setting_change \<Rightarrow> settings \<Rightarrow> settings" where
  "changed (SetTheme t) se = se\<lparr>se_theme := t\<rparr>"
| "changed (SetNotifications b) se = se\<lparr>se_notifications := b\<rparr>"
| "changed (SetTyping b) se = se\<lparr>se_typing := b\<rparr>"
| "changed (SetReadReceipts b) se = se\<lparr>se_readReceipts := b\<rparr>"

definition change :: "setting_change \<Rightarrow> settings_page \<Rightarrow> settings_page" where
  "change c s = (let r = sg_runtime s; next = changed c (rt_settingsRef r) in
     s\<lparr>sg_busy := True, sg_runtime := runtime_step r (SaveSettings next), sg_wait := Some (rt_next r),
       sg_sent := sg_sent s @ [(rt_settingsRef r, next)]\<rparr>)"

definition change_done :: "string \<Rightarrow> settings_page \<Rightarrow> settings_page" where
  "change_done msg s = s\<lparr>sg_status := lit msg, sg_busy := False, sg_wait := None\<rparr>"

definition after_runtime :: "rt_event \<Rightarrow> runtime \<Rightarrow> settings_page \<Rightarrow> settings_page" where
  "after_runtime e r s = (case (e, sg_wait s) of
     (RtSettle i out, Some j) \<Rightarrow> if i \<noteq> j then s else (case promise_after i out r of
         Pending k \<Rightarrow> s\<lparr>sg_wait := Some k\<rparr>
       | Fulfilled \<Rightarrow> change_done ''Settings saved.'' s
       | Thrown \<Rightarrow> change_done ''Could not save settings. Please try again.'' s)
   | _ \<Rightarrow> s)"

text \<open>\<open>permission\<close>, from the browser's answer: \<open>None\<close> where it knows no notifications.\<close>

definition permission :: "bool option \<Rightarrow> settings_page \<Rightarrow> settings_page" where
  "permission answer s = s\<lparr>sg_status := (case answer of
     None \<Rightarrow> lit ''This browser does not support desktop notifications.''
   | Some granted \<Rightarrow> if granted then lit ''Browser notifications enabled while OneMinute is open.''
       else lit ''Notifications are disabled in your browser. You can change this in site permissions.'')\<rparr>"

datatype settings_event = SgChange setting_change | SgPermission "bool option" | SgRuntime rt_event

text \<open>The controls are disabled while the page is busy.\<close>

definition settings_page_step :: "settings_page \<Rightarrow> settings_event \<Rightarrow> settings_page" where
  "settings_page_step s e = (case e of
     SgChange c \<Rightarrow> if sg_busy s then s else change c s
   | SgPermission answer \<Rightarrow> permission answer s
   | SgRuntime ev \<Rightarrow> after_runtime ev (sg_runtime s) (s\<lparr>sg_runtime := runtime_step (sg_runtime s) ev\<rparr>))"

definition settings_page_init :: "runtime \<Rightarrow> settings_page" where
  "settings_page_init r = \<lparr>sg_runtime = r, sg_status = [], sg_busy = False, sg_wait = None, sg_sent = []\<rparr>"

definition saving :: "rt_cont \<Rightarrow> bool" where
  "saving k \<longleftrightarrow> k = KSave \<or> k = KSaveJson"

definition sg_inv :: "settings_page \<Rightarrow> bool" where
  "sg_inv s \<longleftrightarrow> pool_ok (sg_runtime s) \<and> (sg_busy s \<longleftrightarrow> sg_wait s \<noteq> None)
     \<and> (\<forall>i. sg_wait s = Some i \<longrightarrow> (\<exists>k. saving k \<and> (i, k) \<in> set (rt_tasks (sg_runtime s))))
     \<and> list_all (\<lambda>(shown, next). \<exists>c. next = changed c shown) (sg_sent s)"

lemma promise_kept:
  assumes "pool_ok r" and "(i, k) \<in> set (rt_tasks r)" and "saving k" and "promise_after i out r = Pending j"
  shows "\<exists>k'. saving k' \<and> (j, k') \<in> set (rt_tasks (runtime_step r (RtSettle i out)))"
proof -
  from take_pending [OF assms(1,2)] obtain q where q: "take_task i (rt_tasks r) = Some (k, q)" .
  then have "k = KSave" "status_ok out" "j = rt_next r"
    using assms(3,4) by (auto simp: promise_after_def saving_def split: if_splits rt_outcome.splits)
  then show ?thesis using q by (intro exI [of _ KSaveJson]) (simp add: saving_def rt_await_def)
qed

lemma sg_runtime_inv:
  assumes inv: "sg_inv s"
  shows "sg_inv (settings_page_step s (SgRuntime ev))"
proof -
  let ?r = "sg_runtime s"
  have pool: "pool_ok ?r" "pool_ok (runtime_step ?r ev)" using inv runtime_pool(1) by (simp_all add: sg_inv_def)
  show ?thesis
  proof (cases "sg_wait s")
    case None
    then have "after_runtime ev r (s\<lparr>sg_runtime := r'\<rparr>) = s\<lparr>sg_runtime := r'\<rparr>" for r r'
      by (simp add: after_runtime_def split: rt_event.split)
    then show ?thesis using inv pool None by (simp add: settings_page_step_def sg_inv_def)
  next
    case (Some i)
    then obtain k where k: "saving k" "(i, k) \<in> set (rt_tasks ?r)" "sg_busy s" using inv by (auto simp: sg_inv_def)
    show ?thesis
    proof (cases "\<exists>out. ev = RtSettle i out")
      case True
      then obtain out where ev: "ev = RtSettle i out" by blast
      show ?thesis
      proof (cases "promise_after i out ?r")
        case (Pending j)
        then show ?thesis using promise_kept [OF pool(1) k(2) k(1) Pending] inv pool(2) Some k(3)
          by (simp add: ev settings_page_step_def after_runtime_def sg_inv_def del: runtime_step.simps)
      qed (use inv pool(2) Some in \<open>simp_all add: ev settings_page_step_def after_runtime_def sg_inv_def change_done_def
        del: runtime_step.simps\<close>)
    next
      case False
      then have "after_runtime ev ?r (s\<lparr>sg_runtime := runtime_step ?r ev\<rparr>) = s\<lparr>sg_runtime := runtime_step ?r ev\<rparr>"
        using Some by (auto simp: after_runtime_def split: rt_event.split)
      moreover have "(i, k) \<in> set (rt_tasks (runtime_step ?r ev))" using pool(1) k(2) False by (intro runtime_pool(2)) auto
      ultimately show ?thesis using inv pool(2) k Some by (auto simp: settings_page_step_def sg_inv_def)
    qed
  qed
qed

lemma sg_change_inv:
  assumes "sg_inv s" and "\<not> sg_busy s"
  shows "sg_inv (change c s)"
  using assms runtime_pool(1) [of "sg_runtime s" "SaveSettings (changed c (rt_settingsRef (sg_runtime s)))"]
  by (auto simp: sg_inv_def change_def Let_def saving_def save_settings_def rt_await_def rt_do_def)

lemma sg_step_inv: "sg_inv s \<Longrightarrow> sg_inv (settings_page_step s e)"
proof (cases e)
  case (SgRuntime ev)
  then show "sg_inv s \<Longrightarrow> ?thesis" by (simp add: sg_runtime_inv)
next
  case (SgPermission a)
  then show "sg_inv s \<Longrightarrow> ?thesis" by (simp add: settings_page_step_def permission_def sg_inv_def)
qed (simp add: settings_page_step_def sg_change_inv)

interpretation settings_page: machine settings_page_step "\<lambda>_ _. True" sg_inv
  by unfold_locales (rule sg_step_inv)


definition dark_then_fails :: "settings_event list" where
  "dark_then_fails = [SgChange (SetTheme DarkTheme), SgChange (SetTyping False)]"


section \<open>Marking as read\<close>

text \<open>The notification centre and the activity page: the same request and reload of the notices, with
  texts of their own.\<close>

record read_texts =
  tx_done :: jstr
  tx_failed :: jstr

definition center_texts :: read_texts where
  "center_texts = \<lparr>tx_done = [], tx_failed = lit ''Could not update notifications.''\<rparr>"

definition activity_texts :: read_texts where
  "activity_texts = \<lparr>tx_done = lit ''All caught up.'', tx_failed = lit ''Could not update activity. Try again.''\<rparr>"

datatype read_cont = ReadPost | ReadReload nat

record notices_page =
  nt_texts :: read_texts
  nt_runtime :: runtime
  nt_status :: jstr
  nt_dialog :: bool
  nt_tasks :: "read_cont pool"
  nt_next :: nat

definition nt_await :: "read_cont \<Rightarrow> notices_page \<Rightarrow> notices_page" where
  "nt_await k s = s\<lparr>nt_tasks := nt_tasks s @ [(nt_next s, k)], nt_next := Suc (nt_next s)\<rparr>"

definition mark_read :: "notices_page \<Rightarrow> notices_page" where
  "mark_read s = nt_await ReadPost s"

text \<open>After the POST: \<open>await refreshNotices()\<close>.\<close>

definition marked :: "unit reply \<Rightarrow> notices_page \<Rightarrow> notices_page" where
  "marked r s = (if reply_ok r
     then nt_await (ReadReload (rt_next (nt_runtime s))) (s\<lparr>nt_runtime := runtime_step (nt_runtime s) RefreshNotices\<rparr>)
     else s\<lparr>nt_status := tx_failed (nt_texts s)\<rparr>)"

text \<open>The runtime resumed call \<open>i\<close>: the reloads that wait for it go on.\<close>

fun reload_after :: "nat \<Rightarrow> promise \<Rightarrow> read_cont pool \<Rightarrow> read_texts \<Rightarrow> read_cont pool \<times> jstr option" where
  "reload_after i p [] tx = ([], None)"
| "reload_after i p ((n, k) # q) tx = (let (q', m) = reload_after i p q tx in
     if k = ReadReload i then (case p of Pending j \<Rightarrow> ((n, ReadReload j) # q', m)
       | Fulfilled \<Rightarrow> (q', Some (case m of None \<Rightarrow> tx_done tx | Some t \<Rightarrow> t))
       | Thrown \<Rightarrow> (q', Some (case m of None \<Rightarrow> tx_failed tx | Some t \<Rightarrow> t)))
     else ((n, k) # q', m))"

definition notices_runtime :: "rt_event \<Rightarrow> notices_page \<Rightarrow> notices_page" where
  "notices_runtime e s = (let r = nt_runtime s; s = s\<lparr>nt_runtime := runtime_step r e\<rparr> in (case e of
     RtSettle i out \<Rightarrow> (let (q, m) = reload_after i (promise_after i out r) (nt_tasks s) (nt_texts s) in
       s\<lparr>nt_tasks := q, nt_status := (case m of None \<Rightarrow> nt_status s | Some t \<Rightarrow> t)\<rparr>)
   | _ \<Rightarrow> s))"

datatype notices_event = NtMark | NtPosted nat "unit reply" | NtRuntime rt_event | NtOpen | NtClose

definition notices_step :: "notices_page \<Rightarrow> notices_event \<Rightarrow> notices_page" where
  "notices_step s e = (case e of
     NtMark \<Rightarrow> mark_read s
   | NtPosted i r \<Rightarrow> (case take_task i (nt_tasks s) of Some (ReadPost, q) \<Rightarrow> marked r (s\<lparr>nt_tasks := q\<rparr>) | _ \<Rightarrow> s)
   | NtRuntime ev \<Rightarrow> notices_runtime ev s
   | NtOpen \<Rightarrow> s\<lparr>nt_dialog := True, nt_runtime := runtime_step (nt_runtime s) RefreshNotices\<rparr>
   | NtClose \<Rightarrow> s\<lparr>nt_dialog := False\<rparr>)"

subsection \<open>What is shown\<close>

datatype badge = NoBadge | Count nat | NinePlus

definition unread :: "notice list \<Rightarrow> nat" where
  "unread ns = length (filter (\<lambda>n. \<not> no_read n) ns)"

definition unread_badge :: "notice list \<Rightarrow> badge" where
  "unread_badge ns = (if unread ns = 0 then NoBadge else if 9 < unread ns then NinePlus else Count (unread ns))"

definition notice_text :: "notice \<Rightarrow> jstr" where
  "notice_text n = (if no_kind n = lit ''message'' then lit ''Sent you a message''
     else if no_kind n = lit ''call'' then lit ''Called you'' else lit ''Connected with you'')"

text \<open>One entry of either list, and the list itself.\<close>

record notice_link =
  nk_unread :: bool
  nk_href :: jstr
  nk_name :: jstr
  nk_text :: jstr

definition show_notice :: "notice \<Rightarrow> notice_link" where
  "show_notice n = \<lparr>nk_unread = (\<not> no_read n), nk_href = lit ''/app/messages?connection='' @ no_connection n,
     nk_name = no_name n, nk_text = notice_text n\<rparr>"

datatype notice_list = AllCaughtUp | Notices "notice_link list"

definition show_notices :: "notice list \<Rightarrow> notice_list" where
  "show_notices ns = (if ns = [] then AllCaughtUp else Notices (map show_notice ns))"

text \<open>The badge counts the entries that are marked.\<close>

lemma badge_counts_marked:
  "show_notices ns = Notices ls \<Longrightarrow> unread ns = length (filter nk_unread ls)"
proof -
  have "unread ms = length (filter nk_unread (map show_notice ms))" for ms
    by (induction ms) (simp_all add: unread_def show_notice_def)
  then show "show_notices ns = Notices ls \<Longrightarrow> unread ns = length (filter nk_unread ls)"
    by (auto simp: show_notices_def split: if_splits)
qed

end
