(* ===== verification/Navigation.thy ===== *)
theory Navigation
  imports Runtime_Pages
begin

text \<open>
  The frame of every page (\<open>components/navigation/mobile-nav.tsx\<close>): the tabs with the marked one and
  the mark of unread activity, and the header with its back button and default action.
\<close>

section \<open>Tabs\<close>

datatype tab = TabDiscover | TabMessages | TabMoments | TabPosts | TabProfile | TabConnections

text \<open>\<open>tabs\<close>: key, address and label.\<close>

definition tabs :: "(tab \<times> jstr \<times> jstr) list" where
  "tabs = [(TabDiscover, lit ''/app/discover'', lit ''Discover''), (TabMessages, lit ''/app/messages'', lit ''Messages''),
     (TabMoments, lit ''/app/moments'', lit ''Moments''), (TabProfile, lit ''/app/profile'', lit ''You'')]"

text \<open>The tab a page belongs to.\<close>

definition marked_tab :: "tab \<Rightarrow> tab" where
  "marked_tab current = (if current = TabPosts then TabMoments
     else if current = TabConnections then TabProfile else current)"

record nav_link =
  nl_href :: jstr
  nl_label :: jstr
  nl_current :: bool
  nl_unread :: bool

text \<open>Nothing is rendered before the component is mounted in the browser.\<close>

definition mobile_nav :: "bool \<Rightarrow> notice list \<Rightarrow> tab \<Rightarrow> nav_link list" where
  "mobile_nav mounted notices current = (if \<not> mounted then [] else
     map (\<lambda>(key, href, label). \<lparr>nl_href = href, nl_label = label, nl_current = (marked_tab current = key),
       nl_unread = (key = TabProfile \<and> list_ex (\<lambda>n. \<not> no_read n) notices)\<rparr>) tabs)"

section \<open>Header\<close>

datatype shown_action = OwnAction | NotificationButton | ConnectionsLink | NoAction

definition header_action :: "bool \<Rightarrow> jstr \<Rightarrow> shown_action" where
  "header_action own title = (if own then OwnAction
     else if title = lit ''Discover'' then NotificationButton
     else if title = lit ''Messages'' then ConnectionsLink else NoAction)"

datatype nav_fx = HistoryBack | ReplaceBy jstr

definition go_back :: "nat \<Rightarrow> nav_fx" where
  "go_back history_length = (if 1 < history_length then HistoryBack else ReplaceBy (lit ''/app/discover''))"

text \<open>Exactly one tab is marked on every page, and the unread mark agrees with the badge of the
  notification centre.\<close>

lemma one_tab_marked: "length (filter nl_current (mobile_nav True ns current)) = 1"
  by (cases current) (simp_all add: mobile_nav_def tabs_def marked_tab_def)

lemma unread_marks_agree:
  "list_ex nl_unread (mobile_nav True ns current) \<longleftrightarrow> unread_badge ns \<noteq> NoBadge"
proof -
  have "list_ex (\<lambda>n. \<not> no_read n) ns \<longleftrightarrow> unread ns \<noteq> 0"
    by (auto simp: unread_def list_ex_iff filter_empty_conv)
  then show ?thesis by (simp add: mobile_nav_def tabs_def unread_badge_def)
qed

end
