(* ===== verification/Profile_Rules.thy ===== *)
theory Profile_Rules
  imports Preferences
begin

text \<open>
  What the server accepts as a profile (\<open>validProfile\<close> of \<open>internal/social/social.go\<close>), and the
  contract of a form that edits one: a draft that is well-formed field by field, and requests
  that are only made when the draft is complete. The onboarding form and the profile editor
  each implement it.
\<close>

section \<open>The server's rules\<close>

text \<open>\<open>unicode.IsSpace\<close>, which \<open>strings.TrimSpace\<close> uses; unlike JavaScript's \<open>trim\<close> it knows U+0085
  and does not know U+FEFF.\<close>

definition go_space :: "code_unit \<Rightarrow> bool" where
  "go_space u \<longleftrightarrow> u \<in> set [0x9, 0xA, 0xB, 0xC, 0xD, 0x20, 0x85, 0xA0, 0x1680,
     0x2000, 0x2001, 0x2002, 0x2003, 0x2004, 0x2005, 0x2006, 0x2007, 0x2008, 0x2009, 0x200A,
     0x2028, 0x2029, 0x202F, 0x205F, 0x3000]"

definition go_trim :: "jstr \<Rightarrow> jstr" where
  "go_trim s = rev (dropWhile go_space (rev (dropWhile go_space s)))"

text \<open>\<open>len([]rune(s))\<close> of the decoded text: a surrogate pair is one rune, a lone surrogate arrives as
  one replacement character.\<close>

definition high_surrogate :: "code_unit \<Rightarrow> bool" where
  "high_surrogate u \<longleftrightarrow> 0xD800 \<le> u \<and> u \<le> 0xDBFF"

definition low_surrogate :: "code_unit \<Rightarrow> bool" where
  "low_surrogate u \<longleftrightarrow> 0xDC00 \<le> u \<and> u \<le> 0xDFFF"

fun runes :: "jstr \<Rightarrow> nat" where
  "runes [] = 0"
| "runes [u] = 1"
| "runes (u # v # s) = (if high_surrogate u \<and> low_surrogate v then Suc (runes s) else Suc (runes (v # s)))"

definition lower_letter :: "code_unit \<Rightarrow> bool" where
  "lower_letter u \<longleftrightarrow> 0x61 \<le> u \<and> u \<le> 0x7A"

definition upper_letter :: "code_unit \<Rightarrow> bool" where
  "upper_letter u \<longleftrightarrow> 0x41 \<le> u \<and> u \<le> 0x5A"

text \<open>\<open>^[a-z]{2,3}(?:-[A-Z]{2})?$\<close>\<close>

definition region_suffix :: "jstr \<Rightarrow> bool" where
  "region_suffix s \<longleftrightarrow> (case s of [] \<Rightarrow> True | [d, a, b] \<Rightarrow> d = 0x2D \<and> upper_letter a \<and> upper_letter b | _ \<Rightarrow> False)"

definition language_pattern :: "jstr \<Rightarrow> bool" where
  "language_pattern s \<longleftrightarrow> 2 \<le> length s \<and> list_all lower_letter (take 2 s)
     \<and> (region_suffix (drop 2 s) \<or> 3 \<le> length s \<and> lower_letter (s ! 2) \<and> region_suffix (drop 3 s))"

definition country :: "jstr \<Rightarrow> bool" where
  "country s \<longleftrightarrow> (case s of [] \<Rightarrow> True | [a, b] \<Rightarrow> upper_letter a \<and> upper_letter b | _ \<Rightarrow> False)"

definition valid_profile :: "profile \<Rightarrow> bool" where
  "valid_profile p \<longleftrightarrow> pf_discoveryIntent p \<in> set intents
     \<and> 1 \<le> runes (go_trim (pf_displayName p)) \<and> runes (go_trim (pf_displayName p)) \<le> 80
     \<and> runes (pf_bio p) \<le> 500 \<and> country (pf_countryCode p)
     \<and> length (pf_interests p) \<le> 12 \<and> length (pf_languages p) \<le> 5
     \<and> list_all (\<lambda>v. v \<in> set interests) (pf_interests p) \<and> distinct (pf_interests p)
     \<and> list_all language_pattern (pf_languages p) \<and> distinct (pf_languages p)"

section \<open>Drafts\<close>

text \<open>A profile as the server stores it, which may still lack a name, an intent or languages, and
  every draft made from one.\<close>

definition draft_ok :: "profile \<Rightarrow> bool" where
  "draft_ok p \<longleftrightarrow> pf_discoveryIntent p \<in> set ([] # intents)
     \<and> runes (go_trim (pf_displayName p)) \<le> 80 \<and> runes (pf_bio p) \<le> 500
     \<and> choice.fits 12 (pf_interests p) \<and> set (pf_interests p) \<subseteq> set interests
     \<and> choice.fits 5 (pf_languages p) \<and> list_all language_pattern (pf_languages p)"

lemma runes_le: "runes s \<le> length s"
  by (induction s rule: runes.induct) auto

lemma runes_pos: "s \<noteq> [] \<Longrightarrow> 1 \<le> runes s"
  by (cases s rule: runes.cases) auto

lemma go_trim_length: "length (go_trim s) \<le> length s"
  unfolding go_trim_def length_rev by (metis length_dropWhile_le length_rev order_trans)

lemma go_trim_Nil: "go_trim s = [] \<longleftrightarrow> list_all go_space s"
  by (auto simp: go_trim_def list_all_iff dest: set_dropWhileD)
     (metis dropWhile_eq_Nil_conv hd_dropWhile list.set_sel(1))

lemma edited_name: "length t \<le> 80 \<Longrightarrow> runes (go_trim t) \<le> 80"
  using runes_le [of "go_trim t"] go_trim_length [of t] by simp

lemma edited_bio: "length t \<le> 500 \<Longrightarrow> runes t \<le> 500"
  using runes_le [of t] by simp

lemma code_languages: "list_all language_pattern languages"
  by (simp add: languages_def language_pattern_def lower_letter_def region_suffix_def lit_def of_char_def)

text \<open>A complete draft is what the server accepts, but for a name of nothing but spaces and U+0085.\<close>

definition visible_name :: "profile \<Rightarrow> bool" where
  "visible_name p \<longleftrightarrow> \<not> list_all go_space (pf_displayName p)"

lemma complete_draft:
  assumes "draft_ok p" and "profile_ready p" and "country (pf_countryCode p)"
  shows "valid_profile p \<longleftrightarrow> visible_name p"
proof -
  have "1 \<le> runes (go_trim (pf_displayName p)) \<longleftrightarrow> visible_name p"
    using runes_pos [of "go_trim (pf_displayName p)"] go_trim_Nil [of "pf_displayName p"]
    by (cases "go_trim (pf_displayName p) = []") (simp_all add: visible_name_def)
  then show ?thesis using assms
    by (auto simp: valid_profile_def draft_ok_def profile_ready_def profile_choice.fits_def list_all_iff)
qed
section \<open>Forms\<close>

text \<open>A form edits a draft and sends bodies. Its promise: the draft stays well-formed, and what it
  sends is the draft of that moment, complete and with an admissible country.\<close>

locale profile_form = machine step ok inv
  for step :: "'s \<Rightarrow> 'e \<Rightarrow> 's" and ok :: "'s \<Rightarrow> 'e \<Rightarrow> bool" and inv :: "'s \<Rightarrow> bool" +
  fixes draft :: "'s \<Rightarrow> profile option" and bodies :: "'s \<Rightarrow> profile list"
  assumes draft_inv: "inv s \<Longrightarrow> draft s = Some p \<Longrightarrow> draft_ok p"
    and sends: "inv s \<Longrightarrow> ok s e \<Longrightarrow> bodies (step s e) = bodies s
      \<or> (\<exists>p. draft s = Some p \<and> profile_ready p \<and> country (pf_countryCode p) \<and> bodies (step s e) = bodies s @ [p])"
begin

sublocale form step ok inv bodies "\<lambda>p. valid_profile p \<longleftrightarrow> visible_name p"
proof
  show "bodies (step s e) = bodies s \<or> (\<exists>b. (valid_profile b \<longleftrightarrow> visible_name b) \<and> bodies (step s e) = bodies s @ [b])"
    if inv: "inv s" and ok: "ok s e" for s e
    using sends [OF that] complete_draft draft_inv [OF inv] by fastforce
qed

end

end
