(* ===== verification/Moments.thy ===== *)
theory Moments
  imports Profile_Rules
begin

text \<open>
  The moments page (\<open>components/social/moments.tsx\<close>): a list that is reloaded every 15 seconds and
  hides what has expired by the server's clock, a composer, and the removal of one's own
  moments; and what the server accepts as a moment (\<open>internal/communication/moments.go\<close>).
\<close>

section \<open>State\<close>

text \<open>\<open>mo_expiresAt\<close> is the instant \<open>Date.parse\<close> reads, in milliseconds; \<open>None\<close> is \<open>NaN\<close>.\<close>

record moment =
  mo_id :: jstr
  mo_userId :: jstr
  mo_name :: jstr
  mo_avatarUrl :: jstr
  mo_body :: jstr
  mo_tone :: jstr
  mo_createdAt :: jstr
  mo_expiresAt :: "int option"
  mo_connectionId :: jstr

datatype mo_fx = MoGet | MoPost jstr jstr | MoDelete jstr | MoGo jstr

datatype mo_cont = MoLoad | MoPublish | MoRefetch | MoRemove jstr

record moments =
  mp_user :: jstr
  mp_items :: "moment list"
  mp_body :: jstr
  mp_tone :: jstr
  mp_status :: jstr
  mp_busy :: bool
  mp_now :: int
  mp_offset :: int
  mp_dialog :: bool
  mp_disposed :: bool
  mp_tasks :: "mo_cont pool"
  mp_next :: nat
  mp_log :: "mo_fx list"

definition mo_do :: "mo_fx \<Rightarrow> moments \<Rightarrow> moments" where
  "mo_do f s = s\<lparr>mp_log := mp_log s @ [f]\<rparr>"

definition mo_await :: "mo_cont \<Rightarrow> moments \<Rightarrow> moments" where
  "mo_await k s = s\<lparr>mp_tasks := mp_tasks s @ [(mp_next s, k)], mp_next := Suc (mp_next s)\<rparr>"

definition moments_init :: "jstr \<Rightarrow> moments" where
  "moments_init user = \<lparr>mp_user = user, mp_items = [], mp_body = [], mp_tone = lit ''lilac'',
     mp_status = lit ''Loading moments...'', mp_busy = False, mp_now = 0, mp_offset = 0, mp_dialog = False,
     mp_disposed = False, mp_tasks = [(0, MoLoad)], mp_next = 1, mp_log = [MoGet]\<rparr>"

section \<open>The list\<close>

definition visible :: "moments \<Rightarrow> moment list" where
  "visible s = filter (\<lambda>m. case mo_expiresAt m of None \<Rightarrow> False | Some t \<Rightarrow> mp_now s < t) (mp_items s)"

text \<open>\<open>Math.max(1, Math.ceil((expiresAt - now) / 3600000))\<close>\<close>

definition hours_left :: "int \<Rightarrow> int \<Rightarrow> int" where
  "hours_left now t = max 1 (- ((now - t) div 3600000))"

definition mo_load :: "moments \<Rightarrow> moments" where
  "mo_load s = mo_await MoLoad (mo_do MoGet s)"

definition mo_load_failed :: "moments \<Rightarrow> moments" where
  "mo_load_failed s = (if mp_disposed s then s else s\<lparr>mp_status := lit ''Could not load moments. Please try again.''\<rparr>)"

text \<open>The rest of \<open>load\<close>: the \<open>Date\<close> header, when there is one, sets the offset of this device's
  clock (\<open>Date.now()\<close> is \<open>clock\<close>).\<close>

definition mo_loaded :: "moment list reply \<Rightarrow> int option \<Rightarrow> int \<Rightarrow> moments \<Rightarrow> moments" where
  "mo_loaded r date clock s = (case r of
     NetworkError \<Rightarrow> mo_load_failed s
   | Response n b \<Rightarrow>
       if n = 401 then mo_do (MoGo (lit ''/'')) s
       else if \<not> ok_status n then mo_load_failed s
       else (case b of None \<Rightarrow> mo_load_failed s
         | Some values \<Rightarrow> if mp_disposed s then s
             else (let off = (case date of None \<Rightarrow> mp_offset s | Some d \<Rightarrow> d - clock)
               in s\<lparr>mp_offset := off, mp_items := values, mp_now := clock + off, mp_status := []\<rparr>)))"

section \<open>Sharing\<close>

text \<open>How the POST settles: accepted, refused with the \<open>error\<close> of the body if it has one, or by an
  exception (no network, a body that is no JSON) with the engine's message.\<close>

datatype mo_reply = MoAccepted | MoRefused "jstr option" | MoThrew jstr

definition publish :: "moments \<Rightarrow> moments" where
  "publish s = (if mp_busy s \<or> blank (mp_body s) then s
     else mo_await MoPublish (mo_do (MoPost (mp_body s) (mp_tone s)) (s\<lparr>mp_busy := True\<rparr>)))"

definition publish_failed :: "jstr \<Rightarrow> moments \<Rightarrow> moments" where
  "publish_failed msg s = s\<lparr>mp_status := msg, mp_busy := False\<rparr>"

definition mo_posted :: "mo_reply \<Rightarrow> moments \<Rightarrow> moments" where
  "mo_posted r s = (case r of
     MoAccepted \<Rightarrow> mo_await MoRefetch (mo_do MoGet (s\<lparr>mp_body := [], mp_dialog := False\<rparr>))
   | MoRefused e \<Rightarrow> publish_failed (case e of None \<Rightarrow> lit ''Could not share. Please try again.''
       | Some m \<Rightarrow> if m = [] then lit ''Could not share. Please try again.'' else m) s
   | MoThrew m \<Rightarrow> publish_failed m s)"

text \<open>The list fetched after sharing: a refused one leaves the list as it is; \<open>msg\<close> is the engine's
  message if fetching or reading it throws.\<close>

definition mo_refetched :: "moment list reply \<Rightarrow> jstr \<Rightarrow> int \<Rightarrow> moments \<Rightarrow> moments" where
  "mo_refetched r msg clock s = (case r of
     NetworkError \<Rightarrow> publish_failed msg s
   | Response n b \<Rightarrow> if ok_status n \<and> b = None then publish_failed msg s
       else s\<lparr>mp_items := (if ok_status n then the b else mp_items s), mp_now := clock + mp_offset s,
         mp_status := lit ''Shared with your current connections for 24 hours.'', mp_busy := False\<rparr>)"

section \<open>Removing\<close>

definition mo_removed :: "jstr \<Rightarrow> bool \<Rightarrow> moments \<Rightarrow> moments" where
  "mo_removed i ok s = (if ok
     then s\<lparr>mp_items := filter (\<lambda>m. mo_id m \<noteq> i) (mp_items s), mp_status := lit ''Moment removed.''\<rparr>
     else s\<lparr>mp_status := lit ''Could not remove this moment.''\<rparr>)"

section \<open>Events\<close>

datatype mo_event = MoLoaded nat "moment list reply" "int option" int | MoPosted nat mo_reply
  | MoRefetched nat "moment list reply" jstr int | MoDeleted nat bool
  | MoRefresh | MoClock int
  | MoOpen | MoClose | MoEdit jstr | MoTone jstr | MoSubmit | MoPressRemove jstr | MoUnmount

definition taken :: "mo_cont \<Rightarrow> nat \<Rightarrow> (moments \<Rightarrow> moments) \<Rightarrow> moments \<Rightarrow> moments" where
  "taken k i f s = (case take_task i (mp_tasks s) of None \<Rightarrow> s
     | Some (k', q) \<Rightarrow> if k' = k then f (s\<lparr>mp_tasks := q\<rparr>) else s)"

definition removal :: "nat \<Rightarrow> bool \<Rightarrow> moments \<Rightarrow> moments" where
  "removal i ok s = (case take_task i (mp_tasks s) of
     Some (MoRemove m, q) \<Rightarrow> mo_removed m ok (s\<lparr>mp_tasks := q\<rparr>) | _ \<Rightarrow> s)"

text \<open>The composer's controls exist in the open dialog only; the remove button only on one's own
  moments. The two timers end with the page.\<close>

fun mo_press :: "moments \<Rightarrow> mo_event \<Rightarrow> moments" where
  "mo_press s MoRefresh = mo_load s"
| "mo_press s (MoClock clock) = s\<lparr>mp_now := clock + mp_offset s\<rparr>"
| "mo_press s MoOpen = s\<lparr>mp_dialog := True\<rparr>"
| "mo_press s MoClose = s\<lparr>mp_dialog := False\<rparr>"
| "mo_press s (MoEdit t) = (if mp_dialog s then s\<lparr>mp_body := t\<rparr> else s)"
| "mo_press s (MoTone t) = (if mp_dialog s then s\<lparr>mp_tone := t\<rparr> else s)"
| "mo_press s MoSubmit = (if mp_dialog s then publish s else s)"
| "mo_press s (MoPressRemove i) = (if \<exists>m \<in> set (visible s). mo_id m = i \<and> mo_userId m = mp_user s
     then mo_await (MoRemove i) (mo_do (MoDelete i) s) else s)"
| "mo_press s _ = s"

definition moments_step :: "moments \<Rightarrow> mo_event \<Rightarrow> moments" where
  "moments_step s e = (case e of
     MoLoaded i r date clock \<Rightarrow> taken MoLoad i (mo_loaded r date clock) s
   | MoPosted i r \<Rightarrow> taken MoPublish i (mo_posted r) s
   | MoRefetched i r msg clock \<Rightarrow> taken MoRefetch i (mo_refetched r msg clock) s
   | MoDeleted i ok \<Rightarrow> removal i ok s
   | MoUnmount \<Rightarrow> s\<lparr>mp_disposed := True\<rparr>
   | _ \<Rightarrow> if mp_disposed s then s else mo_press s e)"

section \<open>What is shown\<close>

text \<open>One card of the list: \<open>mc_initial\<close> stands for the picture of people without one; \<open>mc_link\<close> is the
  link that continues the conversation.\<close>

record moment_card =
  mc_tone :: jstr
  mc_picture :: "jstr option"
  mc_author :: jstr
  mc_hours :: "int option"
  mc_removable :: bool
  mc_body :: jstr
  mc_link :: "jstr option"

definition show_card :: "moments \<Rightarrow> moment \<Rightarrow> moment_card" where
  "show_card s m = (let own = (mo_userId m = mp_user s) in
     \<lparr>mc_tone = lit ''moment tone-'' @ mo_tone m,
      mc_picture = (if mo_avatarUrl m = [] then None else Some (mo_avatarUrl m)),
      mc_author = (if own then lit ''You'' else mo_name m),
      mc_hours = map_option (hours_left (mp_now s)) (mo_expiresAt m),
      mc_removable = own, mc_body = mo_body m,
      mc_link = (if \<not> own \<and> mo_connectionId m \<noteq> []
        then Some (lit ''/app/messages?connection='' @ mo_connectionId m) else None)\<rparr>)"

definition moment_cards :: "moments \<Rightarrow> moment_card list" where
  "moment_cards s = map (show_card s) (visible s)"

text \<open>The composer: the three colors with the pressed one, the length of the text and the button.\<close>

record composer =
  cp_tones :: "(jstr \<times> bool) list"
  cp_length :: nat
  cp_enabled :: bool
  cp_label :: jstr

definition show_composer :: "moments \<Rightarrow> composer" where
  "show_composer s = \<lparr>cp_tones = map (\<lambda>v. (v, mp_tone s = v)) (map lit [''lilac'', ''mint'', ''sand'']),
     cp_length = length (mp_body s), cp_enabled = (\<not> mp_busy s \<and> \<not> blank (mp_body s)),
     cp_label = (if mp_busy s then lit ''Sharing...'' else lit ''Share moment'')\<rparr>"

text \<open>Every card offers something to do with its author at most: remove one's own moment, or continue
  the conversation with somebody else.\<close>

lemma card_action: "c \<in> set (moment_cards s) \<Longrightarrow> \<not> (mc_removable c \<and> mc_link c \<noteq> None)"
  by (auto simp: moment_cards_def show_card_def Let_def)

lemma submit_needs_enabled: "moments_step s MoSubmit \<noteq> s \<Longrightarrow> cp_enabled (show_composer s)"
  by (auto simp: show_composer_def moments_step_def publish_def split: if_splits)

section \<open>What the composer sends\<close>

text \<open>The handler's checks on a new moment.\<close>

definition tones :: "jstr list" where
  "tones = map lit [''lilac'', ''mint'', ''sand'']"

definition valid_moment :: "jstr \<times> jstr \<Rightarrow> bool" where
  "valid_moment m \<longleftrightarrow> 1 \<le> runes (go_trim (fst m)) \<and> runes (go_trim (fst m)) \<le> 600
     \<and> snd m \<in> set [lit ''mint'', lit ''lilac'', lit ''sand'']"

definition visible_body :: "jstr \<times> jstr \<Rightarrow> bool" where
  "visible_body m \<longleftrightarrow> \<not> list_all go_space (fst m)"

definition mo_ok :: "moments \<Rightarrow> mo_event \<Rightarrow> bool" where
  "mo_ok s e = (case e of MoEdit t \<Rightarrow> length t \<le> 600 | MoTone t \<Rightarrow> t \<in> set tones | _ \<Rightarrow> True)"

definition posted :: "moments \<Rightarrow> (jstr \<times> jstr) list" where
  "posted s = concat (map (\<lambda>f. case f of MoPost b t \<Rightarrow> [(b, t)] | _ \<Rightarrow> []) (mp_log s))"

fun sharing :: "mo_cont \<Rightarrow> bool" where
  "sharing MoPublish = True"
| "sharing MoRefetch = True"
| "sharing _ = False"

definition mo_inv :: "moments \<Rightarrow> bool" where
  "mo_inv s \<longleftrightarrow> length (mp_body s) \<le> 600 \<and> mp_tone s \<in> set tones
     \<and> length (tasks_of sharing (mp_tasks s)) = (if mp_busy s then 1 else 0)"

lemma valid_moment_iff:
  assumes "length b \<le> 600" and "t \<in> set tones"
  shows "valid_moment (b, t) \<longleftrightarrow> visible_body (b, t)"
proof -
  have "runes (go_trim b) \<le> 600" using assms(1) runes_le [of "go_trim b"] go_trim_length [of b] by simp
  moreover have "1 \<le> runes (go_trim b) \<longleftrightarrow> go_trim b \<noteq> []" using runes_pos [of "go_trim b"] by auto
  ultimately show ?thesis using assms(2) by (auto simp: valid_moment_def visible_body_def go_trim_Nil tones_def)
qed

lemma posted_simps [simp]:
  "posted (mo_do f s) = posted s @ (case f of MoPost b t \<Rightarrow> [(b, t)] | _ \<Rightarrow> [])"
  "posted (mo_await k s) = posted s" "posted (publish_failed m s) = posted s"
  "posted (mo_load_failed s) = posted s" "posted (mo_load s) = posted s"
  "posted (s\<lparr>mp_tasks := q\<rparr>) = posted s" "posted (s\<lparr>mp_busy := b\<rparr>) = posted s"
  "posted (mo_loaded r d c s) = posted s" "posted (mo_posted p s) = posted s"
  "posted (mo_refetched r m c s) = posted s" "posted (mo_removed i ok s) = posted s"
  by (simp_all add: posted_def mo_do_def mo_await_def publish_failed_def mo_load_failed_def mo_load_def
      mo_loaded_def mo_posted_def mo_refetched_def mo_removed_def Let_def split: reply.split option.split mo_reply.split)

lemma posted_taken [simp]:
  "(\<And>u. posted (f u) = posted u) \<Longrightarrow> posted (taken k i f s) = posted s"
  by (simp add: taken_def split: option.split prod.split)

lemma posted_removal [simp]: "posted (removal i ok s) = posted s"
  by (simp add: removal_def split: option.split prod.split mo_cont.split)

lemma mo_inv_frame [simp]:
  "mo_inv (mo_do f s) = mo_inv s" "mo_inv (mo_load_failed s) = mo_inv s"
  "\<not> sharing k \<Longrightarrow> mo_inv (mo_await k s) = mo_inv s"
  "mo_inv (mo_loaded r d c s) = mo_inv s" "mo_inv (mo_removed i ok s) = mo_inv s" "mo_inv (mo_load s) = mo_inv s"
  by (simp_all add: mo_inv_def mo_do_def mo_await_def mo_load_failed_def mo_loaded_def mo_removed_def mo_load_def Let_def
      split: reply.split option.split)

text \<open>When a sharing call is resumed no other one is pending; the rest leaves the others alone.\<close>

definition shared_free :: "moments \<Rightarrow> bool" where
  "shared_free s \<longleftrightarrow> length (mp_body s) \<le> 600 \<and> mp_tone s \<in> set tones \<and> mp_busy s \<and> tasks_of sharing (mp_tasks s) = []"

lemma mo_taken:
  assumes "mo_inv s" and taken: "take_task i (mp_tasks s) = Some (k, q)"
  shows "sharing k \<Longrightarrow> shared_free (s\<lparr>mp_tasks := q\<rparr>)" "\<not> sharing k \<Longrightarrow> mo_inv (s\<lparr>mp_tasks := q\<rparr>)"
proof -
  have one: "length (tasks_of sharing (mp_tasks s)) \<le> 1" using assms(1) by (auto simp: mo_inv_def split: if_splits)
  show "sharing k \<Longrightarrow> shared_free (s\<lparr>mp_tasks := q\<rparr>)"
    using take_task_single(1) [OF taken one] assms(1) by (auto simp: mo_inv_def shared_free_def split: if_splits)
  show "\<not> sharing k \<Longrightarrow> mo_inv (s\<lparr>mp_tasks := q\<rparr>)"
    using take_task_single(2) [OF taken one] assms(1) by (simp add: mo_inv_def)
qed

lemma shared_done:
  assumes "shared_free s"
  shows "mo_inv (mo_posted r s)" "mo_inv (mo_refetched p m c s)"
  using assms
  by (auto simp: shared_free_def mo_posted_def mo_refetched_def publish_failed_def mo_inv_def mo_await_def mo_do_def
      split: mo_reply.split reply.split option.split)

lemma mo_step_inv:
  assumes "mo_inv s" and "mo_ok s e"
  shows "mo_inv (moments_step s e)"
proof (cases e)
  case (MoSubmit)
  then show ?thesis using assms(1)
    by (auto simp: moments_step_def publish_def mo_inv_def mo_await_def mo_do_def)
next
  case (MoLoaded i r d c)
  then show ?thesis using assms(1) mo_taken(2) [OF assms(1), of i MoLoad]
    by (auto simp: moments_step_def taken_def split: option.split)
next
  case (MoPosted i r)
  then show ?thesis using assms(1) mo_taken(1) [OF assms(1), of i MoPublish] shared_done(1)
    by (auto simp: moments_step_def taken_def split: option.split)
next
  case (MoRefetched i r m c)
  then show ?thesis using assms(1) mo_taken(1) [OF assms(1), of i MoRefetch] shared_done(2)
    by (auto simp: moments_step_def taken_def split: option.split)
next
  case (MoDeleted i ok)
  then show ?thesis using assms(1) mo_taken(2) [OF assms(1), of i]
    by (auto simp: moments_step_def removal_def split: option.split mo_cont.split)
qed (use assms in \<open>simp_all add: moments_step_def mo_ok_def\<close>, simp_all add: mo_inv_def)

lemma mo_sends:
  assumes "mo_inv s"
  shows "posted (moments_step s e) = posted s
    \<or> (\<exists>b. (valid_moment b \<longleftrightarrow> visible_body b) \<and> posted (moments_step s e) = posted s @ [b])"
proof (cases e)
  case MoSubmit
  have "valid_moment (mp_body s, mp_tone s) \<longleftrightarrow> visible_body (mp_body s, mp_tone s)"
    using assms by (intro valid_moment_iff) (simp_all add: mo_inv_def)
  with MoSubmit show ?thesis by (auto simp: moments_step_def publish_def)
qed (simp_all add: moments_step_def, simp_all add: posted_def mo_do_def mo_await_def)

interpretation moments: form moments_step mo_ok mo_inv posted "\<lambda>b. valid_moment b \<longleftrightarrow> visible_body b"
proof
  show "mo_inv s \<Longrightarrow> mo_ok s e \<Longrightarrow> mo_inv (moments_step s e)" for s e by (rule mo_step_inv)
  show "mo_inv s \<Longrightarrow> mo_ok s e \<Longrightarrow> posted (moments_step s e) = posted s
    \<or> (\<exists>b. (valid_moment b \<longleftrightarrow> visible_body b) \<and> posted (moments_step s e) = posted s @ [b])" for s e
    by (rule mo_sends)
qed

section \<open>Guarantees\<close>

abbreviation mo_reachable :: "jstr \<Rightarrow> moments \<Rightarrow> bool" where
  "mo_reachable u s \<equiv> reachable moments_step mo_ok (moments_init u) s"

lemma mo_init_inv: "mo_inv (moments_init u)"
  by (simp add: mo_inv_def moments_init_def tones_def)


definition one_share :: "mo_event list" where
  "one_share = [MoOpen, MoEdit (lit ''Hi''), MoTone (lit ''mint''), MoSubmit, MoSubmit]"


text \<open>A moment is on screen only while it has not expired by the page's estimate of the server's
  clock, and its label is the remaining time in hours, rounded up: at least 1, and at most 24
  for the moments the server keeps (24 hours).\<close>

theorem moment_shown_until_expiry:
  assumes "m \<in> set (visible s)" and "mo_expiresAt m = Some t"
  shows "m \<in> set (mp_items s) \<and> mp_now s < t \<and> 1 \<le> hours_left (mp_now s) t
    \<and> 3600000 * (hours_left (mp_now s) t - 1) < t - mp_now s \<and> t - mp_now s \<le> 3600000 * hours_left (mp_now s) t
    \<and> (24 < hours_left (mp_now s) t \<longleftrightarrow> 24 * 3600000 < t - mp_now s)"
proof -
  have now: "m \<in> set (mp_items s)" "mp_now s < t" using assms by (auto simp: visible_def)
  let ?q = "- ((mp_now s - t) div 3600000)"
  have ceil: "3600000 * (?q - 1) < t - mp_now s" "t - mp_now s \<le> 3600000 * ?q"
    using ceil_div [of 3600000 "t - mp_now s"] by simp_all
  obtain q where q: "q = ?q" by blast
  have "hours_left (mp_now s) t = q" unfolding hours_left_def q using ceil now(2) by simp
  then show ?thesis using now ceil unfolding q [symmetric] by auto
qed

definition ada_moment :: moment where
  "ada_moment = \<lparr>mo_id = lit ''m'', mo_userId = lit ''u'', mo_name = lit ''Ada'', mo_avatarUrl = [], mo_body = lit ''Hi'',
     mo_tone = lit ''mint'', mo_createdAt = [], mo_expiresAt = Some 86400000, mo_connectionId = []\<rparr>"

lemma moment_shown_until_expiry_witness:
  "hours_left (mp_now (run moments_step (moments_init []) [MoLoaded 0 (Response 200 (Some [ada_moment])) (Some 0) 5000])) 86400000 = 24"
proof -
  let ?s = "run moments_step (moments_init []) [MoLoaded 0 (Response 200 (Some [ada_moment])) (Some 0) 5000]"
  have s: "visible ?s = [ada_moment]" "mp_now ?s = 0"
    by (simp_all add: visible_def moments_step_def moments_init_def taken_def take_task_def mo_loaded_def ok_status_def
        Let_def ada_moment_def)
  then show ?thesis using moment_shown_until_expiry [of ada_moment ?s 86400000]
    by (simp add: ada_moment_def hours_left_def)
qed

text \<open>A reload that was under way when a moment was removed brings it back until the next one.\<close>

lemma stale_reload_restores_removed:
  "visible (run moments_step (moments_init (lit ''u'')) [MoLoaded 0 (Response 200 (Some [ada_moment])) (Some 0) 0,
     MoRefresh, MoPressRemove (lit ''m''), MoDeleted 2 True, MoLoaded 1 (Response 200 (Some [ada_moment])) (Some 0) 0])
   = [ada_moment]"
  by (simp add: visible_def moments_step_def moments_init_def taken_def take_task_def mo_loaded_def ok_status_def
      Let_def ada_moment_def mo_load_def mo_await_def mo_do_def removal_def mo_removed_def)

end
