(* ===== verification/Onboarding.thy ===== *)
theory Onboarding
  imports Profile_Rules
begin

text \<open>
  The onboarding form (\<open>components/social/onboarding.tsx\<close>): it loads the account, asks for a
  name, an intent with languages, and interests in three steps, and saves once.
\<close>

section \<open>State\<close>

datatype ob_fx = ObGet | ObPatch profile | ObGo jstr

datatype ob_cont = ObLoad | ObSave

record onboarding =
  ob_profile :: "profile option"
  ob_step :: nat
  ob_status :: jstr
  ob_busy :: bool
  ob_stopped :: bool
  ob_tasks :: "ob_cont pool"
  ob_next :: nat
  ob_log :: "ob_fx list"

definition ob_do :: "ob_fx \<Rightarrow> onboarding \<Rightarrow> onboarding" where
  "ob_do f s = s\<lparr>ob_log := ob_log s @ [f]\<rparr>"

definition ob_await :: "ob_cont \<Rightarrow> onboarding \<Rightarrow> onboarding" where
  "ob_await k s = s\<lparr>ob_tasks := ob_tasks s @ [(ob_next s, k)], ob_next := Suc (ob_next s)\<rparr>"

definition onboarding_init :: onboarding where
  "onboarding_init = \<lparr>ob_profile = None, ob_step = 0, ob_status = lit ''Loading your account...'', ob_busy = False,
     ob_stopped = False, ob_tasks = [(0, ObLoad)], ob_next = 1, ob_log = [ObGet]\<rparr>"

section \<open>Operations\<close>

definition ob_load_failed :: "onboarding \<Rightarrow> onboarding" where
  "ob_load_failed s = (if ob_stopped s then s else s\<lparr>ob_status := lit ''Could not load your account. Please refresh.''\<rparr>)"

text \<open>An intent the server does not know yet becomes the first choice.\<close>

definition with_intent :: "profile \<Rightarrow> profile" where
  "with_intent v = v\<lparr>pf_discoveryIntent :=
     (if pf_discoveryIntent v = [] then lit ''surprise_me'' else pf_discoveryIntent v)\<rparr>"

text \<open>The rest of \<open>load\<close> once the profile request has settled.\<close>

definition ob_loaded :: "profile reply \<Rightarrow> onboarding \<Rightarrow> onboarding" where
  "ob_loaded r s = (case r of
     NetworkError \<Rightarrow> ob_load_failed s
   | Response n b \<Rightarrow>
       if n = 401 then ob_do (ObGo (lit ''/'')) s
       else if \<not> ok_status n then ob_load_failed s
       else (case b of None \<Rightarrow> ob_load_failed s
         | Some v \<Rightarrow>
             if ob_stopped s then s
             else if profile_ready v then ob_do (ObGo (lit ''/app/discover'')) s
             else s\<lparr>ob_profile := Some (with_intent v), ob_status := []\<rparr>))"

definition ob_saved :: "profile reply \<Rightarrow> onboarding \<Rightarrow> onboarding" where
  "ob_saved r s = (if reply_ok r then ob_do (ObGo (lit ''/app/discover'')) s
     else s\<lparr>ob_status := lit ''Could not save. Please try again.'', ob_busy := False\<rparr>)"

definition ob_toggle :: "field \<Rightarrow> jstr \<Rightarrow> onboarding \<Rightarrow> onboarding" where
  "ob_toggle k v s = s\<lparr>ob_profile := map_option (\<lambda>p. case k of
       Languages \<Rightarrow> p\<lparr>pf_languages := onboarding_toggle (cap k) v (pf_languages p)\<rparr>
     | Interests \<Rightarrow> p\<lparr>pf_interests := onboarding_toggle (cap k) v (pf_interests p)\<rparr>) (ob_profile s)\<rparr>"

definition ob_submit :: "onboarding \<Rightarrow> onboarding" where
  "ob_submit s = (case ob_profile s of None \<Rightarrow> s
     | Some p \<Rightarrow> if ob_busy s then s
         else if ob_step s < 2 then s\<lparr>ob_step := ob_step s + 1\<rparr>
         else ob_await ObSave (ob_do (ObPatch p) (s\<lparr>ob_busy := True\<rparr>)))"

text \<open>The form's button; a disabled one also blocks submission with the Enter key.\<close>

definition ob_enabled :: "onboarding \<Rightarrow> bool" where
  "ob_enabled s \<longleftrightarrow> (case ob_profile s of None \<Rightarrow> False
     | Some p \<Rightarrow> \<not> (ob_busy s \<or> blank (pf_displayName p) \<or> 0 < ob_step s \<and> pf_languages p = []))"

datatype ob_event = ObResume nat "profile reply" | ObName jstr | ObIntent jstr | ObLanguage jstr | ObInterest jstr
  | ObSubmit | ObBack | ObUnmount

text \<open>Each field is on screen only in its own step.\<close>

definition onboarding_step :: "onboarding \<Rightarrow> ob_event \<Rightarrow> onboarding" where
  "onboarding_step s e = (case e of
     ObResume i r \<Rightarrow> (case take_task i (ob_tasks s) of None \<Rightarrow> s
       | Some (k, q) \<Rightarrow> (case k of ObLoad \<Rightarrow> ob_loaded | ObSave \<Rightarrow> ob_saved) r (s\<lparr>ob_tasks := q\<rparr>))
   | ObUnmount \<Rightarrow> s\<lparr>ob_stopped := True\<rparr>
   | _ \<Rightarrow> if ob_stopped s then s else (case e of
       ObName t \<Rightarrow> if ob_step s = 0 then s\<lparr>ob_profile := map_option (pf_displayName_update (\<lambda>_. t)) (ob_profile s)\<rparr> else s
     | ObIntent t \<Rightarrow> if ob_step s = 1 then s\<lparr>ob_profile := map_option (pf_discoveryIntent_update (\<lambda>_. t)) (ob_profile s)\<rparr> else s
     | ObLanguage v \<Rightarrow> if ob_step s = 1 then ob_toggle Languages v s else s
     | ObInterest v \<Rightarrow> if ob_step s = 2 then ob_toggle Interests v s else s
     | ObSubmit \<Rightarrow> if ob_enabled s then ob_submit s else s
     | ObBack \<Rightarrow> if ob_profile s \<noteq> None \<and> 0 < ob_step s then s\<lparr>ob_step := ob_step s - 1\<rparr> else s
     | _ \<Rightarrow> s))"

text \<open>What the environment can deliver: the profiles the server stores, texts of at most 80 units
  (\<open>maxLength\<close>), and the options on screen.\<close>

definition ob_ok :: "onboarding \<Rightarrow> ob_event \<Rightarrow> bool" where
  "ob_ok s e = (case e of
     ObResume i (Response n (Some p)) \<Rightarrow> draft_ok p \<and> country (pf_countryCode p)
   | ObName t \<Rightarrow> length t \<le> 80
   | ObIntent t \<Rightarrow> t \<in> set intents
   | ObLanguage v \<Rightarrow> v \<in> set languages
   | ObInterest v \<Rightarrow> v \<in> set interests
   | _ \<Rightarrow> True)"

section \<open>The draft\<close>

definition ob_patches :: "onboarding \<Rightarrow> profile list" where
  "ob_patches s = concat (map (\<lambda>f. case f of ObPatch p \<Rightarrow> [p] | _ \<Rightarrow> []) (ob_log s))"

definition form_ok :: "nat \<Rightarrow> profile option \<Rightarrow> bool" where
  "form_ok n d \<longleftrightarrow> n \<le> 2 \<and> (case d of
       None \<Rightarrow> n = 0
     | Some p \<Rightarrow> draft_ok p \<and> country (pf_countryCode p) \<and> pf_discoveryIntent p \<noteq> []
         \<and> (0 < n \<longrightarrow> \<not> blank (pf_displayName p)) \<and> (n = 2 \<longrightarrow> pf_languages p \<noteq> []))"

definition ob_inv :: "onboarding \<Rightarrow> bool" where
  "ob_inv s \<longleftrightarrow> form_ok (ob_step s) (ob_profile s)
     \<and> (ObLoad \<in> conts (ob_tasks s) \<longrightarrow> ob_profile s = None)
     \<and> length (tasks_of (\<lambda>k. k = ObLoad) (ob_tasks s)) \<le> 1
     \<and> length (tasks_of (\<lambda>k. k = ObSave) (ob_tasks s)) \<le> 1
     \<and> (ObSave \<in> conts (ob_tasks s) \<longrightarrow> ob_busy s)"

lemma ob_patches_simps [simp]:
  "ob_patches (ob_do f s) = ob_patches s @ (case f of ObPatch p \<Rightarrow> [p] | _ \<Rightarrow> [])"
  "ob_patches (ob_await k s) = ob_patches s"
  "ob_patches (s\<lparr>ob_profile := a\<rparr>) = ob_patches s" "ob_patches (s\<lparr>ob_step := b\<rparr>) = ob_patches s"
  "ob_patches (s\<lparr>ob_status := c\<rparr>) = ob_patches s" "ob_patches (s\<lparr>ob_busy := d\<rparr>) = ob_patches s"
  "ob_patches (s\<lparr>ob_tasks := q\<rparr>) = ob_patches s" "ob_patches (s\<lparr>ob_stopped := x\<rparr>) = ob_patches s"
  by (simp_all add: ob_patches_def ob_do_def ob_await_def)

lemma draft_toggle:
  assumes "draft_ok p"
  shows "v \<in> set languages \<Longrightarrow> draft_ok (p\<lparr>pf_languages := onboarding_toggle 5 v (pf_languages p)\<rparr>)"
    and "v \<in> set interests \<Longrightarrow> draft_ok (p\<lparr>pf_interests := onboarding_toggle 12 v (pf_interests p)\<rparr>)"
  using assms code_languages onboarding_choice.toggle_fits [of 5 "pf_languages p" v]
    onboarding_choice.toggle_fits [of 12 "pf_interests p" v]
  by (auto simp: draft_ok_def list_all_iff onboarding_toggle_def dest: in_set_takeD split: if_splits)
lemma draft_intent: "draft_ok p \<Longrightarrow> t \<in> set intents \<Longrightarrow> draft_ok (p\<lparr>pf_discoveryIntent := t\<rparr>)"
  by (simp add: draft_ok_def)

lemma draft_name: "draft_ok p \<Longrightarrow> length t \<le> 80 \<Longrightarrow> draft_ok (p\<lparr>pf_displayName := t\<rparr>)"
  by (simp add: draft_ok_def edited_name)

lemma code_intents: "lit ''surprise_me'' \<in> set intents" "[] \<notin> set intents"
  by (simp_all add: intents_def)

lemma form_edit:
  assumes "form_ok n d"
  shows "n = 0 \<Longrightarrow> length t \<le> 80 \<Longrightarrow> form_ok n (map_option (pf_displayName_update (\<lambda>_. t)) d)"
    and "n = 1 \<Longrightarrow> t \<in> set intents \<Longrightarrow> form_ok n (map_option (pf_discoveryIntent_update (\<lambda>_. t)) d)"
    and "n = 1 \<Longrightarrow> v \<in> set languages \<Longrightarrow>
      form_ok n (map_option (\<lambda>p. p\<lparr>pf_languages := onboarding_toggle 5 v (pf_languages p)\<rparr>) d)"
    and "n = 2 \<Longrightarrow> v \<in> set interests \<Longrightarrow>
      form_ok n (map_option (\<lambda>p. p\<lparr>pf_interests := onboarding_toggle 12 v (pf_interests p)\<rparr>) d)"
    and "n \<noteq> 0 \<Longrightarrow> form_ok (n - 1) d"
  using assms draft_name draft_intent draft_toggle code_intents(2)
  by (cases d; fastforce simp: form_ok_def)+

lemma ob_toggle_inv:
  assumes "ob_inv s"
  shows "ob_step s = 1 \<Longrightarrow> v \<in> set languages \<Longrightarrow> ob_inv (ob_toggle Languages v s)"
    and "ob_step s = 2 \<Longrightarrow> v \<in> set interests \<Longrightarrow> ob_inv (ob_toggle Interests v s)"
  using assms form_edit(3,4) [of "ob_step s" "ob_profile s" v] by (simp_all add: ob_inv_def ob_toggle_def cap_def)

lemma form_next:
  "form_ok n (Some p) \<Longrightarrow> n < 2 \<Longrightarrow> \<not> blank (pf_displayName p) \<Longrightarrow> n = 0 \<or> pf_languages p \<noteq> []
    \<Longrightarrow> form_ok (Suc n) (Some p)"
  by (auto simp: form_ok_def)

lemma ob_submit_inv:
  assumes "ob_inv s" and "ob_enabled s"
  shows "ob_inv (ob_submit s)"
proof (cases "ob_profile s")
  case (Some p)
  then have "\<not> ob_busy s" using assms(2) by (simp add: ob_enabled_def)
  then have "ObSave \<notin> conts (ob_tasks s)" using assms(1) unfolding ob_inv_def by blast
  then have "set (tasks_of (\<lambda>k. k = ObSave) (ob_tasks s)) = {}" unfolding set_tasks_of by blast
  then have "tasks_of (\<lambda>k. k = ObSave) (ob_tasks s) = []" by (simp only: set_empty)
  moreover have "ob_step s < 2 \<Longrightarrow> form_ok (Suc (ob_step s)) (Some p)"
    by (rule form_next) (use assms Some in \<open>simp_all add: ob_enabled_def ob_inv_def\<close>)
  ultimately show ?thesis using assms(1) Some
    by (auto simp: ob_submit_def ob_inv_def ob_await_def ob_do_def)
qed (use assms in \<open>simp add: ob_enabled_def\<close>)

lemma ob_do_inv [simp]: "ob_inv (ob_do f s) = ob_inv s" "ob_inv (ob_load_failed s) = ob_inv s"
  by (simp_all add: ob_inv_def ob_do_def ob_load_failed_def)

lemma ob_loaded_inv:
  assumes "ob_inv s" and "ob_profile s = None" and "ObLoad \<notin> conts (ob_tasks s)" and "ob_ok s (ObResume i r)"
  shows "ob_inv (ob_loaded r s)"
proof -
  have "ob_inv (s\<lparr>ob_profile := Some (with_intent v), ob_status := []\<rparr>)"
    if "draft_ok v" "country (pf_countryCode v)" for v
    using assms(1-3) that draft_intent [OF that(1) code_intents(1)] by (simp add: ob_inv_def form_ok_def with_intent_def)
  then show ?thesis using assms(1,4)
    by (auto simp: ob_loaded_def ob_ok_def split: reply.split option.split)
qed

lemma ob_resume_inv:
  assumes inv: "ob_inv s" and ok: "ob_ok s (ObResume i r)" and taken: "take_task i (ob_tasks s) = Some (k, q)"
  shows "ob_inv ((case k of ObLoad \<Rightarrow> ob_loaded | ObSave \<Rightarrow> ob_saved) r (s\<lparr>ob_tasks := q\<rparr>))"
proof -
  have one: "length (tasks_of (\<lambda>k. k = ObLoad) (ob_tasks s)) \<le> 1" "length (tasks_of (\<lambda>k. k = ObSave) (ob_tasks s)) \<le> 1"
    using inv by (simp_all add: ob_inv_def)
  note load = take_task_single [OF taken one(1)] and save = take_task_single [OF taken one(2)]
  have sub: "x \<in> conts q \<Longrightarrow> x \<in> conts (ob_tasks s)" for x using taken by (rule take_task_sub)
  show ?thesis
  proof (cases k)
    case ObLoad
    then have "ObLoad \<notin> conts q" using load(1) set_tasks_of [of "\<lambda>k. k = ObLoad" q] by auto
    moreover have "ob_profile s = None" using inv take_task_cont [OF taken] ObLoad by (simp add: ob_inv_def)
    moreover have "ob_inv (s\<lparr>ob_tasks := q\<rparr>)" using inv load(1) save(2) sub ObLoad by (auto simp: ob_inv_def)
    ultimately show ?thesis using ok ObLoad by (simp add: ob_loaded_inv ob_ok_def)
  next
    case ObSave
    then have "ObSave \<notin> conts q" using save(1) set_tasks_of [of "\<lambda>k. k = ObSave" q] by auto
    then show ?thesis using inv load(2) save(1) sub ObSave
      by (auto simp: ob_inv_def ob_saved_def ob_do_def)
  qed
qed

lemma ob_step_inv:
  assumes "ob_inv s" and "ob_ok s e"
  shows "ob_inv (onboarding_step s e)"
proof (cases e)
  case (ObResume i r)
  show ?thesis using assms ob_resume_inv [OF assms(1), of i r] ObResume
    by (auto simp: onboarding_step_def split: option.split)
next
  case (ObName t)
  then show ?thesis using assms form_edit(1) [of "ob_step s" "ob_profile s" t]
    by (auto simp: onboarding_step_def ob_ok_def ob_inv_def)
next
  case (ObIntent t)
  then show ?thesis using assms form_edit(2) [of "ob_step s" "ob_profile s" t]
    by (auto simp: onboarding_step_def ob_ok_def ob_inv_def)
next
  case ObBack
  then show ?thesis using assms form_edit(5) [of "ob_step s" "ob_profile s"]
    by (auto simp: onboarding_step_def ob_inv_def)
next
  case ObUnmount
  then show ?thesis using assms by (simp add: onboarding_step_def ob_inv_def)
qed (use assms in \<open>simp_all add: onboarding_step_def ob_ok_def ob_toggle_inv ob_submit_inv\<close>)

lemma ob_init_inv: "ob_inv onboarding_init"
  by (simp add: ob_inv_def onboarding_init_def form_ok_def)

lemma ob_sends:
  assumes inv: "ob_inv s"
  shows "ob_patches (onboarding_step s e) = ob_patches s
    \<or> (\<exists>p. ob_profile s = Some p \<and> profile_ready p \<and> country (pf_countryCode p)
        \<and> ob_patches (onboarding_step s e) = ob_patches s @ [p])"
proof (cases e)
  case (ObResume i r)
  then show ?thesis
    by (auto simp: onboarding_step_def ob_loaded_def ob_load_failed_def ob_saved_def
        split: option.split reply.split ob_cont.split)
next
  case ObSubmit
  then show ?thesis using inv
    by (auto simp: onboarding_step_def ob_submit_def ob_enabled_def ob_inv_def form_ok_def profile_ready_def split: option.splits)
qed (auto simp: onboarding_step_def ob_toggle_def)

interpretation onboarding: profile_form onboarding_step ob_ok ob_inv ob_profile ob_patches
proof
  show "ob_inv s \<Longrightarrow> ob_ok s e \<Longrightarrow> ob_inv (onboarding_step s e)" for s e by (rule ob_step_inv)
  show "ob_inv s \<Longrightarrow> ob_profile s = Some p \<Longrightarrow> draft_ok p" for s p by (simp add: ob_inv_def form_ok_def)
  show "ob_inv s \<Longrightarrow> ob_ok s e \<Longrightarrow> ob_patches (onboarding_step s e) = ob_patches s
    \<or> (\<exists>p. ob_profile s = Some p \<and> profile_ready p \<and> country (pf_countryCode p)
        \<and> ob_patches (onboarding_step s e) = ob_patches s @ [p])" for s e by (rule ob_sends)
qed

section \<open>Guarantees\<close>

abbreviation ob_reachable :: "onboarding \<Rightarrow> bool" where
  "ob_reachable s \<equiv> reachable onboarding_step ob_ok onboarding_init s"


text \<open>A new account, as the sign-in creates it.\<close>

definition new_account :: profile where
  "new_account = \<lparr>pf_id = lit ''u'', pf_displayName = lit ''New person'', pf_avatarUrl = [], pf_bio = [],
     pf_countryCode = [], pf_interests = [], pf_languages = [], pf_discoveryIntent = []\<rparr>"

definition onboarded :: "ob_event list" where
  "onboarded = [ObResume 0 (Response 200 (Some new_account)), ObName (lit ''Ada''), ObSubmit,
     ObLanguage (lit ''en''), ObSubmit, ObInterest (lit ''art''), ObSubmit]"

lemma new_account_ok: "draft_ok new_account" "country (pf_countryCode new_account)" "\<not> profile_ready new_account"
  by (simp_all add: draft_ok_def country_def profile_ready_def new_account_def onboarding_choice.fits_def
      edited_name edited_bio)

lemma new_account_parts:
  "\<not> blank (pf_displayName new_account)" "\<not> blank (lit ''Ada'')" "pf_languages new_account = []"
  "pf_interests new_account = []" "pf_discoveryIntent new_account = []"
  by (simp_all add: new_account_def blank_iff_all_space lit_def js_space_def of_char_def)

lemma onboarded_patches: "ob_patches (run onboarding_step onboarding_init onboarded) =
  [new_account\<lparr>pf_displayName := lit ''Ada'', pf_discoveryIntent := lit ''surprise_me'',
     pf_languages := [lit ''en''], pf_interests := [lit ''art'']\<rparr>]"
  by (simp add: onboarded_def onboarding_init_def onboarding_step_def take_task_def ob_loaded_def ok_status_def
      new_account_ok new_account_parts with_intent_def ob_submit_def ob_enabled_def ob_toggle_def cap_def
      onboarding_toggle_def ob_do_def ob_await_def ob_patches_def)


text \<open>U+0085 alone is a name for the form and none for the server.\<close>

lemma next_line_name:
  "profile_ready (new_account\<lparr>pf_displayName := [0x85], pf_discoveryIntent := lit ''dating'', pf_languages := [lit ''en'']\<rparr>)"
  "\<not> visible_name (new_account\<lparr>pf_displayName := [0x85]\<rparr>)"
  by (simp_all add: profile_ready_def visible_name_def go_space_def blank_iff_all_space js_space_def new_account_def)

end
