(* ===== verification/Sign_In.thy ===== *)
theory Sign_In
  imports Preferences
begin

text \<open>
  The sign-in card (\<open>components/auth/sign-in.tsx\<close>): the check of the session, the Google button with
  its nonce, the exchange of the credential, and signing out.
\<close>

section \<open>State\<close>

record auth_user =
  au_id :: jstr
  au_displayName :: jstr
  au_avatarUrl :: jstr
  au_newUser :: bool
  au_googleEmailVerified :: bool

record auth_config =
  ac_enabled :: bool
  ac_clientId :: jstr
  ac_nonce :: jstr

datatype si_fx = GetMe | GetOwnProfile | GetConfig | AppendScript | GoogleInit jstr jstr | GoogleRender
  | PostGoogle jstr jstr | PostLogout | SiGo jstr | SiReload

datatype si_cont = SiMe | SiProfile | SiConfig | SiGoogle | SiWelcome | SiLogout

record sign_in =
  si_user :: "auth_user option"
  si_config :: "auth_config option"
  si_message :: jstr
  si_cancelled :: bool
  si_google :: bool               \<comment> \<open>\<open>window.google\<close> exists\<close>
  si_callback :: "jstr option"    \<comment> \<open>the nonce in the closure Google calls back\<close>
  si_script :: "auth_config option"  \<comment> \<open>the effect whose script is loading\<close>
  si_tasks :: "si_cont pool"
  si_next :: nat
  si_log :: "si_fx list"

definition si_do :: "si_fx \<Rightarrow> sign_in \<Rightarrow> sign_in" where
  "si_do f s = s\<lparr>si_log := si_log s @ [f]\<rparr>"

definition si_await :: "si_cont \<Rightarrow> sign_in \<Rightarrow> sign_in" where
  "si_await k s = s\<lparr>si_tasks := si_tasks s @ [(si_next s, k)], si_next := Suc (si_next s)\<rparr>"

definition si_say :: "jstr \<Rightarrow> sign_in \<Rightarrow> sign_in" where
  "si_say m s = s\<lparr>si_message := m\<rparr>"

definition sign_in_init :: "bool \<Rightarrow> sign_in" where
  "sign_in_init google = \<lparr>si_user = None, si_config = None, si_message = lit ''Checking your session'' @ ellipsis,
     si_cancelled = False, si_google = google, si_callback = None, si_script = None,
     si_tasks = [(0, SiMe)], si_next = 1, si_log = [GetMe]\<rparr>"

section \<open>Checking the session\<close>

text \<open>\<open>router.replace(profileReady(...) ? "/app/discover" : "/onboarding")\<close>\<close>

definition enter_app :: "profile \<Rightarrow> sign_in \<Rightarrow> sign_in" where
  "enter_app p s = si_do (SiGo (if profile_ready p then lit ''/app/discover'' else lit ''/onboarding'')) s"

definition si_load_failed :: "sign_in \<Rightarrow> sign_in" where
  "si_load_failed s = (if si_cancelled s then s
     else si_say (lit ''Could not reach OneMinute. Please refresh and try again.'') s)"

definition got_me :: "auth_user reply \<Rightarrow> sign_in \<Rightarrow> sign_in" where
  "got_me r s = (case r of
     NetworkError \<Rightarrow> si_load_failed s
   | Response n b \<Rightarrow>
       if \<not> si_cancelled s \<and> ok_status n
       then (case b of None \<Rightarrow> si_load_failed s
         | Some u \<Rightarrow> si_await SiProfile (si_do GetOwnProfile (s\<lparr>si_user := Some u\<rparr>)))
       else si_await SiConfig (si_do GetConfig s))"

definition got_own_profile :: "profile reply \<Rightarrow> sign_in \<Rightarrow> sign_in" where
  "got_own_profile r s = (case r of
     NetworkError \<Rightarrow> si_load_failed s
   | Response n b \<Rightarrow>
       if ok_status n \<and> \<not> si_cancelled s
       then (case b of None \<Rightarrow> si_load_failed s | Some p \<Rightarrow> si_say [] (enter_app p s))
       else si_say [] s)"

section \<open>The Google button\<close>

text \<open>\<open>start\<close> of the effect for configuration \<open>c\<close>; the button is rendered while nobody is signed in.\<close>

definition google_start :: "auth_config \<Rightarrow> sign_in \<Rightarrow> sign_in" where
  "google_start c s = (if si_cancelled s \<or> si_config s \<noteq> Some c \<or> \<not> si_google s \<or> si_user s \<noteq> None then s
     else si_do GoogleRender (si_do (GoogleInit (ac_clientId c) (ac_nonce c)) (s\<lparr>si_callback := Some (ac_nonce c)\<rparr>)))"

definition google_effect :: "auth_config \<Rightarrow> sign_in \<Rightarrow> sign_in" where
  "google_effect c s = (if \<not> ac_enabled c \<or> si_user s \<noteq> None then s
     else if si_google s then google_start c s
     else si_do AppendScript (s\<lparr>si_script := Some c\<rparr>))"

definition got_config :: "auth_config reply \<Rightarrow> sign_in \<Rightarrow> sign_in" where
  "got_config r s = (case r of
     NetworkError \<Rightarrow> si_load_failed s
   | Response n b \<Rightarrow>
       if \<not> ok_status n then (if si_cancelled s then s else si_say (lit ''Sign-in is temporarily unavailable.'') s)
       else (case b of None \<Rightarrow> si_load_failed s
         | Some c \<Rightarrow> if si_cancelled s then s
             else google_effect c (si_say (if ac_enabled c then [] else lit ''Google sign-in needs a client ID.'')
               (s\<lparr>si_config := Some c\<rparr>))))"

section \<open>Exchanging the credential, signing out\<close>

definition si_unreachable :: "sign_in \<Rightarrow> sign_in" where
  "si_unreachable s = si_say (lit ''Could not reach OneMinute. Please try again.'') s"

definition exchange :: "jstr \<Rightarrow> jstr \<Rightarrow> sign_in \<Rightarrow> sign_in" where
  "exchange credential nonce s = si_await SiGoogle (si_do (PostGoogle credential nonce)
     (si_say (lit ''Signing you in'' @ ellipsis) s))"

definition exchanged :: "auth_user reply \<Rightarrow> sign_in \<Rightarrow> sign_in" where
  "exchanged r s = (case r of
     NetworkError \<Rightarrow> si_unreachable s
   | Response n b \<Rightarrow>
       if \<not> ok_status n then si_say (lit ''Google sign-in failed. Please try again.'') s
       else (case b of None \<Rightarrow> si_unreachable s
         | Some u \<Rightarrow> si_await SiWelcome (si_do GetOwnProfile (si_say [] (s\<lparr>si_user := Some u\<rparr>)))))"

definition welcomed :: "profile reply \<Rightarrow> sign_in \<Rightarrow> sign_in" where
  "welcomed r s = (case r of
     NetworkError \<Rightarrow> si_unreachable s
   | Response n b \<Rightarrow> if \<not> ok_status n then s
       else (case b of None \<Rightarrow> si_unreachable s | Some p \<Rightarrow> enter_app p s))"

definition signed_out :: "unit reply \<Rightarrow> sign_in \<Rightarrow> sign_in" where
  "signed_out r s = (case r of
     NetworkError \<Rightarrow> si_unreachable s
   | Response n b \<Rightarrow> if ok_status n then si_do SiReload (s\<lparr>si_user := None, si_config := None\<rparr>)
       else si_say (lit ''Could not sign out. Please try again.'') s)"

section \<open>Events\<close>

datatype si_reply = UserReply "auth_user reply" | ProfileReply "profile reply"
  | ConfigReply "auth_config reply" | EmptyReply "unit reply"

text \<open>A reply of another kind cannot settle a call; it counts as no answer.\<close>

fun si_resume :: "si_cont \<Rightarrow> si_reply \<Rightarrow> sign_in \<Rightarrow> sign_in" where
  "si_resume SiMe (UserReply r) s = got_me r s"
| "si_resume SiProfile (ProfileReply r) s = got_own_profile r s"
| "si_resume SiConfig (ConfigReply r) s = got_config r s"
| "si_resume SiGoogle (UserReply r) s = exchanged r s"
| "si_resume SiWelcome (ProfileReply r) s = welcomed r s"
| "si_resume SiLogout (EmptyReply r) s = signed_out r s"
| "si_resume SiMe _ s = si_load_failed s"
| "si_resume SiProfile _ s = si_load_failed s"
| "si_resume SiConfig _ s = si_load_failed s"
| "si_resume _ _ s = si_unreachable s"

datatype si_event = SiSettle nat si_reply | SiScriptLoaded | SiScriptFailed | SiCredential jstr | SiPressLogout | SiUnmount

definition sign_in_step :: "sign_in \<Rightarrow> si_event \<Rightarrow> sign_in" where
  "sign_in_step s e = (case e of
     SiSettle i r \<Rightarrow> (case take_task i (si_tasks s) of None \<Rightarrow> s
       | Some (k, q) \<Rightarrow> si_resume k r (s\<lparr>si_tasks := q\<rparr>))
   | SiScriptLoaded \<Rightarrow> (case si_script s of None \<Rightarrow> s
       | Some c \<Rightarrow> google_start c (s\<lparr>si_google := True, si_script := None\<rparr>))
   | SiScriptFailed \<Rightarrow> (if si_script s = None then s
       else si_say (lit ''Could not load Google sign-in.'') (s\<lparr>si_script := None\<rparr>))
   | SiCredential c \<Rightarrow> (case si_callback s of None \<Rightarrow> s | Some nonce \<Rightarrow> exchange c nonce s)
   | SiPressLogout \<Rightarrow> (if si_user s = None \<or> si_cancelled s then s else si_await SiLogout (si_do PostLogout s))
   | SiUnmount \<Rightarrow> s\<lparr>si_cancelled := True\<rparr>)"

section \<open>The nonce\<close>

definition ready_pages :: "jstr set" where
  "ready_pages = {lit ''/app/discover'', lit ''/onboarding''}"

text \<open>When an effect may come: a credential goes out with a nonce Google was initialised with, the
  page only leaves for the app or the onboarding after asking for the profile, and reloads only
  after asking to sign out.\<close>

fun fx_ok :: "si_fx \<Rightarrow> si_fx list \<Rightarrow> bool" where
  "fx_ok (PostGoogle c n) past = list_ex (\<lambda>f. case f of GoogleInit i m \<Rightarrow> m = n | _ \<Rightarrow> False) past"
| "fx_ok (GoogleInit i n) past = (GetConfig \<in> set past)"
| "fx_ok (SiGo p) past = (p \<in> ready_pages \<and> GetOwnProfile \<in> set past)"
| "fx_ok SiReload past = (PostLogout \<in> set past)"
| "fx_ok _ past = True"

fun log_ok :: "si_fx list \<Rightarrow> bool" where
  "log_ok [] = True"
| "log_ok (f # past) = (log_ok past \<and> fx_ok f past)"

text \<open>What a pending call tells about the past.\<close>

fun asked :: "si_cont \<Rightarrow> si_fx list \<Rightarrow> bool" where
  "asked SiProfile past = (GetOwnProfile \<in> set past)"
| "asked SiWelcome past = (GetOwnProfile \<in> set past)"
| "asked SiConfig past = (GetConfig \<in> set past)"
| "asked SiLogout past = (PostLogout \<in> set past)"
| "asked _ past = True"

definition si_inv :: "sign_in \<Rightarrow> bool" where
  "si_inv s \<longleftrightarrow> log_ok (rev (si_log s)) \<and> (\<forall>k \<in> conts (si_tasks s). asked k (si_log s))
     \<and> (\<forall>n. si_callback s = Some n \<longrightarrow> fx_ok (PostGoogle [] n) (si_log s))
     \<and> (si_config s \<noteq> None \<longrightarrow> GetConfig \<in> set (si_log s))"

lemma asked_snoc: "asked k past \<Longrightarrow> asked k (past @ [f])"
  by (cases k) simp_all

lemma fx_ok_rev [simp]: "fx_ok f (rev past) = fx_ok f past"
  by (cases f) simp_all

lemma si_do_inv: "si_inv s \<Longrightarrow> fx_ok f (si_log s) \<Longrightarrow> si_inv (si_do f s)"
  by (auto simp: si_inv_def si_do_def intro: asked_snoc)

lemma si_await_inv: "si_inv s \<Longrightarrow> asked k (si_log s) \<Longrightarrow> si_inv (si_await k s)"
  by (auto simp: si_inv_def si_await_def)

lemma si_frame [simp]:
  "si_inv (si_say m s) = si_inv s" "si_inv (s\<lparr>si_user := u\<rparr>) = si_inv s" "si_inv (s\<lparr>si_script := c\<rparr>) = si_inv s"
  "si_inv (s\<lparr>si_google := b\<rparr>) = si_inv s" "si_inv (s\<lparr>si_cancelled := b\<rparr>) = si_inv s"
  "si_inv (si_load_failed s) = si_inv s" "si_inv (si_unreachable s) = si_inv s"
  "si_log (si_say m s) = si_log s" "si_log (si_do f s) = si_log s @ [f]"
  by (simp_all add: si_inv_def si_say_def si_load_failed_def si_unreachable_def si_do_def)

lemma google_start_inv:
  assumes "si_inv s"
  shows "si_inv (google_start c s)"
proof (cases "si_config s = Some c")
  case True
  then have "si_inv (si_do (GoogleInit (ac_clientId c) (ac_nonce c)) s)"
    using assms by (intro si_do_inv) (simp_all add: si_inv_def)
  then have "si_inv (si_do (GoogleInit (ac_clientId c) (ac_nonce c)) (s\<lparr>si_callback := Some (ac_nonce c)\<rparr>))"
    by (simp add: si_inv_def si_do_def)
  then show ?thesis using assms by (simp add: google_start_def si_do_inv)
qed (use assms in \<open>simp add: google_start_def\<close>)

lemma google_effect_inv: "si_inv s \<Longrightarrow> si_inv (google_effect c s)"
  by (simp add: google_effect_def google_start_inv si_do_inv)

lemma got_config_inv: "si_inv s \<Longrightarrow> GetConfig \<in> set (si_log s) \<Longrightarrow> si_inv (got_config r s)"
proof -
  assume s: "si_inv s" "GetConfig \<in> set (si_log s)"
  then have "si_inv (s\<lparr>si_config := Some c\<rparr>)" for c by (simp add: si_inv_def)
  then show ?thesis using s(1)
    by (auto simp: got_config_def intro!: google_effect_inv split: reply.split option.split)
qed

lemma enter_app_inv: "si_inv s \<Longrightarrow> GetOwnProfile \<in> set (si_log s) \<Longrightarrow> si_inv (enter_app p s)"
  by (simp add: enter_app_def si_do_inv ready_pages_def)

lemma si_resume_inv:
  assumes "si_inv s" and "asked k (si_log s)"
  shows "si_inv (si_resume k r s)"
  using assms
  by (cases k; cases r)
     (auto simp: got_me_def got_own_profile_def exchanged_def welcomed_def signed_out_def enter_app_inv got_config_inv
       intro!: si_await_inv si_do_inv split: reply.split option.split, simp_all add: si_inv_def)

lemma si_step_inv: "si_inv s \<Longrightarrow> si_inv (sign_in_step s e)"
proof (cases e)
  assume inv: "si_inv s"
  case (SiSettle i r)
  have "si_inv (si_resume k r (s\<lparr>si_tasks := q\<rparr>))" if "take_task i (si_tasks s) = Some (k, q)" for k q
    using inv take_task_SomeD [OF that] by (intro si_resume_inv) (auto simp: si_inv_def)
  then show ?thesis using inv SiSettle by (simp add: sign_in_step_def split: option.split)
next
  assume inv: "si_inv s"
  case (SiCredential c)
  show ?thesis
  proof (cases "si_callback s")
    case (Some n)
    then have "fx_ok (PostGoogle c n) (si_log s)" using inv by (simp add: si_inv_def)
    then show ?thesis using inv Some SiCredential
      by (auto simp: sign_in_step_def exchange_def intro!: si_await_inv si_do_inv)
  qed (use inv SiCredential in \<open>simp add: sign_in_step_def\<close>)
qed (auto simp: sign_in_step_def intro!: google_start_inv si_await_inv si_do_inv split: option.split)

interpretation sign_in: machine sign_in_step "\<lambda>_ _. True" si_inv
  by unfold_locales (rule si_step_inv)


definition google_config :: auth_config where
  "google_config = \<lparr>ac_enabled = True, ac_clientId = lit ''client'', ac_nonce = lit ''n1''\<rparr>"

definition google_user :: auth_user where
  "google_user = \<lparr>au_id = lit ''u'', au_displayName = lit ''Ada'', au_avatarUrl = [], au_newUser = True, au_googleEmailVerified = True\<rparr>"

definition google_profile :: profile where
  "google_profile = \<lparr>pf_id = lit ''u'', pf_displayName = lit ''Ada'', pf_avatarUrl = [], pf_bio = [],
     pf_countryCode = [], pf_interests = [], pf_languages = [], pf_discoveryIntent = []\<rparr>"

definition first_visit :: "si_event list" where
  "first_visit = [SiSettle 0 (UserReply (Response 401 None)), SiSettle 1 (ConfigReply (Response 200 (Some google_config))),
     SiScriptLoaded, SiCredential (lit ''jwt''), SiSettle 2 (UserReply (Response 200 (Some google_user))),
     SiSettle 3 (ProfileReply (Response 200 (Some google_profile)))]"

lemma first_visit_log: "si_log (run sign_in_step (sign_in_init False) first_visit) =
  [GetMe, GetConfig, AppendScript, GoogleInit (lit ''client'') (lit ''n1''), GoogleRender,
   PostGoogle (lit ''jwt'') (lit ''n1''), GetOwnProfile, SiGo (lit ''/onboarding'')]"
proof -
  have "\<not> profile_ready google_profile" by (simp add: profile_ready_def google_profile_def)
  then show ?thesis
    by (simp add: first_visit_def sign_in_init_def sign_in_step_def take_task_def got_me_def ok_status_def si_await_def
        si_do_def si_say_def got_config_def google_effect_def google_start_def google_config_def exchange_def exchanged_def
        welcomed_def enter_app_def)
qed


end
