(* ===== verification/Discovery_Screen.thy ===== *)
theory Discovery_Screen
  imports Discovery_Client
begin

text \<open>
  What the discovery page shows (\<open>components/discovery/discovery.tsx\<close>, its markup, with the labels of
  \<open>lib/preferences.ts\<close>): the home with the saved preferences and the button that joins or leaves
  the queue, and the encounter with its timer, status, chat and actions. Rendering an encounter
  throws where the server's event lacks what the markup reads; that is the value \<open>None\<close>.
\<close>

section \<open>Home\<close>

definition intent_names :: "(jstr \<times> jstr) list" where
  "intent_names = map (map_prod lit lit) [(''surprise_me'', ''Surprise me''), (''new_friends'', ''New friends''),
     (''dating'', ''Dating''), (''gaming'', ''Gaming''), (''language_exchange'', ''Language exchange''),
     (''tech_ideas'', ''Tech / ideas''), (''professional_networking'', ''Professional networking'')]"

definition language_names :: "(jstr \<times> jstr) list" where
  "language_names = map (map_prod lit lit) [(''en'', ''English''), (''hi'', ''Hindi''), (''bn'', ''Bengali''),
     (''es'', ''Spanish''), (''fr'', ''French''), (''de'', ''German''), (''ja'', ''Japanese'')]"

definition saved_intent :: "profile option \<Rightarrow> jstr" where
  "saved_intent p = (case p of None \<Rightarrow> lit ''Your preferences''
     | Some pf \<Rightarrow> (case map_of intent_names (pf_discoveryIntent pf) of None \<Rightarrow> lit ''Your preferences'' | Some n \<Rightarrow> n))"

definition saved_languages :: "profile option \<Rightarrow> jstr" where
  "saved_languages p = (case p of None \<Rightarrow> [] | Some pf \<Rightarrow> join_with (lit ''  -  '')
     (map (\<lambda>v. case map_of language_names v of None \<Rightarrow> v | Some n \<Rightarrow> n) (pf_languages pf)))"

datatype home_button = CancelSearch | MeetSomeone bool   \<comment> \<open>enabled\<close>

record home_view =
  hv_eyebrow :: jstr
  hv_intent :: jstr
  hv_languages :: jstr
  hv_interests :: "jstr list"
  hv_button :: home_button
  hv_status :: jstr

definition show_home :: "discovery \<Rightarrow> home_view" where
  "show_home s = (let queued = (di_phase s = DQueued) in
     \<lparr>hv_eyebrow = (if queued then lit ''Finding your next hello'' else lit ''A little curiosity goes a long way''),
      hv_intent = saved_intent (di_profile s), hv_languages = saved_languages (di_profile s),
      hv_interests = (case di_profile s of None \<Rightarrow> [] | Some p \<Rightarrow> map interest_label (pf_interests p)),
      hv_button = (if queued then CancelSearch else MeetSomeone (di_phase s = DReady)),
      hv_status = di_message s\<rparr>)"

section \<open>Encounter\<close>

text \<open>\<open>match.peer.displayName\<close>: the outer \<open>None\<close> is the exception.\<close>

definition peer_name :: "dmatch \<Rightarrow> json option option" where
  "peer_name m = (case dm_peer m of None \<Rightarrow> None | Some JNull \<Rightarrow> None
     | Some p \<Rightarrow> Some (member (lit ''displayName'') p))"

text \<open>\<open>`0:${String(seconds).padStart(2, "0")}`\<close>\<close>

definition pad_two :: "jstr \<Rightarrow> jstr" where
  "pad_two s = replicate (2 - length s) 0x30 @ s"

definition timer_text :: "discovery \<Rightarrow> dmatch \<Rightarrow> jstr" where
  "timer_text s m = (if dm_extended m then lit ''Extended''
     else lit ''0:'' @ pad_two (case di_seconds s of None \<Rightarrow> lit ''NaN'' | Some n \<Rightarrow> decimal (nat n)))"

text \<open>\<open>sharedInterests.map(label).join(", ")\<close> with the test of its length; only a list has \<open>map\<close>, and
  only a string has \<open>split\<close>.\<close>

fun label_json :: "json \<Rightarrow> jstr option" where
  "label_json (JStr v) = Some (label v)"
| "label_json _ = None"

fun labels_json :: "json list \<Rightarrow> jstr list option" where
  "labels_json [] = Some []"
| "labels_json (v # vs) = (case (label_json v, labels_json vs) of (Some w, Some ws) \<Rightarrow> Some (w # ws) | _ \<Rightarrow> None)"

definition greeting :: "json \<Rightarrow> jstr option" where
  "greeting shared = (case shared of
     JArr vs \<Rightarrow> if vs = [] then Some (lit ''Start with hello.'')
       else map_option (\<lambda>ws. lit ''You both like '' @ join_with (lit '', '') ws @ lit ''.'') (labels_json vs)
   | JStr v \<Rightarrow> if v = [] then Some (lit ''Start with hello.'') else None
   | JObj fs \<Rightarrow> if truthy (member (lit ''length'') shared) then None else Some (lit ''Start with hello.'')
   | _ \<Rightarrow> Some (lit ''Start with hello.''))"

definition encounter_status :: "discovery \<Rightarrow> dmatch \<Rightarrow> jstr option" where
  "encounter_status s m = (if di_message s \<noteq> [] then Some (di_message s) else greeting (dm_shared m))"

text \<open>\<open>EncounterActions\<close>: label and whether the button is enabled.\<close>

definition action_button :: "dmatch \<Rightarrow> match_action \<Rightarrow> jstr \<times> bool" where
  "action_button m a = (case a of ActSkip \<Rightarrow> (lit ''Next'', True) | ActExtend \<Rightarrow> (lit ''Extend'', \<not> dm_extended m)
     | ActConnect \<Rightarrow> (if dm_connected m then lit ''Connected'' else lit ''Connect'', \<not> dm_connected m)
     | ActLeave \<Rightarrow> (lit ''Leave'', True))"

record encounter_view =
  ev_peer :: "json option"
  ev_timer :: jstr
  ev_status :: jstr
  ev_chat :: "jstr list option"   \<comment> \<open>\<open>None\<close>: the hint that messages disappear\<close>
  ev_buttons :: "(jstr \<times> bool) list"
  ev_settings :: bool
  ev_safety :: bool

definition show_encounter :: "discovery \<Rightarrow> dmatch \<Rightarrow> encounter_view option" where
  "show_encounter s m = (case (peer_name m, encounter_status s m) of
     (Some name, Some status) \<Rightarrow> Some \<lparr>ev_peer = name, ev_timer = timer_text s m, ev_status = status,
       ev_chat = (if di_chat s = [] then None else Some (di_chat s)),
       ev_buttons = map (action_button m) [ActSkip, ActExtend, ActConnect, ActLeave],
       ev_settings = di_settingsOpen s, ev_safety = di_safetyOpen s\<rparr>
   | _ \<Rightarrow> None)"

datatype disc_screen = HomeScreen home_view | EncounterScreen "encounter_view option"

definition show_discovery :: "discovery \<Rightarrow> disc_screen" where
  "show_discovery s = (case di_match s of None \<Rightarrow> HomeScreen (show_home s)
     | Some m \<Rightarrow> EncounterScreen (show_encounter s m))"

section \<open>Screen and steps agree\<close>

lemma button_agrees: "di_match s = Some m \<Longrightarrow> action_enabled a s \<longleftrightarrow> snd (action_button m a)"
  by (cases a) (auto simp: action_enabled_def action_button_def)

lemma join_needs_button:
  "press_step s PressJoin \<noteq> s \<Longrightarrow> \<exists>v. show_discovery s = HomeScreen v \<and> hv_button v = MeetSomeone True"
  by (auto simp: show_discovery_def show_home_def Let_def split: if_splits)

lemma cancel_needs_button:
  "press_step s PressCancel \<noteq> s \<Longrightarrow> \<exists>v. show_discovery s = HomeScreen v \<and> hv_button v = CancelSearch"
  by (auto simp: show_discovery_def show_home_def Let_def split: if_splits)

text \<open>The saved preferences of a profile that passed the onboarding are shown by name: every intent and
  language of the vocabulary has one.\<close>

lemma vocabulary_named:
  "map fst intent_names = intents" "map fst language_names = languages"
  by (simp_all add: intent_names_def language_names_def intents_def languages_def)

text \<open>An encounter the server described properly is always rendered.\<close>

lemma labels_of_strings: "labels_json (map JStr vs) = Some (map label vs)"
  by (induction vs) simp_all

lemma proper_match_renders:
  assumes "member (lit ''peer'') p = Some (JObj fs)"
    and "member (lit ''sharedInterests'') p \<in> {None, Some JNull} \<union> range (\<lambda>vs. Some (JArr (map JStr vs)))"
  shows "show_encounter s (read_match mid p) \<noteq> None"
proof -
  have "greeting (dm_shared (read_match mid p)) \<noteq> None"
    using assms(2) by (auto simp: read_match_def greeting_def labels_of_strings)
  moreover have "peer_name (read_match mid p) \<noteq> None" using assms(1) by (simp add: read_match_def peer_name_def)
  ultimately show ?thesis by (auto simp: show_encounter_def encounter_status_def)
qed

end
