(* ===== verification/Page_Screens.thy ===== *)
theory Page_Screens
  imports Runtime_Pages Moments Onboarding Sign_In Discovery_Screen
begin

text \<open>
  What the activity page, the moments page, the onboarding form and the sign-in card show, as data:
  the texts that depend on the state, and the controls with their labels and whether they are enabled.
\<close>

section \<open>Activity (\<open>activity.tsx\<close>)\<close>

text \<open>An entry has the link of the notification centre, the first letter of the name, the time and a
  dot while it is unread.\<close>

record activity_entry =
  ae_link :: notice_link
  ae_initial :: "code_unit option"
  ae_time :: jstr
  ae_dot :: bool

definition activity_entry_of :: "notice \<Rightarrow> activity_entry" where
  "activity_entry_of n = \<lparr>ae_link = \<lparr>nk_unread = (\<not> no_read n), nk_href = lit ''/app/messages?connection='' @ no_connection n,
       nk_name = no_name n,
       nk_text = (if no_kind n = lit ''message'' then lit ''Sent you a message''
         else if no_kind n = lit ''call'' then lit ''Called you'' else lit ''Connected with you'')\<rparr>,
     ae_initial = (case no_name n of [] \<Rightarrow> None | u # _ \<Rightarrow> Some u), ae_time = no_createdAt n, ae_dot = (\<not> no_read n)\<rparr>"

record activity_view =
  av_title :: jstr
  av_action :: jstr
  av_lead :: jstr
  av_entries :: "activity_entry list"
  av_empty :: "jstr option"
  av_status :: jstr

definition show_activity :: "notices_page \<Rightarrow> activity_view" where
  "show_activity s = (let ns = rt_notices (nt_runtime s) in
     \<lparr>av_title = lit ''Activity'', av_action = lit ''Mark read'',
      av_lead = lit ''Messages, calls, and the people you chose to keep.'',
      av_entries = map activity_entry_of ns,
      av_empty = (if ns = [] then Some (lit ''No activity yet. Your next hello could change that.'') else None),
      av_status = nt_status s\<rparr>)"

text \<open>The page and the notification centre show the same entries, and the dots are as many as the badge
  counts.\<close>

lemma same_entries_everywhere:
  "show_notices (rt_notices (nt_runtime s)) = (if av_empty (show_activity s) = None
     then Notices (map ae_link (av_entries (show_activity s))) else AllCaughtUp)"
  by (simp add: show_activity_def show_notices_def activity_entry_of_def show_notice_def notice_text_def Let_def)

lemma dots_are_counted: "length (filter ae_dot (av_entries (show_activity s))) = unread (rt_notices (nt_runtime s))"
proof -
  have "length (filter ae_dot (map activity_entry_of ns)) = unread ns" for ns
    by (induction ns) (simp_all add: activity_entry_of_def unread_def)
  then show ?thesis by (simp add: show_activity_def Let_def)
qed

section \<open>Moments (\<open>moments.tsx\<close>)\<close>

record moments_intro =
  mi_eyebrow :: jstr
  mi_heading :: jstr
  mi_text :: jstr

record moments_dialog =
  md_title :: jstr
  md_label :: jstr
  md_placeholder :: jstr
  md_body :: jstr
  md_limit :: nat
  md_note :: jstr
  md_status :: jstr
  md_composer :: composer

record moments_view =
  mw_title :: jstr
  mw_intro :: moments_intro
  mw_status :: jstr
  mw_cards :: "moment_card list"
  mw_empty :: "(jstr \<times> jstr \<times> jstr) option"   \<comment> \<open>heading, text and button\<close>
  mw_dialog :: "moments_dialog option"

definition show_moments_dialog :: "moments \<Rightarrow> moments_dialog" where
  "show_moments_dialog s = \<lparr>md_title = lit ''A moment from your day'', md_label = lit ''What is on your mind?'',
     md_placeholder = lit ''Lately, I have been into...'', md_body = mp_body s, md_limit = 600,
     md_note = lit ''Visible to current connections for 24 hours. Up to three active moments.'',
     md_status = mp_status s, md_composer = show_composer s\<rparr>"

definition show_moments :: "moments \<Rightarrow> moments_view" where
  "show_moments s = \<lparr>mw_title = lit ''Moments'',
     mw_intro = \<lparr>mi_eyebrow = lit ''A little of your day'', mi_heading = lit ''Something to talk about.'',
       mi_text = lit ''A thought, a recommendation, a small win. Only your current connections can see it, and it disappears after 24 hours.''\<rparr>,
     mw_status = mp_status s, mw_cards = moment_cards s,
     mw_empty = (if visible s = [] then Some (lit ''A small window into your day.'',
       lit ''Share something that could spark a conversation with someone you have met.'', lit ''Share a moment'') else None),
     mw_dialog = (if mp_dialog s then Some (show_moments_dialog s) else None)\<rparr>"

text \<open>The page offers the first moment exactly when it shows none, and no control of the composer is there
  while the dialog is closed.\<close>

lemma empty_or_cards: "mw_cards (show_moments s) = [] \<longleftrightarrow> mw_empty (show_moments s) \<noteq> None"
  by (simp add: show_moments_def moment_cards_def)

lemma composer_in_dialog: "mw_dialog (show_moments s) = None \<Longrightarrow> e \<in> {MoClose, MoEdit t, MoTone t, MoSubmit} \<Longrightarrow> moments_step s e = s"
  by (auto simp: show_moments_def moments_step_def split: if_splits)

section \<open>Onboarding (\<open>onboarding.tsx\<close>)\<close>

datatype onboarding_fields = NameField jstr
  | TasteFields "(jstr \<times> jstr) list" jstr jstr jstr "(jstr \<times> bool) list"  \<comment> \<open>options, the chosen one, hint, legend, boxes\<close>
  | InterestFields jstr "(jstr \<times> bool) list"
  | NoFields

definition onboarding_fields_of :: "nat \<Rightarrow> profile \<Rightarrow> onboarding_fields" where
  "onboarding_fields_of step p =
     (if step = 0 then NameField (pf_displayName p)
      else if step = 1 then TasteFields intent_names (pf_discoveryIntent p)
        (lit ''Dating only matches with another person who also chooses Dating.'')
        (lit ''Languages you speak (choose 1 to 5)'')
        (map (\<lambda>(v, l). (l, v \<in> set (pf_languages p))) language_names)
      else if step = 2 then InterestFields (lit ''A few things you enjoy (optional)'')
        (map (\<lambda>v. (interest_label v, v \<in> set (pf_interests p))) interests)
      else NoFields)"

record onboarding_form =
  of_fields :: onboarding_fields
  of_back :: bool
  of_enabled :: bool
  of_label :: jstr

record onboarding_view =
  ow_number :: nat                  \<comment> \<open>of the 3 steps, in the eyebrow and the progress bar\<close>
  ow_heading :: "jstr option"       \<comment> \<open>\<open>undefined\<close> beyond the array\<close>
  ow_form :: "onboarding_form option"
  ow_status :: jstr

definition onboarding_headings :: "jstr list" where
  "onboarding_headings = map lit [''Let's start with you.'', ''Your kind of conversation.'', ''Find some common ground.'']"

definition show_onboarding :: "onboarding \<Rightarrow> onboarding_view" where
  "show_onboarding s = \<lparr>ow_number = ob_step s + 1,
     ow_heading = (if ob_step s < length onboarding_headings then Some (onboarding_headings ! ob_step s) else None),
     ow_form = map_option (\<lambda>p. \<lparr>of_fields = onboarding_fields_of (ob_step s) p, of_back = (0 < ob_step s),
       of_enabled = (\<not> (ob_busy s \<or> blank (pf_displayName p) \<or> 0 < ob_step s \<and> pf_languages p = [])),
       of_label = (if ob_busy s then lit ''Saving...'' else if ob_step s = 2 then lit ''Start discovering'' else lit ''Continue'')\<rparr>)
       (ob_profile s),
     ow_status = ob_status s\<rparr>"

text \<open>The form always has a heading and fields, and its button does what it says: \<^emph>\<open>Start discovering\<close> saves the
  profile, \<^emph>\<open>Continue\<close> only shows the next step, and neither does anything while it is disabled.\<close>

lemma onboarding_is_shown:
  assumes "ob_reachable s"
  shows "ow_heading (show_onboarding s) \<noteq> None \<and> ow_number (show_onboarding s) \<le> 3
    \<and> (\<forall>f. ow_form (show_onboarding s) = Some f \<longrightarrow> of_fields f \<noteq> NoFields)"
proof -
  have "ob_inv s" using assms ob_init_inv by (rule onboarding.inv_reachable)
  then have "ob_step s \<le> 2" by (simp add: ob_inv_def form_ok_def)
  then show ?thesis by (auto simp: show_onboarding_def onboarding_fields_of_def onboarding_headings_def)
qed

lemma onboarding_button_tells:
  assumes "\<not> ob_stopped s" and "ow_form (show_onboarding s) = Some f"
  shows "onboarding_step s ObSubmit = (if \<not> of_enabled f then s
     else if of_label f = lit ''Start discovering'' then ob_await ObSave (ob_do (ObPatch (the (ob_profile s))) (s\<lparr>ob_busy := True\<rparr>))
     else s\<lparr>ob_step := ob_step s + 1\<rparr>) \<or> 2 < ob_step s"
  using assms by (auto simp: show_onboarding_def onboarding_step_def ob_enabled_def ob_submit_def split: if_splits)

section \<open>Sign-in (\<open>sign-in.tsx\<close>)\<close>

record account_card =
  ak_picture :: "jstr option"
  ak_initial :: jstr
  ak_name :: jstr
  ak_account :: jstr

datatype sign_in_view = Account account_card | SignInCard "jstr option"   \<comment> \<open>the message\<close>

definition show_sign_in :: "sign_in \<Rightarrow> sign_in_view" where
  "show_sign_in s = (case si_user s of
     Some u \<Rightarrow> Account \<lparr>ak_picture = (if au_avatarUrl u = [] then None else Some (au_avatarUrl u)),
       ak_initial = map upper (take 1 (au_displayName u)), ak_name = au_displayName u,
       ak_account = (if au_googleEmailVerified u then lit ''Google-verified account'' else lit ''Google account'')\<rparr>
   | None \<Rightarrow> SignInCard (if si_message s = [] then None else Some (si_message s)))"

text \<open>Signing out is only offered, and only done, where an account is shown; a reply that signs out brings
  the sign-in card back.\<close>

lemma sign_out_on_account:
  "sign_in_step s SiPressLogout \<noteq> s \<Longrightarrow> \<exists>a. show_sign_in s = Account a"
  "\<exists>m. show_sign_in (signed_out (Response 200 b) s) = SignInCard m"
  by (auto simp: sign_in_step_def show_sign_in_def signed_out_def ok_status_def si_do_def split: option.splits if_splits)

end
