(* ===== verification/Profile_Editor.thy ===== *)
theory Profile_Editor
  imports Profile_Rules
begin

text \<open>
  The profile page (\<open>components/social/profile.tsx\<close>): it loads the profile with the blocked people
  and the number of connections, edits and saves the profile, unblocks people and signs out.
\<close>

section \<open>State\<close>

datatype ed_fx = EdGetAll | EdPatch profile | EdDeleteBlock jstr | EdPostLogout | EdGo jstr

datatype ed_cont = EdLoad | EdSave | EdUnblock jstr | EdLogout

record editor =
  ed_profile :: "profile option"
  ed_blocked :: "profile list"
  ed_connectionCount :: "nat option"
  ed_status :: jstr
  ed_saving :: bool
  ed_savedReady :: bool
  ed_showBlocked :: bool
  ed_accountStatus :: jstr
  ed_drawer :: bool
  ed_stopped :: bool
  ed_tasks :: "ed_cont pool"
  ed_next :: nat
  ed_log :: "ed_fx list"

definition ed_do :: "ed_fx \<Rightarrow> editor \<Rightarrow> editor" where
  "ed_do f s = s\<lparr>ed_log := ed_log s @ [f]\<rparr>"

definition ed_await :: "ed_cont \<Rightarrow> editor \<Rightarrow> editor" where
  "ed_await k s = s\<lparr>ed_tasks := ed_tasks s @ [(ed_next s, k)], ed_next := Suc (ed_next s)\<rparr>"

definition editor_init :: editor where
  "editor_init = \<lparr>ed_profile = None, ed_blocked = [], ed_connectionCount = None,
     ed_status = lit ''Loading your profile - '', ed_saving = False, ed_savedReady = False, ed_showBlocked = False,
     ed_accountStatus = [], ed_drawer = False, ed_stopped = False, ed_tasks = [(0, EdLoad)], ed_next = 1,
     ed_log = [EdGetAll]\<rparr>"

section \<open>Loading\<close>

definition ed_load_failed :: "editor \<Rightarrow> editor" where
  "ed_load_failed s = (if ed_stopped s then s else s\<lparr>ed_status := lit ''Could not load your profile. Please refresh.''\<rparr>)"

text \<open>The body of an optional part: what a refused request leaves out, or \<open>None\<close> where reading the
  body throws.\<close>

definition optional_body :: "'a \<Rightarrow> 'a reply \<Rightarrow> 'a option" where
  "optional_body d r = (case r of NetworkError \<Rightarrow> None
     | Response n b \<Rightarrow> if ok_status n then b else Some d)"

text \<open>\<open>Promise.all\<close> rejects when one of the three requests does.\<close>

definition ed_loaded :: "profile reply \<Rightarrow> profile list reply \<Rightarrow> nat option reply \<Rightarrow> editor \<Rightarrow> editor" where
  "ed_loaded p b c s =
     (if p = NetworkError \<or> b = NetworkError \<or> c = NetworkError then ed_load_failed s
      else (case p of NetworkError \<Rightarrow> s
        | Response n body \<Rightarrow>
            if n = 401 then ed_do (EdGo (lit ''/'')) s
            else if \<not> ok_status n then ed_load_failed s
            else (case body of None \<Rightarrow> ed_load_failed s
              | Some v \<Rightarrow>
                  if \<not> profile_ready v then ed_do (EdGo (lit ''/onboarding'')) s
                  else (case (optional_body [] b, optional_body None c) of
                      (Some blocks, Some count) \<Rightarrow> if ed_stopped s then s
                        else s\<lparr>ed_profile := Some v, ed_savedReady := True, ed_blocked := blocks, ed_connectionCount := count,
                          ed_status := (if reply_ok b \<and> reply_ok c then []
                            else lit ''Some account details could not load. Refresh to try again.'')\<rparr>
                    | _ \<Rightarrow> ed_load_failed s))))"

section \<open>Saving, unblocking, signing out\<close>

definition ed_saved :: "profile reply \<Rightarrow> editor \<Rightarrow> editor" where
  "ed_saved r s = (case reply_body r of
     Some next \<Rightarrow> s\<lparr>ed_profile := Some next, ed_savedReady := profile_ready next,
       ed_status := lit ''Saved. Discover will use these preferences.'', ed_saving := False\<rparr>
   | None \<Rightarrow> s\<lparr>ed_status := lit ''Could not save. Your changes are still here; please try again.'', ed_saving := False\<rparr>)"

definition ed_unblocked :: "jstr \<Rightarrow> profile reply \<Rightarrow> editor \<Rightarrow> editor" where
  "ed_unblocked i r s = (if reply_ok r
     then s\<lparr>ed_blocked := filter (\<lambda>p. pf_id p \<noteq> i) (ed_blocked s),
       ed_accountStatus := lit ''Unblocked. This does not restore a removed connection.''\<rparr>
     else s\<lparr>ed_accountStatus := lit ''Could not unblock. Please try again.''\<rparr>)"

definition ed_logged_out :: "profile reply \<Rightarrow> editor \<Rightarrow> editor" where
  "ed_logged_out r s = (if reply_ok r then ed_do (EdGo (lit ''/'')) (s\<lparr>ed_drawer := False\<rparr>)
     else s\<lparr>ed_accountStatus := lit ''Could not sign out. Please try again.''\<rparr>)"

definition ed_toggle :: "field \<Rightarrow> jstr \<Rightarrow> editor \<Rightarrow> editor" where
  "ed_toggle k v s = s\<lparr>ed_profile := map_option (\<lambda>p. case k of
       Languages \<Rightarrow> p\<lparr>pf_languages := profile_toggle (cap k) v (pf_languages p)\<rparr>
     | Interests \<Rightarrow> p\<lparr>pf_interests := profile_toggle (cap k) v (pf_interests p)\<rparr>) (ed_profile s)\<rparr>"

definition ed_save :: "editor \<Rightarrow> editor" where
  "ed_save s = (case ed_profile s of None \<Rightarrow> s
     | Some p \<Rightarrow> if ed_saving s then s
         else ed_await EdSave (ed_do (EdPatch p) (s\<lparr>ed_saving := True, ed_status := lit ''Saving your changes - ''\<rparr>)))"

text \<open>The button and the constraints of the form's inputs: the name is required, and the country
  code must match \<open>[A-Z]{2}|^$\<close>.\<close>

definition ed_enabled :: "editor \<Rightarrow> bool" where
  "ed_enabled s \<longleftrightarrow> (case ed_profile s of None \<Rightarrow> False
     | Some p \<Rightarrow> \<not> ed_saving s \<and> profile_ready p \<and> pf_displayName p \<noteq> [] \<and> country (pf_countryCode p))"

section \<open>Events\<close>

text \<open>\<open>EdCountry\<close> carries the text after \<open>toUpperCase()\<close>.\<close>

datatype ed_event = EdLoadDone nat "profile reply" "profile list reply" "nat option reply" | EdDone nat "profile reply"
  | EdName jstr | EdBio jstr | EdCountry jstr | EdIntent jstr | EdLanguage jstr | EdInterest jstr
  | EdSubmit | EdOpenDrawer | EdCloseDrawer | EdToggleBlocked | EdPressUnblock jstr | EdPressLogout | EdUnmount

fun ed_resume :: "ed_cont \<Rightarrow> profile reply \<Rightarrow> editor \<Rightarrow> editor" where
  "ed_resume EdLoad r s = s"
| "ed_resume EdSave r s = ed_saved r s"
| "ed_resume (EdUnblock i) r s = ed_unblocked i r s"
| "ed_resume EdLogout r s = ed_logged_out r s"

definition ed_edit :: "(profile \<Rightarrow> profile) \<Rightarrow> editor \<Rightarrow> editor" where
  "ed_edit f s = s\<lparr>ed_profile := map_option f (ed_profile s)\<rparr>"

fun ed_press :: "editor \<Rightarrow> ed_event \<Rightarrow> editor" where
  "ed_press s (EdName t) = ed_edit (pf_displayName_update (\<lambda>_. t)) s"
| "ed_press s (EdBio t) = ed_edit (pf_bio_update (\<lambda>_. t)) s"
| "ed_press s (EdCountry t) = ed_edit (pf_countryCode_update (\<lambda>_. t)) s"
| "ed_press s (EdIntent t) = ed_edit (pf_discoveryIntent_update (\<lambda>_. t)) s"
| "ed_press s (EdLanguage v) = ed_toggle Languages v s"
| "ed_press s (EdInterest v) = ed_toggle Interests v s"
| "ed_press s EdSubmit = (if ed_enabled s then ed_save s else s)"
| "ed_press s EdOpenDrawer = s\<lparr>ed_showBlocked := False, ed_drawer := True\<rparr>"
| "ed_press s EdCloseDrawer = s\<lparr>ed_drawer := False\<rparr>"
| "ed_press s EdToggleBlocked = (if ed_drawer s then s\<lparr>ed_showBlocked := \<not> ed_showBlocked s\<rparr> else s)"
| "ed_press s (EdPressUnblock i) = (if ed_drawer s \<and> ed_showBlocked s \<and> i \<in> pf_id ` set (ed_blocked s)
     then ed_await (EdUnblock i) (ed_do (EdDeleteBlock i) s) else s)"
| "ed_press s EdPressLogout = (if ed_drawer s then ed_await EdLogout (ed_do EdPostLogout s) else s)"
| "ed_press s _ = s"

definition editor_step :: "editor \<Rightarrow> ed_event \<Rightarrow> editor" where
  "editor_step s e = (case e of
     EdLoadDone i p b c \<Rightarrow> (case take_task i (ed_tasks s) of Some (EdLoad, q) \<Rightarrow> ed_loaded p b c (s\<lparr>ed_tasks := q\<rparr>) | _ \<Rightarrow> s)
   | EdDone i r \<Rightarrow> (case take_task i (ed_tasks s) of None \<Rightarrow> s
       | Some (k, q) \<Rightarrow> if k = EdLoad then s else ed_resume k r (s\<lparr>ed_tasks := q\<rparr>))
   | EdUnmount \<Rightarrow> s\<lparr>ed_stopped := True\<rparr>
   | _ \<Rightarrow> if ed_stopped s then s else ed_press s e)"

definition ed_ok :: "editor \<Rightarrow> ed_event \<Rightarrow> bool" where
  "ed_ok s e = (case e of
     EdLoadDone i (Response n (Some p)) b c \<Rightarrow> draft_ok p
   | EdDone i (Response n (Some p)) \<Rightarrow> draft_ok p
   | EdName t \<Rightarrow> length t \<le> 80
   | EdBio t \<Rightarrow> length t \<le> 500
   | EdIntent t \<Rightarrow> t \<in> set intents
   | EdLanguage v \<Rightarrow> language_pattern v
   | EdInterest v \<Rightarrow> v \<in> set interests
   | _ \<Rightarrow> True)"

section \<open>The draft\<close>

definition ed_patches :: "editor \<Rightarrow> profile list" where
  "ed_patches s = concat (map (\<lambda>f. case f of EdPatch p \<Rightarrow> [p] | _ \<Rightarrow> []) (ed_log s))"

abbreviation is_save :: "ed_cont \<Rightarrow> bool" where
  "is_save k \<equiv> k = EdSave"

definition ed_inv :: "editor \<Rightarrow> bool" where
  "ed_inv s \<longleftrightarrow> pred_option draft_ok (ed_profile s)
     \<and> tasks_of is_save (ed_tasks s) = (if ed_saving s then [EdSave] else [])"

lemma ed_patches_simps [simp]:
  "ed_patches (ed_do f s) = ed_patches s @ (case f of EdPatch p \<Rightarrow> [p] | _ \<Rightarrow> [])"
  "ed_patches (ed_await k s) = ed_patches s" "ed_patches (ed_edit g s) = ed_patches s"
  "ed_patches (s\<lparr>ed_profile := a\<rparr>) = ed_patches s" "ed_patches (s\<lparr>ed_status := c\<rparr>) = ed_patches s"
  "ed_patches (s\<lparr>ed_saving := d\<rparr>) = ed_patches s" "ed_patches (s\<lparr>ed_savedReady := d\<rparr>) = ed_patches s"
  "ed_patches (s\<lparr>ed_blocked := bl\<rparr>) = ed_patches s" "ed_patches (s\<lparr>ed_connectionCount := n\<rparr>) = ed_patches s"
  "ed_patches (s\<lparr>ed_accountStatus := c\<rparr>) = ed_patches s" "ed_patches (s\<lparr>ed_drawer := d\<rparr>) = ed_patches s"
  "ed_patches (s\<lparr>ed_showBlocked := d\<rparr>) = ed_patches s"
  "ed_patches (s\<lparr>ed_tasks := q\<rparr>) = ed_patches s" "ed_patches (s\<lparr>ed_stopped := x\<rparr>) = ed_patches s"
  by (simp_all add: ed_patches_def ed_do_def ed_await_def ed_edit_def)

lemma ed_inv_frame [simp]:
  "ed_inv (ed_do f s) = ed_inv s" "\<not> is_save k \<Longrightarrow> ed_inv (ed_await k s) = ed_inv s"
  "ed_inv (s\<lparr>ed_status := c\<rparr>) = ed_inv s" "ed_inv (s\<lparr>ed_accountStatus := c\<rparr>) = ed_inv s"
  "ed_inv (s\<lparr>ed_blocked := bl\<rparr>) = ed_inv s" "ed_inv (s\<lparr>ed_drawer := d\<rparr>) = ed_inv s"
  "ed_inv (s\<lparr>ed_showBlocked := d\<rparr>) = ed_inv s" "ed_inv (s\<lparr>ed_stopped := x\<rparr>) = ed_inv s"
  "ed_inv (ed_load_failed s) = ed_inv s"
  by (simp_all add: ed_inv_def ed_do_def ed_await_def ed_load_failed_def)

lemma ed_edit_inv:
  assumes "ed_inv s" and "\<And>p. draft_ok p \<Longrightarrow> draft_ok (f p)"
  shows "ed_inv (ed_edit f s)"
  using assms by (cases "ed_profile s") (simp_all add: ed_inv_def ed_edit_def)

lemma draft_edits:
  assumes "draft_ok p"
  shows "length t \<le> 80 \<Longrightarrow> draft_ok (p\<lparr>pf_displayName := t\<rparr>)" "length t \<le> 500 \<Longrightarrow> draft_ok (p\<lparr>pf_bio := t\<rparr>)"
    "draft_ok (p\<lparr>pf_countryCode := t\<rparr>)" "t \<in> set intents \<Longrightarrow> draft_ok (p\<lparr>pf_discoveryIntent := t\<rparr>)"
    "language_pattern v \<Longrightarrow> draft_ok (p\<lparr>pf_languages := profile_toggle 5 v (pf_languages p)\<rparr>)"
    "v \<in> set interests \<Longrightarrow> draft_ok (p\<lparr>pf_interests := profile_toggle 12 v (pf_interests p)\<rparr>)"
  using assms profile_choice.toggle_fits [of 5 "pf_languages p" v] profile_choice.toggle_fits [of 12 "pf_interests p" v]
  by (auto simp: draft_ok_def list_all_iff edited_name edited_bio) (auto simp: profile_toggle_def split: if_splits)

lemma ed_toggle_edit: "ed_toggle k v s = ed_edit (\<lambda>p. case k of
       Languages \<Rightarrow> p\<lparr>pf_languages := profile_toggle 5 v (pf_languages p)\<rparr>
     | Interests \<Rightarrow> p\<lparr>pf_interests := profile_toggle 12 v (pf_interests p)\<rparr>) s"
  by (cases k) (simp_all add: ed_toggle_def ed_edit_def cap_def)

lemma ed_loaded_inv:
  assumes "ed_inv s" and "ed_ok s (EdLoadDone i p b c)"
  shows "ed_inv (ed_loaded p b c s)"
proof -
  have "ed_inv (s\<lparr>ed_profile := Some v, ed_savedReady := True, ed_blocked := bl, ed_connectionCount := n, ed_status := t\<rparr>)"
    if "draft_ok v" for v bl n t using assms(1) that by (simp add: ed_inv_def)
  then show ?thesis using assms
    by (auto simp: ed_loaded_def ed_ok_def split: reply.split option.split)
qed

lemma ed_save_inv: "ed_inv s \<Longrightarrow> ed_inv (ed_save s)"
  by (auto simp: ed_save_def ed_inv_def ed_await_def ed_do_def split: option.split)

lemma ed_saved_inv:
  assumes "ed_inv s" and "ed_saving s" and "tasks_of is_save q = []" and "reply_body r = None \<or> draft_ok (the (reply_body r))"
  shows "ed_inv (ed_saved r (s\<lparr>ed_tasks := q\<rparr>))"
  using assms by (auto simp: ed_saved_def ed_inv_def split: option.splits)
lemma ed_taken_inv:
  assumes "ed_inv s" and taken: "take_task i (ed_tasks s) = Some (k, q)"
  shows "is_save k \<Longrightarrow> ed_saving s \<and> tasks_of is_save q = []" "\<not> is_save k \<Longrightarrow> ed_inv (s\<lparr>ed_tasks := q\<rparr>)"
proof -
  have one: "length (tasks_of is_save (ed_tasks s)) \<le> 1" using assms(1) by (simp add: ed_inv_def)
  show "is_save k \<Longrightarrow> ed_saving s \<and> tasks_of is_save q = []"
    using take_task_single(1) [OF taken one] assms(1) by (auto simp: ed_inv_def split: if_splits)
  show "\<not> is_save k \<Longrightarrow> ed_inv (s\<lparr>ed_tasks := q\<rparr>)"
    using take_task_single(2) [OF taken one] assms(1) by (simp add: ed_inv_def)
qed

lemma ed_resume_inv:
  assumes "ed_inv s" and "ed_ok s (EdDone i r)" and taken: "take_task i (ed_tasks s) = Some (k, q)"
  shows "ed_inv (ed_resume k r (s\<lparr>ed_tasks := q\<rparr>))"
proof (cases k)
  case EdSave
  then have "ed_saving s" "tasks_of is_save q = []" using ed_taken_inv(1) [OF assms(1) taken] by simp_all
  moreover have "reply_body r = None \<or> draft_ok (the (reply_body r))"
    using assms(2) by (auto simp: ed_ok_def split: reply.splits option.splits)
  ultimately show ?thesis using EdSave assms(1) by (simp add: ed_saved_inv)
qed (use ed_taken_inv(2) [OF assms(1) taken] in \<open>simp_all add: ed_unblocked_def ed_logged_out_def\<close>)

lemma ed_press_inv:
  assumes "ed_inv s" and "ed_ok s e"
  shows "ed_inv (ed_press s e)"
  using assms
  by (cases e) (auto simp: ed_ok_def ed_toggle_edit ed_save_inv intro!: ed_edit_inv draft_edits)

lemma ed_step_inv:
  assumes "ed_inv s" and "ed_ok s e"
  shows "ed_inv (editor_step s e)"
proof (cases e)
  case (EdLoadDone i p b c)
  show ?thesis
    using assms EdLoadDone ed_taken_inv(2) [OF assms(1), of i EdLoad] ed_loaded_inv [of _ i p b c]
    by (auto simp: editor_step_def ed_ok_def split: option.split prod.split ed_cont.split)
next
  case (EdDone i r)
  show ?thesis using assms EdDone ed_resume_inv [OF assms(1), of i r]
    by (auto simp: editor_step_def split: option.split)
next
  case EdUnmount
  then show ?thesis using assms(1) by (simp add: editor_step_def)
qed (use assms ed_press_inv [OF assms] in \<open>simp_all add: editor_step_def\<close>)

lemma ed_sends:
  "ed_patches (editor_step s e) = ed_patches s
    \<or> (\<exists>p. ed_profile s = Some p \<and> profile_ready p \<and> country (pf_countryCode p)
        \<and> ed_patches (editor_step s e) = ed_patches s @ [p])"
proof (cases e)
  case (EdLoadDone i p b c)
  then show ?thesis
    by (auto simp: editor_step_def ed_loaded_def ed_load_failed_def
        split: option.split prod.split ed_cont.split reply.split)
next
  case (EdDone i r)
  have "ed_patches (ed_resume k r t) = ed_patches t" for k t
    by (cases k) (auto simp: ed_saved_def ed_unblocked_def ed_logged_out_def split: option.split)
  then show ?thesis using EdDone by (auto simp: editor_step_def split: option.split)
next
  case EdSubmit
  then show ?thesis
    by (auto simp: editor_step_def ed_save_def ed_enabled_def split: option.splits)
qed (auto simp: editor_step_def ed_toggle_def)

interpretation editor: profile_form editor_step ed_ok ed_inv ed_profile ed_patches
proof
  show "ed_inv s \<Longrightarrow> ed_ok s e \<Longrightarrow> ed_inv (editor_step s e)" for s e by (rule ed_step_inv)
  show "ed_inv s \<Longrightarrow> ed_profile s = Some p \<Longrightarrow> draft_ok p" for s p by (simp add: ed_inv_def)
  show "ed_inv s \<Longrightarrow> ed_ok s e \<Longrightarrow> ed_patches (editor_step s e) = ed_patches s
    \<or> (\<exists>p. ed_profile s = Some p \<and> profile_ready p \<and> country (pf_countryCode p)
        \<and> ed_patches (editor_step s e) = ed_patches s @ [p])" for s e by (rule ed_sends)
qed

section \<open>Guarantees\<close>

abbreviation ed_reachable :: "editor \<Rightarrow> bool" where
  "ed_reachable s \<equiv> reachable editor_step ed_ok editor_init s"

lemma ed_init_inv: "ed_inv editor_init"
  by (simp add: ed_inv_def editor_init_def)


definition ada :: profile where
  "ada = \<lparr>pf_id = lit ''u'', pf_displayName = lit ''Ada'', pf_avatarUrl = [], pf_bio = [],
     pf_countryCode = [], pf_interests = [], pf_languages = [lit ''en''], pf_discoveryIntent = lit ''dating''\<rparr>"

lemma ada_ok: "draft_ok ada" "profile_ready ada"
  by (simp_all add: draft_ok_def profile_ready_def ada_def profile_choice.fits_def edited_name edited_bio intents_def
      blank_iff_all_space lit_def js_space_def of_char_def language_pattern_def lower_letter_def region_suffix_def)

definition edited :: "ed_event list" where
  "edited = [EdLoadDone 0 (Response 200 (Some ada)) (Response 200 (Some [])) (Response 503 None),
     EdLanguage (lit ''hi''), EdSubmit]"

lemma edited_run: "run editor_step editor_init edited = editor_init\<lparr>
    ed_profile := Some (ada\<lparr>pf_languages := [lit ''en'', lit ''hi'']\<rparr>), ed_savedReady := True,
    ed_status := lit ''Saving your changes - '', ed_saving := True,
    ed_tasks := [(1, EdSave)], ed_next := 2, ed_log := [EdGetAll, EdPatch (ada\<lparr>pf_languages := [lit ''en'', lit ''hi'']\<rparr>)]\<rparr>"
proof -
  have "profile_ready (ada\<lparr>pf_languages := [lit ''en'', lit ''hi'']\<rparr>)" "pf_displayName ada \<noteq> []"
    "country (pf_countryCode ada)" "pf_languages ada = [lit ''en'']"
    using ada_ok(2) by (simp_all add: profile_ready_def ada_def country_def)
  then show ?thesis
    by (simp add: edited_def editor_init_def editor_step_def take_task_def ed_loaded_def optional_body_def ok_status_def
        ada_ok ed_toggle_def cap_def profile_toggle_def ed_save_def ed_enabled_def ed_do_def ed_await_def)
qed

lemma edited_reachable: "ed_reachable (run editor_step editor_init edited)"
proof -
  have "language_pattern (lit ''hi'')" using code_languages by (simp add: languages_def)
  then have "admissible editor_step ed_ok editor_init edited" by (simp add: edited_def ed_ok_def ada_ok)
  then show ?thesis by (rule admissible_reachable)
qed

lemma edited_patches: "ed_patches (run editor_step editor_init edited) = [ada\<lparr>pf_languages := [lit ''en'', lit ''hi'']\<rparr>]"
  unfolding edited_run by (simp add: ed_patches_def)


text \<open>The inputs stay enabled while a save is in flight, and its answer replaces the draft: what was
  typed meanwhile is lost.\<close>

lemma typed_while_saving_is_lost:
  "ed_profile (run editor_step editor_init (edited @ [EdBio (lit ''Hello''), EdDone 1 (Response 200 (Some ada))])) = Some ada"
  unfolding run_append edited_run
  by (simp add: editor_step_def editor_init_def ed_edit_def take_task_def ed_saved_def ok_status_def)

end
