(* ===== verification/App_Routes.thy ===== *)
theory App_Routes
  imports App_Shell Navigation Page_Screens Profile_Editor
begin

text \<open>
  The pages under \<open>app/\<close>: which component each address renders, the address of the server they are given,
  and the gate of the networking lab; and that the components never lead the user to an address
  without a page.
\<close>

section \<open>Addresses\<close>

text \<open>The environment variables the pages read.\<close>

record server_env =
  sv_apiUrl :: "jstr option"
  sv_labEnabled :: "jstr option"
  sv_appEnv :: "jstr option"

definition local_api :: jstr where
  "local_api = lit ''http://localhost:8080''"

text \<open>\<open>process.env.API_PUBLIC_URL ?? "http://localhost:8080"\<close>; the lab page writes \<open>||\<close>.\<close>

definition api_url :: "server_env \<Rightarrow> jstr" where
  "api_url env = (case sv_apiUrl env of None \<Rightarrow> local_api | Some u \<Rightarrow> u)"

definition lab_api_url :: "server_env \<Rightarrow> jstr" where
  "lab_api_url env = (case sv_apiUrl env of None \<Rightarrow> local_api | Some u \<Rightarrow> if u = [] then local_api else u)"

datatype screen = HomeScreen jstr | OnboardingScreen jstr | DiscoverScreen jstr | ProfileScreen jstr | ConnectionsScreen jstr
  | MessagesScreen | MomentsScreen | SettingsScreen | ActivityScreen | LabScreen jstr | HealthCheck

datatype route = Shows screen | RedirectTo jstr | NotFound

definition lab_route :: "server_env \<Rightarrow> route" where
  "lab_route env = (if sv_labEnabled env \<noteq> Some (lit ''true'') \<or> sv_appEnv env = Some (lit ''production'') then NotFound
     else Shows (LabScreen (lab_api_url env)))"

text \<open>The \<open>page.tsx\<close> of each directory under \<open>app/\<close>, and the health check.\<close>

definition home_route :: "server_env \<Rightarrow> route" where
  "home_route env = Shows (HomeScreen (api_url env))"

definition onboarding_route :: "server_env \<Rightarrow> route" where
  "onboarding_route env = Shows (OnboardingScreen (api_url env))"

definition discover_route :: "server_env \<Rightarrow> route" where
  "discover_route env = Shows (DiscoverScreen (api_url env))"

definition profile_route :: "server_env \<Rightarrow> route" where
  "profile_route env = Shows (ProfileScreen (api_url env))"

definition connections_route :: "server_env \<Rightarrow> route" where
  "connections_route env = Shows (ConnectionsScreen (api_url env))"

definition messages_route :: "server_env \<Rightarrow> route" where
  "messages_route env = Shows MessagesScreen"

definition moments_route :: "server_env \<Rightarrow> route" where
  "moments_route env = Shows MomentsScreen"

definition posts_route :: "server_env \<Rightarrow> route" where
  "posts_route env = RedirectTo (lit ''/app/moments'')"

definition settings_route :: "server_env \<Rightarrow> route" where
  "settings_route env = Shows SettingsScreen"

definition activity_route :: "server_env \<Rightarrow> route" where
  "activity_route env = Shows ActivityScreen"

definition health_route :: route where
  "health_route = Shows HealthCheck"

lemmas page_routes = home_route_def onboarding_route_def discover_route_def profile_route_def connections_route_def messages_route_def moments_route_def posts_route_def settings_route_def activity_route_def health_route_def

definition routes :: "server_env \<Rightarrow> (jstr \<times> route) list" where
  "routes env = [(lit ''/'', home_route env), (lit ''/onboarding'', onboarding_route env),
     (lit ''/app/discover'', discover_route env), (lit ''/app/profile'', profile_route env),
     (lit ''/app/connections'', connections_route env), (lit ''/app/messages'', messages_route env),
     (lit ''/app/moments'', moments_route env), (lit ''/app/posts'', posts_route env),
     (lit ''/app/settings'', settings_route env), (lit ''/app/activity'', activity_route env),
     (lit ''/lab'', lab_route env), (lit ''/healthz'', health_route)]"

definition route_of :: "server_env \<Rightarrow> jstr \<Rightarrow> route" where
  "route_of env path = (case map_of (routes env) path of None \<Rightarrow> NotFound | Some r \<Rightarrow> r)"

text \<open>The path of an address: up to the query or the fragment.\<close>

definition path_part :: "jstr \<Rightarrow> jstr" where
  "path_part = takeWhile (\<lambda>u. u \<noteq> 0x3F \<and> u \<noteq> 0x23)"

definition leads :: "server_env \<Rightarrow> jstr \<Rightarrow> bool" where
  "leads env address \<longleftrightarrow> (\<exists>sc. route_of env (path_part address) = Shows sc)"

text \<open>A redirect leads to a page.\<close>

lemma redirect_leads: "route_of env p = RedirectTo q \<Longrightarrow> leads env q"
proof -
  assume "route_of env p = RedirectTo q"
  then have "(p, RedirectTo q) \<in> set (routes env)" by (auto simp: route_of_def split: option.splits dest: map_of_SomeD)
  then have "q = lit ''/app/moments''" by (auto simp: routes_def page_routes lab_route_def split: if_splits)
  then show ?thesis by (simp add: leads_def route_of_def routes_def page_routes path_part_def lit_def)
qed

text \<open>Components that work with the signed-in runtime: those that read its context or render the frame.\<close>

definition needs_runtime :: "screen \<Rightarrow> bool" where
  "needs_runtime sc = (case sc of HomeScreen _ \<Rightarrow> False | OnboardingScreen _ \<Rightarrow> False | LabScreen _ \<Rightarrow> False | HealthCheck \<Rightarrow> False
     | _ \<Rightarrow> True)"

lemma route_area: "route_of env path = Shows sc \<Longrightarrow> needs_runtime sc \<Longrightarrow> authenticated_area path"
proof -
  assume "route_of env path = Shows sc" and sc: "needs_runtime sc"
  then have "(path, Shows sc) \<in> set (routes env)" by (auto simp: route_of_def split: option.splits dest: map_of_SomeD)
  then show ?thesis using sc by (auto simp: routes_def page_routes needs_runtime_def authenticated_area_def lab_route_def lit_def split: if_splits)
qed

section \<open>Where the components lead\<close>

lemma pages_lead:
  "leads env (lit ''/'')" "leads env (lit ''/onboarding'')" "leads env (lit ''/app/discover'')" "leads env (lit ''/app/messages'')"
  "leads env (lit ''/app/moments'')" "leads env (lit ''/app/profile'')" "leads env (lit ''/app/connections'')"
  by (simp_all add: leads_def route_of_def routes_def page_routes path_part_def lit_def)

lemma conversation_leads: "leads env (lit ''/app/messages?connection='' @ c)"
  by (simp add: leads_def route_of_def routes_def page_routes path_part_def lit_def)

text \<open>Every navigation an operation logs leads to a page.\<close>

definition si_leads :: "server_env \<Rightarrow> sign_in \<Rightarrow> bool" where
  "si_leads env s \<longleftrightarrow> (\<forall>p. SiGo p \<in> set (si_log s) \<longrightarrow> leads env p)"

definition ob_leads :: "server_env \<Rightarrow> onboarding \<Rightarrow> bool" where
  "ob_leads env s \<longleftrightarrow> (\<forall>p. ObGo p \<in> set (ob_log s) \<longrightarrow> leads env p)"

definition mo_leads :: "server_env \<Rightarrow> moments \<Rightarrow> bool" where
  "mo_leads env s \<longleftrightarrow> (\<forall>p. MoGo p \<in> set (mp_log s) \<longrightarrow> leads env p)"

definition ed_leads :: "server_env \<Rightarrow> editor \<Rightarrow> bool" where
  "ed_leads env s \<longleftrightarrow> (\<forall>p. EdGo p \<in> set (ed_log s) \<longrightarrow> leads env p)"

lemma leads_tasks [simp]:
  "si_leads env (s\<lparr>si_tasks := q\<rparr>) = si_leads env s" "ed_leads env (d\<lparr>ed_tasks := r\<rparr>) = ed_leads env d"
  by (simp_all add: si_leads_def ed_leads_def)

interpretation si_nav: machine sign_in_step "\<lambda>_ _. True" "si_leads env" for env
proof unfold_locales
  have "si_leads env s \<Longrightarrow> si_leads env (si_resume k r s)" for k r s
    by (cases "(k, r, s)" rule: si_resume.cases)
      (auto simp: si_leads_def got_me_def got_own_profile_def got_config_def exchanged_def welcomed_def signed_out_def enter_app_def
        si_load_failed_def si_unreachable_def google_effect_def google_start_def si_do_def si_await_def si_say_def pages_lead
        split: reply.split option.split)
  then have settle: "si_leads env s \<Longrightarrow> si_leads env (sign_in_step s (SiSettle i r))" for s i r
    by (auto simp: sign_in_step_def split: option.split)
  show "si_leads env s \<Longrightarrow> si_leads env (sign_in_step s e)" for s e
    by (cases e) (auto simp: settle, auto simp: sign_in_step_def si_leads_def google_start_def exchange_def si_do_def si_await_def
      si_say_def split: option.split)
qed

interpretation ob_nav: machine onboarding_step "\<lambda>_ _. True" "ob_leads env" for env
  by unfold_locales
    (auto simp: onboarding_step_def ob_leads_def ob_loaded_def ob_load_failed_def ob_saved_def ob_toggle_def ob_submit_def
      ob_do_def ob_await_def pages_lead split: ob_event.split ob_cont.split option.split reply.split)

interpretation mo_nav: machine moments_step "\<lambda>_ _. True" "mo_leads env" for env
proof unfold_locales
  have press: "mo_leads env s \<Longrightarrow> mo_leads env (mo_press s e)" for s e
    by (cases e) (auto simp: mo_leads_def mo_load_def publish_def mo_do_def mo_await_def)
  show "mo_leads env s \<Longrightarrow> mo_leads env (moments_step s e)" for s e
    using press [of s e]
    by (cases e) (auto simp: moments_step_def mo_leads_def taken_def removal_def mo_loaded_def mo_load_failed_def mo_posted_def publish_failed_def
      mo_refetched_def mo_removed_def mo_do_def mo_await_def Let_def pages_lead split: option.split reply.split mo_reply.split mo_cont.split)
qed

interpretation ed_nav: machine editor_step "\<lambda>_ _. True" "ed_leads env" for env
proof unfold_locales
  have resume: "ed_leads env s \<Longrightarrow> ed_leads env (ed_resume k r s)" for k r s
    by (cases k) (auto simp: ed_leads_def ed_saved_def ed_unblocked_def ed_logged_out_def ed_do_def pages_lead split: option.split)
  have press: "ed_leads env s \<Longrightarrow> ed_leads env (ed_press s e)" for s e
    by (cases e) (auto simp: ed_leads_def ed_edit_def ed_toggle_def ed_save_def ed_do_def ed_await_def split: option.split)
  have loaded: "ed_leads env s \<Longrightarrow> ed_leads env (ed_loaded p b c s)" for p b c s
    by (auto simp: ed_leads_def ed_loaded_def ed_load_failed_def ed_do_def pages_lead split: option.split reply.split)
  fix s e assume s: "ed_leads env s"
  show "ed_leads env (editor_step s e)"
  proof (cases e)
    case (EdLoadDone i p b c)
    then show ?thesis using s loaded by (simp add: editor_step_def split: option.split ed_cont.split)
  next
    case (EdDone i r)
    then show ?thesis using s resume by (simp add: editor_step_def split: option.split)
  next
    case EdUnmount
    then show ?thesis using s by (simp add: editor_step_def ed_leads_def)
  qed (use s press [OF s, of e] in \<open>simp_all add: editor_step_def\<close>)
qed

section \<open>Guarantees\<close>

text \<open>C11: Wherever the pages send the user (by themselves, through a tab or through a link of the notices), there
  is a page, in every environment the server may be started in; and a page whose components work with the
  signed-in runtime always finds it.\<close>

theorem every_way_leads_to_a_page:
  assumes "reachable sign_in_step (\<lambda>_ _. True) (sign_in_init google) si" and "reachable onboarding_step (\<lambda>_ _. True) onboarding_init ob"
    and "reachable moments_step (\<lambda>_ _. True) (moments_init user) mo" and "reachable editor_step (\<lambda>_ _. True) editor_init ed"
    and "reachable provider_step provider_ok (provider_init path dark) pv" and "route_of env (pv_path pv) = Shows sc"
  shows "(SiGo p \<in> set (si_log si) \<longrightarrow> leads env p) \<and> (ObGo p \<in> set (ob_log ob) \<longrightarrow> leads env p)
    \<and> (MoGo p \<in> set (mp_log mo) \<longrightarrow> leads env p) \<and> (EdGo p \<in> set (ed_log ed) \<longrightarrow> leads env p)
    \<and> list_all (\<lambda>l. leads env (nl_href l)) (mobile_nav mounted ns tab) \<and> leads env (nk_href (show_notice n))
    \<and> (needs_runtime sc \<longrightarrow> rt_auth (ss_runtime (pv_now pv)))"
proof -
  have "si_leads env si" by (rule si_nav.inv_reachable [OF assms(1)]) (simp add: si_leads_def sign_in_init_def)
  moreover have "ob_leads env ob" by (rule ob_nav.inv_reachable [OF assms(2)]) (simp add: ob_leads_def onboarding_init_def)
  moreover have "mo_leads env mo" by (rule mo_nav.inv_reachable [OF assms(3)]) (simp add: mo_leads_def moments_init_def)
  moreover have "ed_leads env ed" by (rule ed_nav.inv_reachable [OF assms(4)]) (simp add: ed_leads_def editor_init_def)
  moreover have "list_all (\<lambda>l. leads env (nl_href l)) (mobile_nav mounted ns tab)" by (simp add: mobile_nav_def tabs_def pages_lead)
  moreover have "leads env (nk_href (show_notice n))" by (simp add: show_notice_def conversation_leads)
  moreover have "rt_auth (ss_runtime (pv_now pv))" if "needs_runtime sc"
    using route_area [OF assms(6) that] area_is_signed_in [OF assms(5)] by simp
  ultimately show ?thesis unfolding si_leads_def ob_leads_def mo_leads_def ed_leads_def by blast
qed

definition plain_env :: server_env where
  "plain_env = \<lparr>sv_apiUrl = None, sv_labEnabled = None, sv_appEnv = Some (lit ''production'')\<rparr>"

theorem every_way_leads_to_a_page_witness:
  "leads plain_env (lit ''/'') \<and> rt_auth (ss_runtime (pv_now (provider_init (lit ''/app/messages'') False)))"
proof -
  let ?ob = "run onboarding_step onboarding_init [ObResume 0 (Response 401 None)]"
  have ob: "ObGo (lit ''/'') \<in> set (ob_log ?ob)" by code_simp
  have sc: "route_of plain_env (pv_path (provider_init (lit ''/app/messages'') False)) = Shows MessagesScreen" by code_simp
  have r: "reachable onboarding_step (\<lambda>_ _. True) onboarding_init ?ob" by (rule admissible_reachable) (rule admissible_True)
  from every_way_leads_to_a_page [OF reachable.start r reachable.start reachable.start reachable.start sc, of "lit ''/''"]
  show ?thesis using ob by (simp add: needs_runtime_def)
qed

text \<open>With an empty \<open>API_PUBLIC_URL\<close> the lab page falls back to the local server, every other page does not.\<close>

lemma empty_api_url:
  "sv_apiUrl env = Some [] \<Longrightarrow> lab_api_url env = local_api \<and> api_url env = []"
  by (simp add: lab_api_url_def api_url_def)

end
