(* ===== verification/People_Pages.thy ===== *)
theory People_Pages
  imports Web_Prelude
begin

text \<open>
  The pages that list people: the connections page (\<open>components/social/connections.tsx\<close>), where a
  connection can be removed, reported or blocked, and the inbox (\<open>components/social/inbox.tsx\<close>).
\<close>

section \<open>Connections\<close>

record person =
  pn_id :: jstr
  pn_displayName :: jstr
  pn_avatarUrl :: jstr
  pn_bio :: jstr
  pn_countryCode :: jstr
  pn_interests :: "jstr list"
  pn_languages :: "jstr list"

record contact =
  ct_id :: jstr
  ct_createdAt :: jstr
  ct_person :: person

text \<open>A block and a report name the person and the connection.\<close>

datatype co_fx = CoGet | CoDelete jstr | CoBlock jstr jstr | CoReport jstr jstr jstr jstr | CoGo jstr

datatype co_cont = CoLoading | CoRemoving jstr | CoBlocking jstr | CoReporting

record connections_page =
  co_items :: "contact list"
  co_status :: jstr
  co_reporting :: "contact option"
  co_category :: jstr
  co_details :: jstr
  co_stopped :: bool
  co_tasks :: "co_cont pool"
  co_next :: nat
  co_known :: "contact list"   \<comment> \<open>history: the list the server sent\<close>
  co_log :: "co_fx list"

definition co_do :: "co_fx \<Rightarrow> connections_page \<Rightarrow> connections_page" where
  "co_do f s = s\<lparr>co_log := co_log s @ [f]\<rparr>"

definition co_await :: "co_cont \<Rightarrow> connections_page \<Rightarrow> connections_page" where
  "co_await k s = s\<lparr>co_tasks := co_tasks s @ [(co_next s, k)], co_next := Suc (co_next s)\<rparr>"

definition connections_init :: connections_page where
  "connections_init = \<lparr>co_items = [], co_status = lit ''Loading connections'' @ ellipsis, co_reporting = None,
     co_category = lit ''spam'', co_details = [], co_stopped = False, co_tasks = [(0, CoLoading)], co_next = 1,
     co_known = [], co_log = [CoGet]\<rparr>"

definition co_load_failed :: "connections_page \<Rightarrow> connections_page" where
  "co_load_failed s = (if co_stopped s then s else s\<lparr>co_status := lit ''Could not load connections.''\<rparr>)"

text \<open>Any refusal, not only 401, leaves for the start page.\<close>

definition co_loaded :: "contact list reply \<Rightarrow> connections_page \<Rightarrow> connections_page" where
  "co_loaded r s = (case r of
     NetworkError \<Rightarrow> co_load_failed s
   | Response n b \<Rightarrow>
       if \<not> ok_status n then co_do (CoGo (lit ''/'')) s
       else (case b of None \<Rightarrow> co_load_failed s
         | Some cs \<Rightarrow> if co_stopped s then s else s\<lparr>co_items := cs, co_status := [], co_known := cs\<rparr>))"

definition remove :: "jstr \<Rightarrow> connections_page \<Rightarrow> connections_page" where
  "remove i s = co_await (CoRemoving i) (co_do (CoDelete i) s)"

definition block :: "contact \<Rightarrow> connections_page \<Rightarrow> connections_page" where
  "block c s = co_await (CoBlocking (ct_id c)) (co_do (CoBlock (pn_id (ct_person c)) (ct_id c)) s)"

definition report :: "connections_page \<Rightarrow> connections_page" where
  "report s = (case co_reporting s of None \<Rightarrow> s
     | Some c \<Rightarrow> co_await CoReporting (co_do (CoReport (pn_id (ct_person c)) (ct_id c) (co_category s) (co_details s)) s))"

text \<open>The answers. None of the three has a \<open>catch\<close>: without an answer nothing happens.\<close>

definition drop_item :: "jstr \<Rightarrow> unit reply \<Rightarrow> connections_page \<Rightarrow> connections_page" where
  "drop_item i r s = (if reply_ok r then s\<lparr>co_items := filter (\<lambda>c. ct_id c \<noteq> i) (co_items s)\<rparr> else s)"

definition reported :: "unit reply \<Rightarrow> connections_page \<Rightarrow> connections_page" where
  "reported r s = (case r of NetworkError \<Rightarrow> s
     | Response n _ \<Rightarrow> if ok_status n then s\<lparr>co_reporting := None, co_details := [],
           co_status := lit ''Report received. Thank you for helping keep OneMinute safe.''\<rparr>
         else s\<lparr>co_status := lit ''Could not submit the report.''\<rparr>)"

fun co_resume :: "co_cont \<Rightarrow> unit reply \<Rightarrow> connections_page \<Rightarrow> connections_page" where
  "co_resume (CoRemoving i) r s = drop_item i r s"
| "co_resume (CoBlocking i) r s = drop_item i r s"
| "co_resume CoReporting r s = reported r s"
| "co_resume CoLoading r s = s"

datatype co_event = CoLoadDone nat "contact list reply" | CoDone nat "unit reply"
  | PressRemove jstr | PressReport jstr | PressBlock jstr | CloseReport | EditCategory jstr | EditDetails jstr | SubmitReport
  | CoUnmount

text \<open>The buttons of a listed contact; the dialog while somebody is being reported.\<close>

definition listed :: "jstr \<Rightarrow> connections_page \<Rightarrow> contact option" where
  "listed i s = find (\<lambda>c. ct_id c = i) (co_items s)"

definition on_listed :: "jstr \<Rightarrow> (contact \<Rightarrow> connections_page \<Rightarrow> connections_page) \<Rightarrow> connections_page \<Rightarrow> connections_page" where
  "on_listed i f s = (case listed i s of None \<Rightarrow> s | Some c \<Rightarrow> f c s)"

fun co_press :: "connections_page \<Rightarrow> co_event \<Rightarrow> connections_page" where
  "co_press s (PressRemove i) = on_listed i (\<lambda>c. remove (ct_id c)) s"
| "co_press s (PressReport i) = on_listed i (\<lambda>c s. s\<lparr>co_reporting := Some c\<rparr>) s"
| "co_press s (PressBlock i) = on_listed i block s"
| "co_press s CloseReport = s\<lparr>co_reporting := None\<rparr>"
| "co_press s (EditCategory t) = (if co_reporting s = None then s else s\<lparr>co_category := t\<rparr>)"
| "co_press s (EditDetails t) = (if co_reporting s = None then s else s\<lparr>co_details := t\<rparr>)"
| "co_press s SubmitReport = report s"
| "co_press s _ = s"

definition connections_step :: "connections_page \<Rightarrow> co_event \<Rightarrow> connections_page" where
  "connections_step s e = (case e of
     CoLoadDone i r \<Rightarrow> (case take_task i (co_tasks s) of Some (CoLoading, q) \<Rightarrow> co_loaded r (s\<lparr>co_tasks := q\<rparr>) | _ \<Rightarrow> s)
   | CoDone i r \<Rightarrow> (case take_task i (co_tasks s) of None \<Rightarrow> s
       | Some (k, q) \<Rightarrow> if k = CoLoading then s else co_resume k r (s\<lparr>co_tasks := q\<rparr>))
   | CoUnmount \<Rightarrow> s\<lparr>co_stopped := True\<rparr>
   | _ \<Rightarrow> if co_stopped s then s else co_press s e)"

subsection \<open>Whom the requests name\<close>

definition names :: "co_fx \<Rightarrow> (jstr \<times> jstr) option" where
  "names f = (case f of CoBlock p c \<Rightarrow> Some (p, c) | CoReport p c _ _ \<Rightarrow> Some (p, c) | _ \<Rightarrow> None)"

definition pair_of :: "contact \<Rightarrow> jstr \<times> jstr" where
  "pair_of c = (pn_id (ct_person c), ct_id c)"

definition co_inv :: "connections_page \<Rightarrow> bool" where
  "co_inv s \<longleftrightarrow> set (co_items s) \<subseteq> set (co_known s)
     \<and> (\<forall>c. co_reporting s = Some c \<longrightarrow> c \<in> set (co_known s))
     \<and> (\<forall>f \<in> set (co_log s). \<forall>pc. names f = Some pc \<longrightarrow> pc \<in> pair_of ` set (co_known s))
     \<and> length (tasks_of (\<lambda>k. k = CoLoading) (co_tasks s)) \<le> 1
     \<and> (CoLoading \<in> conts (co_tasks s) \<longrightarrow> co_items s = [] \<and> co_reporting s = None \<and> list_all (\<lambda>f. names f = None) (co_log s))"

lemma names_simps [simp]:
  "names (CoBlock p c) = Some (p, c)" "names (CoReport p c t d) = Some (p, c)"
  "names CoGet = None" "names (CoDelete i) = None" "names (CoGo g) = None"
  by (simp_all add: names_def)

lemma listed_member: "listed i s = Some c \<Longrightarrow> c \<in> set (co_items s) \<and> ct_id c = i"
  by (simp add: listed_def find_Some_iff) force

lemma co_press_inv:
  assumes "co_inv s"
  shows "co_inv (co_press s e)"
proof -
  have mem: "c \<in> set (co_known s) \<and> CoLoading \<notin> conts (co_tasks s)" if "listed i s = Some c" for i c
    using assms listed_member [OF that] by (auto simp: co_inv_def)
  show ?thesis
    by (cases e) (use assms mem in \<open>auto simp: on_listed_def remove_def block_def report_def co_inv_def co_await_def co_do_def
      pair_of_def split: option.split\<close>)
qed
lemma co_taken_inv:
  assumes "co_inv s" and taken: "take_task i (co_tasks s) = Some (k, q)"
  shows "co_inv (s\<lparr>co_tasks := q\<rparr>)"
    and "k = CoLoading \<Longrightarrow> CoLoading \<notin> conts q \<and> co_items s = [] \<and> co_reporting s = None \<and> list_all (\<lambda>f. names f = None) (co_log s)"
proof -
  have one: "length (tasks_of (\<lambda>k. k = CoLoading) (co_tasks s)) \<le> 1" using assms(1) by (simp add: co_inv_def)
  note single = take_task_single [OF taken one]
  have sub: "x \<in> conts q \<Longrightarrow> x \<in> conts (co_tasks s)" for x using taken by (rule take_task_sub)
  have len: "length (tasks_of (\<lambda>k. k = CoLoading) q) \<le> 1" using single one by (cases "k = CoLoading") simp_all
  then show "co_inv (s\<lparr>co_tasks := q\<rparr>)" using assms(1) sub by (auto simp: co_inv_def)
  assume k: "k = CoLoading"
  then have "tasks_of (\<lambda>k. k = CoLoading) q = []" using single(1) by simp
  then have "CoLoading \<notin> conts q" using set_tasks_of [of "\<lambda>k. k = CoLoading" q] by auto
  moreover have "CoLoading \<in> conts (co_tasks s)" using take_task_cont [OF taken] k by simp
  ultimately show "CoLoading \<notin> conts q \<and> co_items s = [] \<and> co_reporting s = None \<and> list_all (\<lambda>f. names f = None) (co_log s)"
    using assms(1) by (simp add: co_inv_def)
qed

lemma co_loaded_inv:
  assumes "co_inv s" and "CoLoading \<notin> conts (co_tasks s)" and "co_reporting s = None" and "list_all (\<lambda>f. names f = None) (co_log s)"
  shows "co_inv (co_loaded r s)"
  using assms
  by (auto simp: co_loaded_def co_load_failed_def co_inv_def co_do_def list_all_iff split: reply.split option.split)

lemma co_resume_inv: "co_inv s \<Longrightarrow> co_inv (co_resume k r s)"
  by (cases k) (auto simp: drop_item_def reported_def co_inv_def split: reply.split)

lemma co_step_inv:
  assumes "co_inv s"
  shows "co_inv (connections_step s e)"
proof (cases e)
  case (CoLoadDone i r)
  have "co_inv (co_loaded r (s\<lparr>co_tasks := q\<rparr>))" if "take_task i (co_tasks s) = Some (CoLoading, q)" for q
    using co_taken_inv [OF assms that] by (intro co_loaded_inv) simp_all
  then show ?thesis using assms CoLoadDone
    by (auto simp: connections_step_def split: option.split co_cont.split)
next
  case (CoDone i r)
  then show ?thesis using assms co_taken_inv(1) [OF assms, of i]
    by (auto simp: connections_step_def intro: co_resume_inv split: option.split)
next
  case CoUnmount
  then show ?thesis using assms by (simp add: connections_step_def co_inv_def)
qed (use assms co_press_inv [OF assms, of e] in \<open>simp_all add: connections_step_def del: co_press.simps\<close>)

interpretation connections_page: machine connections_step "\<lambda>_ _. True" co_inv
  by unfold_locales (rule co_step_inv)

text \<open>Every block and every report names a person together with the connection under which the
  server listed them, also when the list changes, another person is picked or the page is left
  while requests are in flight; and the list only ever shrinks, by people the server confirmed.\<close>

theorem requests_name_listed_people:
  assumes "reachable connections_step (\<lambda>_ _. True) connections_init s"
  shows "list_all (\<lambda>f. names f = None \<or> the (names f) \<in> pair_of ` set (co_known s)) (co_log s)
    \<and> set (co_items s) \<subseteq> set (co_known s)"
proof -
  have "co_inv connections_init" by (simp add: co_inv_def connections_init_def)
  with assms have "co_inv s" by (rule connections_page.inv_reachable)
  then have "names f = None \<or> the (names f) \<in> pair_of ` set (co_known s)" if "f \<in> set (co_log s)" for f
    using that by (cases "names f") (auto simp: co_inv_def)
  then show ?thesis using \<open>co_inv s\<close> by (simp add: co_inv_def list_all_iff)
qed

definition ben_contact :: contact where
  "ben_contact = \<lparr>ct_id = lit ''c1'', ct_createdAt = [], ct_person = \<lparr>pn_id = lit ''p1'', pn_displayName = lit ''Ben'',
     pn_avatarUrl = [], pn_bio = [], pn_countryCode = [], pn_interests = [], pn_languages = []\<rparr>\<rparr>"

definition eve_contact :: contact where
  "eve_contact = ben_contact\<lparr>ct_id := lit ''c2'', ct_person := (ct_person ben_contact)\<lparr>pn_id := lit ''p2''\<rparr>\<rparr>"

definition blocked_run :: "co_event list" where
  "blocked_run = [CoLoadDone 0 (Response 200 (Some [ben_contact, eve_contact])), PressBlock (lit ''c1''), CoDone 1 (Response 200 (Some ()))]"

lemma requests_name_listed_people_witness:
  "co_items (run connections_step connections_init blocked_run) = [eve_contact]
   \<and> co_log (run connections_step connections_init blocked_run) = [CoGet, CoBlock (lit ''p1'') (lit ''c1'')]
   \<and> (lit ''p1'', lit ''c1'') \<in> pair_of ` set (co_known (run connections_step connections_init blocked_run))"
proof -
  have run: "co_items (run connections_step connections_init blocked_run) = [eve_contact]"
    "co_log (run connections_step connections_init blocked_run) = [CoGet, CoBlock (lit ''p1'') (lit ''c1'')]"
    by (simp_all add: blocked_run_def connections_step_def connections_init_def take_task_def co_loaded_def ok_status_def
        on_listed_def listed_def block_def ben_contact_def eve_contact_def co_await_def co_do_def drop_item_def)
  have "reachable connections_step (\<lambda>_ _. True) connections_init (run connections_step connections_init blocked_run)"
    by (rule admissible_reachable) (rule admissible_True)
  from requests_name_listed_people [OF this] run show ?thesis by simp
qed

text \<open>A block without an answer says nothing and leaves the person listed.\<close>

lemma failed_block_is_silent:
  "drop_item i NetworkError s = s" "reported NetworkError s = s"
  by (simp_all add: drop_item_def reported_def)

text \<open>The answer to one report closes the dialog of the next and clears what was typed there.\<close>

lemma report_reply_closes_next_report:
  "co_reporting (run connections_step connections_init [CoLoadDone 0 (Response 200 (Some [ben_contact, eve_contact])),
     PressReport (lit ''c1''), SubmitReport, CloseReport, PressReport (lit ''c2''), EditDetails (lit ''spam''),
     CoDone 1 (Response 200 (Some ()))]) = None"
  by (simp add: connections_step_def connections_init_def take_task_def co_loaded_def ok_status_def
      on_listed_def listed_def report_def ben_contact_def eve_contact_def co_await_def co_do_def reported_def)

section \<open>Inbox\<close>

record inbox_contact =
  ic_id :: jstr
  ic_displayName :: jstr
  ic_avatarUrl :: jstr

record inbox =
  ib_posts :: bool
  ib_connections :: "inbox_contact list"
  ib_status :: jstr
  ib_stopped :: bool
  ib_loading :: bool      \<comment> \<open>the request of \<open>load\<close> is pending\<close>
  ib_left :: bool         \<comment> \<open>\<open>router.replace("/")\<close> was called\<close>

definition inbox_init :: "bool \<Rightarrow> inbox" where
  "inbox_init posts = \<lparr>ib_posts = posts, ib_connections = [], ib_status = lit ''Loading - '', ib_stopped = False,
     ib_loading = True, ib_left = False\<rparr>"

definition inbox_failed :: "inbox \<Rightarrow> inbox" where
  "inbox_failed s = (if ib_stopped s then s else s\<lparr>ib_status := lit ''Could not load your account. Please refresh.''\<rparr>)"

definition inbox_loaded :: "inbox_contact list reply \<Rightarrow> inbox \<Rightarrow> inbox" where
  "inbox_loaded r s = (case r of
     NetworkError \<Rightarrow> inbox_failed s
   | Response n b \<Rightarrow>
       if n = 401 then s\<lparr>ib_left := True\<rparr>
       else if \<not> ok_status n then inbox_failed s
       else (case b of None \<Rightarrow> inbox_failed s
         | Some cs \<Rightarrow> if ib_stopped s then s else s\<lparr>ib_connections := cs, ib_status := []\<rparr>))"

datatype inbox_event = IbLoaded "inbox_contact list reply" | IbUnmount

definition inbox_step :: "inbox \<Rightarrow> inbox_event \<Rightarrow> inbox" where
  "inbox_step s e = (case e of
     IbLoaded r \<Rightarrow> if ib_loading s then inbox_loaded r (s\<lparr>ib_loading := False\<rparr>) else s
   | IbUnmount \<Rightarrow> s\<lparr>ib_stopped := True\<rparr>)"

text \<open>The hint to meet somebody appears only when an empty list has really been loaded.\<close>

definition empty_hint :: "inbox \<Rightarrow> bool" where
  "empty_hint s \<longleftrightarrow> \<not> ib_posts s \<and> ib_connections s = [] \<and> ib_status s = []"

lemma empty_hint_needs_answer:
  "empty_hint (run inbox_step (inbox_init posts) es) \<Longrightarrow> \<not> ib_loading (run inbox_step (inbox_init posts) es)"
proof -
  have "ib_loading s \<longrightarrow> ib_status s \<noteq> [] \<Longrightarrow> ib_loading (inbox_step s e) \<longrightarrow> ib_status (inbox_step s e) \<noteq> []" for s e
    by (auto simp: inbox_step_def inbox_loaded_def inbox_failed_def split: inbox_event.split reply.split option.split)
  then have "ib_loading (run inbox_step s es) \<longrightarrow> ib_status (run inbox_step s es) \<noteq> []"
    if "ib_loading s \<longrightarrow> ib_status s \<noteq> []" for s
    using that by (induction es arbitrary: s) simp_all
  then have "ib_loading (run inbox_step (inbox_init posts) es) \<longrightarrow> ib_status (run inbox_step (inbox_init posts) es) \<noteq> []"
    by (simp add: inbox_init_def)
  then show "empty_hint (run inbox_step (inbox_init posts) es) \<Longrightarrow> \<not> ib_loading (run inbox_step (inbox_init posts) es)"
    by (auto simp: empty_hint_def)
qed

end
