(* ===== verification/Spec2Isabelle.thy ===== *)
theory Spec2Isabelle
  imports Call_Media Call_Session Call_Agreement App_Shell Conversation_Screen Lab_Screen Discovery_Settling
    App_Routes People_Pages
begin

text \<open>
  A verification development for the web client of OneMinute (\<open>src/apps/web\<close>), an application in
  which two strangers meet for one minute on video and may stay connected afterwards.

  \<^bold>\<open>The program and its parts.\<close> The client is a set of React components. Every page lies inside the
  communication runtime, which owns the event socket, the settings, the notices and the call that
  is open, and renders one call overlay for it; the conversation page, the settings page, the
  notification centre and the activity page work through it. The discovery page and the networking
  lab have sockets and peer connections of their own. Cameras and microphones are opened by the call
  overlay, discovery and the lab, through shared code for mirrored cameras. Sign-in, onboarding, the
  profile page, the moments page and the connections page talk to the server by single requests.

  \<^bold>\<open>How code is modelled.\<close> One record per component holds its React state, its refs, the requests it
  has made (a log) and its suspended \<open>async\<close> calls; fields marked as history are read by no operation.
  One event (a click, a timer, a frame of a socket, a callback of the browser, a promise that
  settles) is one step, since JavaScript runs to completion between awaits. An \<open>async\<close> function is
  cut at its awaits: each await is a constructor of a datatype of continuations that carries the
  variables the rest of the function uses, and settling resumes it with an outcome the environment
  chooses, success or failure, in any order. An exception of the source is a branch of the model. A
  button has an effect only where the markup renders it enabled. Strings are lists of 16-bit code
  units. Effects of React run before the next event, except where the code depends on the
  commit being later (\<open>Comm_Runtime\<close>). The browser, the network and the server are the
  environment: they are the events, unconstrained unless a theorem says so.

  \<^bold>\<open>Theories.\<close>
  \<^item> \<open>Web_Prelude\<close>: strings, replies, pools of suspended calls, reachability, and the contracts
    \<open>machine\<close> (an invariant of all runs), \<open>monotone_machine\<close>, \<open>form\<close> (every body sent is
    acceptable) and \<open>quiescing\<close> (pending work that only shrinks).
  \<^item> \<open>Media_Devices\<close>: tracks as shared mutable objects; the contract \<open>capture_source\<close> (what is
    released is what was taken), met by the microphone, the processed camera and the lab's capture.
  \<^item> \<open>Processed_Camera\<close> (\<open>lib/webrtc/processed-camera.ts\<close>, \<open>call-camera.ts\<close>), \<open>Call_Media\<close>
    (\<open>call-media.ts\<close>), \<open>Lab_Media\<close> (\<open>media.ts\<close>): opening a camera on every failure path, the frame
    pump and the canvas fallback, binding tracks to transceivers, the lab's sources.
  \<^item> \<open>Call_Overlay\<close> (\<open>components/communication/video-call.tsx\<close>), with \<open>Call_Overlay_Safety\<close>, \<open>_Ice\<close>,
    \<open>_Progress\<close> and \<open>_Guarantees\<close>: setup, live events, ICE, controls, timers; devices and connections
    released, candidates in order, roles, honest mute, time limits. \<open>Call_Life\<close>: the overlay
    refines a four-state automaton.
  \<^item> \<open>Call_Relay\<close>, \<open>Call_Exchange\<close>, \<open>Call_Agreement\<close> (\<open>callAction\<close> of \<open>internal/communication/calls.go\<close>
    with the overlays of both parties): one call from end to end, with any number of tabs; descriptions
    and candidates come from the other party, hanging up reaches every tab, one accept is taken.
  \<^item> \<open>Comm_Runtime\<close> (\<open>runtime.tsx\<close>): reconnection, delivery, notifications, the open call;
    \<open>Call_Session\<close>: the runtime composed with the overlays it mounts and unmounts. \<open>App_Shell\<close>: the runtimes
    and the conversation views that replace one another as the user moves through the application.
  \<^item> \<open>Runtime_Pages\<close> (\<open>settings.tsx\<close>, \<open>notifications.tsx\<close>, \<open>activity.tsx\<close>) and \<open>Navigation\<close>
    (\<open>navigation/mobile-nav.tsx\<close>): pages that await the runtime's own \<open>async\<close> functions.
  \<^item> \<open>Message_List\<close>, \<open>Message_Thread\<close>, \<open>Message_Guarantees\<close> (\<open>messages.tsx\<close>, and the message
    queries of \<open>internal/communication/handler.go\<close>): merging pages, sending with retry against a
    store that ignores repeated client ids, earlier messages, polling, typing, receipts.
    \<open>Conversation_Screen\<close>: what the page shows of that state.
  \<^item> \<open>Json_Text\<close>, \<open>Signaling_Protocol\<close> (\<open>lib/signaling/protocol.ts\<close> and the codec inside
    \<open>discovery.tsx\<close>): \<open>JSON.stringify\<close> and \<open>JSON.parse\<close>, the round trip of signals, the agreement of
    both codecs.
  \<^item> \<open>Lab_Session\<close>, \<open>Lab_Guarantees\<close> (\<open>lib/webrtc/lab-session.ts\<close>), \<open>Networking_Lab\<close>
    (\<open>components/video/lab.tsx\<close>): one session and the page that starts sessions.
  \<^item> \<open>Discovery_Client\<close>, \<open>Discovery_Safety\<close>, \<open>Discovery_Guarantees\<close>, \<open>Discovery_Settling\<close>
    (\<open>components/discovery/discovery.tsx\<close>): queueing, the encounter with its media generations, chat,
    countdown, camera switch; devices off after the encounter; what was pending when the page is
    left comes to an end. \<open>Discovery_Screen\<close>: what the page shows.
  \<^item> \<open>Preferences\<close> (\<open>lib/preferences.ts\<close>, the two toggles), \<open>Profile_Rules\<close> (\<open>validProfile\<close> of
    \<open>internal/social/social.go\<close>), \<open>Onboarding\<close> (\<open>social/onboarding.tsx\<close>), \<open>Profile_Editor\<close>
    (\<open>social/profile.tsx\<close>), \<open>Moments\<close> (\<open>social/moments.tsx\<close>, with the check of
    \<open>internal/communication/moments.go\<close>), \<open>Sign_In\<close> (\<open>auth/sign-in.tsx\<close>), \<open>People_Pages\<close>
    (\<open>social/connections.tsx\<close>, \<open>social/inbox.tsx\<close>).
  \<^item> \<open>Page_Screens\<close>, \<open>Lab_Screen\<close>: what the activity page, the moments page, the onboarding form, the
    sign-in card and the lab page show. \<open>App_Routes\<close> (\<open>app/\<close>): which address renders which page, and that no
    component leads to an address without one.

  \<^bold>\<open>What the lemmas show.\<close> Each component has an invariant, one lemma per operation that preserves it,
  and an interpretation of the contract that lifts it to all runs; the numbered properties are read
  off it. Lemmas whose names end in what goes wrong (\<open>..._leaks_camera\<close>, \<open>..._is_lost\<close>,
  \<open>..._closes_next_call\<close>, \<open>double_...\<close>, \<open>two_tabs_both_answer\<close>) are concrete runs in which the code does less than it means to;
  the properties state their exceptions accordingly (for instance \<open>no_camera_click\<close>, \<open>di_stale\<close>).

  \<^bold>\<open>Bounds and fuel.\<close> The only fuel is that of the JSON parser: twice the length of the text and two
  more, and \<open>parse_value_enough\<close> shows that more never changes the answer. Everything else
  recurses on data. Times are natural numbers or integers of milliseconds; the preview's position is
  rational where the source computes in floating point; JSON numbers are integers.

  \<^bold>\<open>Not modelled.\<close> Markup and styling beyond what enables a control or decides a text (most screens are modelled as data, from which fixed texts and icons are left out); focus, scroll
  positions and wake-ups of \<open>video\<close> elements; the layout, the metadata and the icons
  (\<open>components/navigation/icon.tsx\<close>), which keep no state; the decoding of media and the inside of
  WebRTC (its callbacks are events); the Go server, except the message queries, the profile check,
  the moment check and the relay of call actions that the client's properties refer to (the invitation, the
  busy keys and the expiry times of calls are not modelled, a call may expire at any moment); the test scripts.
\<close>

end
